(* ===== verification/Prelude.thy ===== *)
theory Prelude
  imports Main "HOL-Library.Word" "HOL-Library.Sublist"
begin

text \<open>
  Shared vocabulary of the development: Rust's machine integers, results with panics, the part
  of the string library the providers use (trimming, splitting, integer parsing and printing,
  ASCII case folding), the error type of the RPC layer, link definitions and call contexts.

  Conventions used by every component theory:
  \<^item> a Rust \<open>str\<close> is the list of its UTF-8 bytes, one \<open>char\<close> per byte;
  \<^item> a \<open>HashMap\<close> whose iteration order matters to the code is an association list in that order
    (the order is arbitrary, the keys are distinct); any other map is a partial function;
  \<^item> arithmetic on fixed-width integers wraps, as in the release profile of every crate here;
  \<^item> a call into code outside the repository is an argument of the definition that makes it; a
    failing call yields the text its error displays.
\<close>

named_theorems model_defs \<open>definitions of small model functions, for unfolding\<close>
named_theorems registry_simps \<open>lookup after a link operation, one equation per provider operation\<close>

type_synonym u8 = "8 word"
type_synonym u16 = "16 word"
type_synonym u32 = "32 word"
type_synonym u64 = "64 word"
type_synonym bytes = "u8 list"

section \<open>Results\<close>

text \<open>\<open>Panic\<close> is an abort of the running task: an \<open>unwrap\<close> on nothing, a slice out of range.\<close>

datatype ('e, 'a) rres = Ok 'a | Err 'e | Panic

primrec rbind :: "('e, 'a) rres \<Rightarrow> ('a \<Rightarrow> ('e, 'b) rres) \<Rightarrow> ('e, 'b) rres" where
  "rbind (Ok x) f = f x"
| "rbind (Err e) f = Err e"
| "rbind Panic f = Panic"

primrec is_ok :: "('e, 'a) rres \<Rightarrow> bool" where
  "is_ok (Ok x) = True"
| "is_ok (Err e) = False"
| "is_ok Panic = False"

text \<open>An external call's result, with its error rendered by \<open>f\<close>: Rust's \<open>map_err\<close> and \<open>?\<close>.\<close>

primrec map_err :: "('d \<Rightarrow> 'e) \<Rightarrow> 'd + 'a \<Rightarrow> ('e, 'a) rres" where
  "map_err f (Inl d) = Err (f d)"
| "map_err f (Inr x) = Ok x"

definition ok_or :: "'e \<Rightarrow> 'a option \<Rightarrow> ('e, 'a) rres" where
  "ok_or e x = (case x of None \<Rightarrow> Err e | Some v \<Rightarrow> Ok v)"

definition unwrap :: "'a option \<Rightarrow> ('e, 'a) rres" where
  "unwrap x = (case x of None \<Rightarrow> Panic | Some v \<Rightarrow> Ok v)"

definition unwrap_res :: "'d + 'a \<Rightarrow> ('e, 'a) rres" where
  "unwrap_res r = (case r of Inl _ \<Rightarrow> Panic | Inr x \<Rightarrow> Ok x)"

definition or_else :: "'a option \<Rightarrow> 'a option \<Rightarrow> 'a option" where
  "or_else x y = (case x of None \<Rightarrow> y | Some v \<Rightarrow> Some v)"

definition unwrap_or :: "'a option \<Rightarrow> 'a \<Rightarrow> 'a" where
  "unwrap_or x d = (case x of None \<Rightarrow> d | Some v \<Rightarrow> v)"

text \<open>The operator \<open>?\<close> in code with state: on an error the function returns with the state as it is.\<close>

primrec early :: "('e, 'a) rres \<Rightarrow> 's \<Rightarrow> ('a \<Rightarrow> ('e, 'b) rres \<times> 's) \<Rightarrow> ('e, 'b) rres \<times> 's" where
  "early (Ok x) s f = f x"
| "early (Err e) s f = (Err e, s)"
| "early Panic s f = (Panic, s)"

text \<open>A list of results becomes the result of a list: the first failure wins.\<close>

fun traverse :: "('a \<Rightarrow> ('e, 'b) rres) \<Rightarrow> 'a list \<Rightarrow> ('e, 'b list) rres" where
  "traverse f [] = Ok []"
| "traverse f (x # xs) = rbind (f x) (\<lambda>y. rbind (traverse f xs) (\<lambda>ys. Ok (y # ys)))"

lemma traverse_cong [fundef_cong]:
  "xs = ys \<Longrightarrow> (\<And>x. x \<in> set ys \<Longrightarrow> f x = g x) \<Longrightarrow> traverse f xs = traverse g ys"
  by (induction ys arbitrary: xs) auto

lemma early_not_Panic: "fst (early r s f) = Panic \<longleftrightarrow> r = Panic \<or> (\<exists>x. r = Ok x \<and> fst (f x) = Panic)"
  by (cases r) auto

lemma early_state: "(\<And>x. r = Ok x \<Longrightarrow> P (snd (f x))) \<Longrightarrow> P s \<Longrightarrow> P (snd (early r s f))"
  by (cases r) auto

lemma early_Ok_iff: "early r s f = (Ok y, s') \<longleftrightarrow> (\<exists>x. r = Ok x \<and> f x = (Ok y, s'))"
  by (cases r) auto

lemma rbind_Ok_iff: "rbind m f = Ok y \<longleftrightarrow> (\<exists>x. m = Ok x \<and> f x = Ok y)"
  by (cases m) auto

lemma rbind_Panic_iff: "rbind m f = Panic \<longleftrightarrow> m = Panic \<or> (\<exists>x. m = Ok x \<and> f x = Panic)"
  by (cases m) auto

lemma rbind_Err_iff: "rbind m f = Err e \<longleftrightarrow> m = Err e \<or> (\<exists>x. m = Ok x \<and> f x = Err e)"
  by (cases m) auto

lemma map_err_Ok_iff [simp]: "map_err f r = Ok x \<longleftrightarrow> r = Inr x"
  by (cases r) auto

lemma map_err_not_Panic [simp]: "map_err f r \<noteq> Panic"
  by (cases r) auto

lemma ok_or_Ok_iff [simp]: "ok_or e x = Ok v \<longleftrightarrow> x = Some v"
  by (cases x) (auto simp: ok_or_def)

lemma ok_or_not_Panic [simp]: "ok_or e x \<noteq> Panic"
  by (cases x) (auto simp: ok_or_def)

lemma ok_or_simps [simp]: "ok_or e None = Err e" "ok_or e (Some v) = Ok v"
  by (simp_all add: ok_or_def)

lemma unwrap_simps [simp]: "unwrap None = Panic" "unwrap (Some v) = Ok v"
  by (simp_all add: unwrap_def)

lemma unwrap_res_simps [simp]: "unwrap_res (Inl e) = Panic" "unwrap_res (Inr x) = Ok x"
  by (simp_all add: unwrap_res_def)

lemma early_unwrap:
  "early (unwrap x) s f = (case x of None \<Rightarrow> (Panic, s) | Some v \<Rightarrow> f v)"
  "early (unwrap_res r) s f = (case r of Inl _ \<Rightarrow> (Panic, s) | Inr v \<Rightarrow> f v)"
  by (simp_all split: option.splits sum.splits)

lemma or_else_simps [simp]:
  "or_else None y = y" "or_else (Some v) y = Some v"
  by (simp_all add: or_else_def)

lemma or_else_assoc: "or_else (or_else x y) z = or_else x (or_else y z)"
  by (cases x) simp_all

lemma or_else_None_right [simp]: "or_else x None = x"
  by (cases x) simp_all

lemma or_else_None_iff [simp]: "or_else x y = None \<longleftrightarrow> x = None \<and> y = None"
  by (cases x) simp_all

lemma or_else_Some_right [simp]: "\<exists>y. or_else x (Some z) = Some y"
  by (cases x) simp_all

lemma unwrap_or_simps [simp]: "unwrap_or None d = d" "unwrap_or (Some v) d = v"
  by (simp_all add: unwrap_or_def)

lemmas rres_iffs = rbind_Ok_iff rbind_Err_iff rbind_Panic_iff

section \<open>Strings\<close>

subsection \<open>ASCII case\<close>

definition code_in :: "nat \<Rightarrow> nat \<Rightarrow> char \<Rightarrow> bool" where
  "code_in lo hi c \<longleftrightarrow> lo \<le> of_char c \<and> of_char c \<le> hi"

definition is_digit :: "char \<Rightarrow> bool" where
  "is_digit = code_in 48 57"

definition to_ascii_lowercase :: "string \<Rightarrow> string" where
  "to_ascii_lowercase = map (\<lambda>c. if code_in 65 90 c then char_of (of_char c + 32 :: nat) else c)"

definition to_ascii_uppercase :: "string \<Rightarrow> string" where
  "to_ascii_uppercase = map (\<lambda>c. if code_in 97 122 c then char_of (of_char c - 32 :: nat) else c)"

definition eq_ignore_ascii_case :: "string \<Rightarrow> string \<Rightarrow> bool" where
  "eq_ignore_ascii_case a b \<longleftrightarrow> to_ascii_lowercase a = to_ascii_lowercase b"

lemma of_char_char_of_small: "n < 256 \<Longrightarrow> of_char (char_of (n :: nat)) = n"
  by simp

lemma to_ascii_lowercase_idem [simp]:
  "to_ascii_lowercase (to_ascii_lowercase s) = to_ascii_lowercase s"
  by (auto simp: to_ascii_lowercase_def code_in_def)

lemma length_to_ascii_lowercase [simp]: "length (to_ascii_lowercase s) = length s"
  by (simp add: to_ascii_lowercase_def)

subsection \<open>Prefixes and splitting\<close>

definition strip_prefix_str :: "string \<Rightarrow> string \<Rightarrow> string option" where
  "strip_prefix_str p s = (if prefix p s then Some (drop (length p) s) else None)"

definition starts_with :: "string \<Rightarrow> string \<Rightarrow> bool" where
  "starts_with s p \<longleftrightarrow> prefix p s"

text \<open>\<open>str::split\<close> with a one-byte separator: the empty string splits into one empty piece.\<close>

fun split_on :: "char \<Rightarrow> string \<Rightarrow> string list" where
  "split_on sep [] = [[]]"
| "split_on sep (c # cs) =
     (if c = sep then [] # split_on sep cs
      else (case split_on sep cs of [] \<Rightarrow> [[c]] | w # ws \<Rightarrow> (c # w) # ws))"

fun split_once :: "char \<Rightarrow> string \<Rightarrow> (string \<times> string) option" where
  "split_once sep [] = None"
| "split_once sep (c # cs) =
     (if c = sep then Some ([], cs)
      else (case split_once sep cs of None \<Rightarrow> None | Some (a, b) \<Rightarrow> Some (c # a, b)))"

fun join_with :: "string \<Rightarrow> string list \<Rightarrow> string" where
  "join_with sep [] = []"
| "join_with sep [w] = w"
| "join_with sep (w # v # ws) = w @ sep @ join_with sep (v # ws)"

text \<open>Pieces of the messages the code formats: a quoted text and a line break.\<close>

definition quoted :: "string \<Rightarrow> string" where
  "quoted s = CHR 0x27 # s @ [CHR 0x27]"

definition nl :: string where
  "nl = [CHR 0x0A]"

lemma split_on_not_Nil [simp]: "split_on sep s \<noteq> []"
  by (induction s) (auto split: list.splits)

lemma split_on_no_sep: "w \<in> set (split_on sep s) \<Longrightarrow> sep \<notin> set w"
proof (induction s arbitrary: w)
  case (Cons c s)
  then show ?case
    by (cases "split_on sep s") (auto split: if_splits)
qed simp

text \<open>Joining with the separator undoes the split: no byte of the input is lost.\<close>

lemma join_with_split_on: "join_with [sep] (split_on sep s) = s"
proof (induction s)
  case (Cons c s)
  then show ?case
    by (cases "split_on sep s"; cases "tl (split_on sep s)") (auto simp: neq_Nil_conv)
qed simp

lemma split_once_Some: "split_once sep s = Some (a, b) \<Longrightarrow> s = a @ sep # b \<and> sep \<notin> set a"
  by (induction s arbitrary: a) (auto split: if_splits option.splits)

lemma split_once_None: "split_once sep s = None \<longleftrightarrow> sep \<notin> set s"
  by (induction s) (auto split: option.splits)

subsection \<open>Trimming\<close>

text \<open>
  \<open>str::trim\<close> removes characters with the Unicode property White\_Space. \<open>ws_len s\<close> is the
  number of bytes of the white-space character at the front of \<open>s\<close>, 0 if there is none;
  \<open>ws_len_rev\<close> is the same for the reversed string.
\<close>

abbreviation byte :: "char \<Rightarrow> nat" where "byte c \<equiv> of_char c"

definition ascii_ws :: "char \<Rightarrow> bool" where
  "ascii_ws c \<longleftrightarrow> code_in 9 13 c \<or> byte c = 32"

definition ws2 :: "char \<Rightarrow> char \<Rightarrow> bool" where
  "ws2 c d \<longleftrightarrow> byte c = 0xC2 \<and> (byte d = 0x85 \<or> byte d = 0xA0)"

definition ws3 :: "char \<Rightarrow> char \<Rightarrow> char \<Rightarrow> bool" where
  "ws3 c d e \<longleftrightarrow>
     byte c = 0xE1 \<and> byte d = 0x9A \<and> byte e = 0x80 \<or>
     byte c = 0xE2 \<and> byte d = 0x80 \<and> (code_in 0x80 0x8A e \<or> byte e \<in> {0xA8, 0xA9, 0xAF}) \<or>
     byte c = 0xE2 \<and> byte d = 0x81 \<and> byte e = 0x9F \<or>
     byte c = 0xE3 \<and> byte d = 0x80 \<and> byte e = 0x80"

fun ws_len :: "string \<Rightarrow> nat" where
  "ws_len (c # s) =
     (if ascii_ws c then 1
      else (case s of
        [] \<Rightarrow> 0
      | d # s' \<Rightarrow> (if ws2 c d then 2
                  else (case s' of [] \<Rightarrow> 0 | e # _ \<Rightarrow> (if ws3 c d e then 3 else 0)))))"
| "ws_len [] = 0"

fun ws_len_rev :: "string \<Rightarrow> nat" where
  "ws_len_rev (c # s) =
     (if ascii_ws c then 1
      else (case s of
        [] \<Rightarrow> 0
      | d # s' \<Rightarrow> (if ws2 d c then 2
                  else (case s' of [] \<Rightarrow> 0 | e # _ \<Rightarrow> (if ws3 e d c then 3 else 0)))))"
| "ws_len_rev [] = 0"

lemma ws_len_pos_not_Nil: "0 < ws_len s \<Longrightarrow> s \<noteq> []" "0 < ws_len_rev s \<Longrightarrow> s \<noteq> []"
  by auto

function trim_start :: "string \<Rightarrow> string" where
  "trim_start s = (if ws_len s = 0 then s else trim_start (drop (ws_len s) s))"
  by pat_completeness auto
termination
  by (relation "measure length") (auto intro!: diff_less dest: ws_len_pos_not_Nil)

function trim_rev :: "string \<Rightarrow> string" where
  "trim_rev s = (if ws_len_rev s = 0 then s else trim_rev (drop (ws_len_rev s) s))"
  by pat_completeness auto
termination
  by (relation "measure length") (auto intro!: diff_less dest: ws_len_pos_not_Nil)

declare trim_start.simps [simp del] trim_rev.simps [simp del]

definition trim :: "string \<Rightarrow> string" where
  "trim s = rev (trim_rev (rev (trim_start s)))"

lemma trim_start_id: "ws_len s = 0 \<Longrightarrow> trim_start s = s"
  by (subst trim_start.simps) simp

lemma trim_rev_id: "ws_len_rev s = 0 \<Longrightarrow> trim_rev s = s"
  by (subst trim_rev.simps) simp

subsection \<open>Decimal numbers\<close>

definition digit_char :: "nat \<Rightarrow> char" where
  "digit_char d = char_of (48 + d)"

definition digit_val :: "char \<Rightarrow> nat" where
  "digit_val c = byte c - 48"

fun show_nat :: "nat \<Rightarrow> string" where
  "show_nat n = (if n < 10 then [digit_char n] else show_nat (n div 10) @ [digit_char (n mod 10)])"

declare show_nat.simps [simp del]

definition show_int :: "int \<Rightarrow> string" where
  "show_int i = (if i < 0 then CHR ''-'' # show_nat (nat (- i)) else show_nat (nat i))"

text \<open>
  \<open>str::parse\<close> for an unsigned type with \<open>bound\<close> values: an optional plus sign, then one or
  more digits, and no overflow.
\<close>

definition digits_value :: "string \<Rightarrow> nat" where
  "digits_value = foldl (\<lambda>a c. 10 * a + digit_val c) 0"

definition parse_uint :: "nat \<Rightarrow> string \<Rightarrow> nat option" where
  "parse_uint bound s =
     (let ds = (case s of c # cs \<Rightarrow> if c = CHR ''+'' then cs else s | [] \<Rightarrow> [])
      in if ds \<noteq> [] \<and> list_all is_digit ds \<and> digits_value ds < bound
         then Some (digits_value ds) else None)"

definition parse_u64 :: "string \<Rightarrow> u64 option" where
  "parse_u64 s = map_option of_nat (parse_uint (2 ^ 64) s)"

definition parse_u32 :: "string \<Rightarrow> u32 option" where
  "parse_u32 s = map_option of_nat (parse_uint (2 ^ 32) s)"

definition parse_u16 :: "string \<Rightarrow> u16 option" where
  "parse_u16 s = map_option of_nat (parse_uint (2 ^ 16) s)"

lemma byte_digit_char [simp]: "d < 10 \<Longrightarrow> byte (digit_char d) = 48 + d"
  by (simp add: digit_char_def)

lemma digit_val_digit_char [simp]: "d < 10 \<Longrightarrow> digit_val (digit_char d) = d"
  by (simp add: digit_val_def)

lemma is_digit_digit_char [simp]: "d < 10 \<Longrightarrow> is_digit (digit_char d)"
  by (simp add: is_digit_def code_in_def)

lemma show_nat_not_Nil [simp]: "show_nat n \<noteq> []"
  by (subst show_nat.simps) simp

lemma show_nat_digits: "list_all is_digit (show_nat n)"
proof (induction n rule: show_nat.induct)
  case (1 n)
  then show ?case
    by (cases "n < 10") (auto simp: show_nat.simps [of n])
qed

lemma digits_value_snoc: "digits_value (s @ [c]) = 10 * digits_value s + digit_val c"
  by (simp add: digits_value_def)

lemma digits_value_show_nat [simp]: "digits_value (show_nat n) = n"
proof (induction n rule: show_nat.induct)
  case (1 n)
  then show ?case
    by (cases "n < 10") (simp_all add: show_nat.simps [of n] digits_value_snoc,
        simp add: digits_value_def)
qed

lemma plus_not_digit [simp]: "\<not> is_digit CHR ''+''"
  by (simp add: is_digit_def code_in_def)

text \<open>Parsing what was printed gives the number back.\<close>

lemma parse_uint_show_nat: "n < bound \<Longrightarrow> parse_uint bound (show_nat n) = Some n"
proof -
  assume "n < bound"
  obtain c cs where eq: "show_nat n = c # cs"
    by (cases "show_nat n") simp_all
  then have "c \<noteq> CHR ''+''"
    using show_nat_digits [of n] by auto
  then show ?thesis
    using show_nat_digits [of n] digits_value_show_nat [of n] \<open>n < bound\<close>
    by (simp add: parse_uint_def eq del: digits_value_show_nat)
qed

lemma parse_u64_show_nat: "n < 2 ^ 64 \<Longrightarrow> parse_u64 (show_nat n) = Some (of_nat n)"
  by (simp add: parse_u64_def parse_uint_show_nat)

lemma parse_uint_Some_bound: "parse_uint bound s = Some n \<Longrightarrow> n < bound"
  by (auto simp: parse_uint_def Let_def split: if_splits)

section \<open>Generic lemmas\<close>

lemma find_snoc: "List.find P (xs @ [y]) = or_else (List.find P xs) (if P y then Some y else None)"
  by (induction xs) auto

lemma unat_of_nat_u64: "n < 2 ^ 64 \<Longrightarrow> unat (of_nat n :: u64) = n"
  by (simp add: unat_of_nat)

section \<open>The RPC layer\<close>

text \<open>
  The variants of \<open>RpcError\<close> the providers construct. \<open>FromIo\<close> and \<open>FromString\<close> stand for the
  values that the conversions \<open>RpcError::from\<close> make of an I/O error and of a string.
\<close>

datatype rpc_error =
    InvalidParameter string
  | ProviderInit string
  | NotInitialized string
  | Rpc string
  | Nats string
  | Timeout string
  | Other string
  | NotImplemented
  | FromIo string
  | FromString string

type_synonym 'a rpc_result = "(rpc_error, 'a) rres"

type_synonym link_values = "(string \<times> string) list"

record link_definition =
  ld_actor_id :: string
  ld_provider_id :: string
  ld_link_name :: string
  ld_contract_id :: string
  ld_values :: link_values

record ctx =
  ctx_actor :: "string option"

definition hm_get :: "('k \<times> 'v) list \<Rightarrow> 'k \<Rightarrow> 'v option" where
  "hm_get m k = map_of m k"

definition wf_hashmap :: "('k \<times> 'v) list \<Rightarrow> bool" where
  "wf_hashmap m \<longleftrightarrow> distinct (map fst m)"

text \<open>
  The lookup every provider does first: the caller's identity, then that actor's entry in the
  table of links.
\<close>

definition no_actor :: rpc_error where
  "no_actor = InvalidParameter ''no actor in request''"

definition not_linked :: "string \<Rightarrow> rpc_error" where
  "not_linked actor = InvalidParameter (''actor not linked:'' @ actor)"

end
