(* ===== verification/Rust_Path.thy ===== *)
theory Rust_Path
  imports Prelude
begin

text \<open>
  The part of \<open>std::path\<close> (on Unix) that the providers use: the component iterator, joining,
  absolute paths, file names and extensions.
\<close>

datatype path_component = RootDir | CurDir | ParentDir | Normal string

definition is_absolute :: "string \<Rightarrow> bool" where
  "is_absolute p \<longleftrightarrow> prefix ''/'' p"

primrec piece_component :: "string list \<Rightarrow> path_component list" where
  "piece_component [] = []"
| "piece_component (w # ws) =
     (if w = [] \<or> w = ''.'' then piece_component ws
      else (if w = ''..'' then ParentDir else Normal w) # piece_component ws)"

text \<open>
  \<open>Path::components\<close>: repeated separators and interior dots vanish; a leading dot of a relative
  path stays as \<open>CurDir\<close>.
\<close>

definition components :: "string \<Rightarrow> path_component list" where
  "components p =
     (let ws = split_on (CHR ''/'') p
      in if is_absolute p then RootDir # piece_component ws
         else if hd ws = ''.'' then CurDir # piece_component ws
         else piece_component ws)"

text \<open>\<open>Path::join\<close> and \<open>PathBuf::push\<close>: an absolute argument replaces the path.\<close>

definition path_join :: "string \<Rightarrow> string \<Rightarrow> string" where
  "path_join p q =
     (if is_absolute q then q
      else if p = [] \<or> last p = CHR ''/'' then p @ q
      else p @ ''/'' @ q)"

definition file_name :: "string \<Rightarrow> string option" where
  "file_name p =
     (case rev (components p) of Normal w # _ \<Rightarrow> Some w | _ \<Rightarrow> None)"

definition extension :: "string \<Rightarrow> string option" where
  "extension p =
     (case file_name p of
        None \<Rightarrow> None
      | Some w \<Rightarrow> (case split_once (CHR ''.'') (rev w) of
                    None \<Rightarrow> None
                  | Some (e, stem) \<Rightarrow> (if stem = [] then None else Some (rev e))))"

lemma components_relative_no_root: "\<not> is_absolute p \<Longrightarrow> RootDir \<notin> set (components p)"
proof -
  have "RootDir \<notin> set (piece_component ws)" for ws
    by (induction ws) auto
  then show "\<not> is_absolute p \<Longrightarrow> ?thesis"
    by (simp add: components_def Let_def)
qed

lemma components_absolute: "is_absolute p \<Longrightarrow> \<exists>cs. components p = RootDir # cs"
  by (simp add: components_def Let_def)

lemma piece_component_append: "piece_component (xs @ ys) = piece_component xs @ piece_component ys"
  by (induction xs) auto

lemma split_on_append_sep: "split_on sep (xs @ sep # ys) = split_on sep xs @ split_on sep ys"
  by (induction xs) (auto split: list.splits)

lemma piece_component_split_snoc_sep:
  "piece_component (split_on (CHR ''/'') (p @ ''/'')) = piece_component (split_on (CHR ''/'') p)"
  using split_on_append_sep [of "CHR ''/''" p "[]"] by (simp add: piece_component_append)

lemma hd_split_on_append: "xs \<noteq> [] \<Longrightarrow> hd (split_on sep xs @ ys) = hd (split_on sep xs)"
  by (simp add: hd_append)

text \<open>Joining a relative path appends its components, less a leading dot.\<close>

lemma components_join:
  assumes "p \<noteq> []" and "\<not> is_absolute q"
  shows "components (path_join p q) = components p @ piece_component (split_on (CHR ''/'') q)"
proof -
  let ?sp = "split_on (CHR ''/'')"
  obtain p' where p': "path_join p q = p' @ CHR ''/'' # q"
    and same: "piece_component (?sp p') = piece_component (?sp p)"
    and "p' = p \<or> p = p' @ ''/''"
  proof (cases "last p = CHR ''/''")
    case True
    then obtain r where r: "p = r @ ''/''"
      using assms(1) by (metis append_butlast_last_id)
    show ?thesis
      using assms(2) r that [of r] by (simp add: path_join_def piece_component_split_snoc_sep)
  next
    case False
    then show ?thesis
      using assms that [of p] by (simp add: path_join_def)
  qed
  have abs: "is_absolute (path_join p q) \<longleftrightarrow> is_absolute p"
    using assms p' \<open>p' = p \<or> p = p' @ ''/''\<close>
    by (cases p') (auto simp: is_absolute_def)
  have hd: "hd (?sp (path_join p q)) = hd (?sp p)"
    using p' \<open>p' = p \<or> p = p' @ ''/''\<close> split_on_append_sep [of "CHR ''/''" p' "[]"]
    by (auto simp: split_on_append_sep hd_append)
  show ?thesis
    using abs hd same p' by (simp add: components_def Let_def split_on_append_sep piece_component_append)
qed

end
