(* ===== verification/Json.thy ===== *)
theory Json
  imports Prelude
begin

text \<open>
  JSON values as the JSON crate's \<open>Value\<close> has them. A number is the text it prints as; an object
  is the list of its entries in iteration order, with distinct keys. Parsing and printing belong
  to that crate and are arguments of the definitions that use them.
\<close>

datatype json =
    JNull
  | JBool bool
  | JNumber string
  | JString string
  | JArray "json list"
  | JObject "(string \<times> json) list"

text \<open>Every object in the value has distinct keys.\<close>

primrec wf_json :: "json \<Rightarrow> bool" where
  "wf_json JNull = True"
| "wf_json (JBool b) = True"
| "wf_json (JNumber n) = True"
| "wf_json (JString s) = True"
| "wf_json (JArray vs) = list_all id (map wf_json vs)"
| "wf_json (JObject kvs) = (distinct (map fst kvs) \<and> list_all snd (map (map_prod id wf_json) kvs))"

primrec as_str :: "json \<Rightarrow> string option" where
  "as_str JNull = None"
| "as_str (JBool b) = None"
| "as_str (JNumber n) = None"
| "as_str (JString s) = Some s"
| "as_str (JArray vs) = None"
| "as_str (JObject kvs) = None"

lemma as_str_Some_iff [simp]: "as_str v = Some s \<longleftrightarrow> v = JString s"
  by (cases v) auto

end
