(* ===== verification/Httpserver_Settings.thy ===== *)
theory Httpserver_Settings
  imports Prelude Rust_Path Json "HOL-Library.AList"
begin

text \<open>
  \<open>httpserver-rs/src/settings.rs\<close> and \<open>hashmap_ci.rs\<close>: the settings of one link's HTTP server,
  how they are merged from the sources a link may name, and their validation.

  \<open>settings_env\<close> collects what the code calls outside the repository: the file system, the base64,
  JSON and TOML decoders, the syntax of socket addresses and URIs, and the HTTP crate's checks of
  methods and header values.
\<close>

datatype hs_error =
    HInvalidParameter string
  | Settings string
  | Init string
  | Warp string
  | SettingsToml string

datatype socket_addr = SockV4 u8 u8 u8 u8 u16 | SockV6 "u16 list" u16

datatype log_level = Disabled | Error | Warn | Info | Debug | Trace

record log_cfg =
  log_level :: "log_level option"

record tls_cfg =
  cert_file :: "string option"
  priv_key_file :: "string option"

record cors_cfg =
  allowed_origins :: "string list option"
  allowed_headers :: "string list option"
  allowed_methods :: "string list option"
  exposed_headers :: "string list option"
  max_age_secs :: "u64 option"

record service_settings =
  address :: "socket_addr option"
  tls :: tls_cfg
  cors :: cors_cfg
  log :: log_cfg
  timeout_ms :: "u64 option"
  cache_control :: "string option"
  readonly_mode :: "bool option"
  max_content_len :: "string option"
  extra :: "(string \<times> json) list"

record settings_env =
  env_read_to_string :: "string \<Rightarrow> string + string"
  env_settings_from_json :: "string \<Rightarrow> string + service_settings"
  env_settings_from_toml :: "string \<Rightarrow> string + service_settings"
  env_b64_decode :: "string \<Rightarrow> string + bytes"
  env_from_utf8_lossy :: "bytes \<Rightarrow> string"
  env_socket_addr :: "string \<Rightarrow> socket_addr option"
  env_show_addr :: "socket_addr \<Rightarrow> string"
  env_is_file :: "string \<Rightarrow> bool"
  env_valid_method :: "string \<Rightarrow> bool"
  env_valid_header_value :: "string \<Rightarrow> bool"

section \<open>Case-insensitive keys\<close>

definition make_case_insensitive :: "(string \<times> 'v) list \<Rightarrow> (string \<times> 'v) list option" where
  "make_case_insensitive inp =
     (let out = fold (\<lambda>(k, v) m. AList.update (to_ascii_lowercase k) v m) inp []
      in if length out \<noteq> length inp then None else Some out)"

section \<open>Defaults\<close>

definition DEFAULT_ADDR :: socket_addr where
  "DEFAULT_ADDR = SockV4 127 0 0 1 8000"

definition CORS_ALLOWED_ORIGINS :: "string list" where
  "CORS_ALLOWED_ORIGINS = []"

definition CORS_ALLOWED_METHODS :: "string list" where
  "CORS_ALLOWED_METHODS = [''GET'', ''POST'', ''PUT'', ''DELETE'', ''HEAD'', ''OPTIONS'']"

definition CORS_ALLOWED_HEADERS :: "string list" where
  "CORS_ALLOWED_HEADERS = [''accept'', ''accept-language'', ''content-type'', ''content-language'']"

definition CORS_EXPOSED_HEADERS :: "string list" where
  "CORS_EXPOSED_HEADERS = []"

definition CORS_DEFAULT_MAX_AGE_SECS :: u64 where
  "CORS_DEFAULT_MAX_AGE_SECS = 300"

definition DEFAULT_MAX_CONTENT_LEN :: u64 where
  "DEFAULT_MAX_CONTENT_LEN = 100 * 1024 * 1024"

definition CONTENT_LEN_LIMIT :: u64 where
  "CONTENT_LEN_LIMIT = 1024 * 1024 * 1024"

text \<open>The \<open>Default\<close> implementations of the list types of \<open>Cors\<close>; each element is the given text.\<close>

definition from_defaults :: "string list \<Rightarrow> string list" where
  "from_defaults d = map (\<lambda>s. s) d"

definition default_allowed_origins :: "string list" where
  "default_allowed_origins = map (\<lambda>s. s) CORS_ALLOWED_ORIGINS"

definition default_allowed_headers :: "string list" where
  "default_allowed_headers = from_defaults CORS_ALLOWED_HEADERS"

definition default_allowed_methods :: "string list" where
  "default_allowed_methods = from_defaults CORS_ALLOWED_METHODS"

definition default_exposed_headers :: "string list" where
  "default_exposed_headers = map (\<lambda>s. s) CORS_EXPOSED_HEADERS"

definition default_cors :: cors_cfg where
  "default_cors = \<lparr>allowed_origins = Some default_allowed_origins, allowed_headers = Some default_allowed_headers,
     allowed_methods = Some default_allowed_methods, exposed_headers = Some default_exposed_headers,
     max_age_secs = Some CORS_DEFAULT_MAX_AGE_SECS\<rparr>"

definition default_settings :: service_settings where
  "default_settings = \<lparr>address = Some DEFAULT_ADDR,
     tls = \<lparr>cert_file = None, priv_key_file = None\<rparr>, cors = default_cors,
     log = \<lparr>log_level = None\<rparr>, timeout_ms = None, cache_control = None,
     readonly_mode = Some False, max_content_len = Some (show_nat (unat DEFAULT_MAX_CONTENT_LEN)),
     extra = []\<rparr>"

section \<open>Merging\<close>

text \<open>The \<open>merge!\<close> macro: a field set in \<open>other\<close> replaces the field of \<open>self\<close>.\<close>

definition tls_merge :: "tls_cfg \<Rightarrow> tls_cfg \<Rightarrow> tls_cfg" where
  "tls_merge self other =
     \<lparr>cert_file = or_else (cert_file other) (cert_file self),
      priv_key_file = or_else (priv_key_file other) (priv_key_file self)\<rparr>"

definition tls_is_set :: "tls_cfg \<Rightarrow> bool" where
  "tls_is_set t \<longleftrightarrow> cert_file t \<noteq> None \<and> priv_key_file t \<noteq> None"

definition cors_merge :: "cors_cfg \<Rightarrow> cors_cfg \<Rightarrow> cors_cfg" where
  "cors_merge self other =
     \<lparr>allowed_origins = or_else (allowed_origins other) (allowed_origins self),
      allowed_headers = or_else (allowed_headers other) (allowed_headers self),
      allowed_methods = or_else (allowed_methods other) (allowed_methods self),
      exposed_headers = or_else (exposed_headers other) (exposed_headers self),
      max_age_secs = or_else (max_age_secs other) (max_age_secs self)\<rparr>"

definition log_merge :: "log_cfg \<Rightarrow> log_cfg \<Rightarrow> log_cfg" where
  "log_merge self other = \<lparr>log_level = or_else (log_level other) (log_level self)\<rparr>"

definition settings_merge :: "service_settings \<Rightarrow> service_settings \<Rightarrow> service_settings" where
  "settings_merge self other = self
     \<lparr>address := or_else (address other) (address self),
      cache_control := or_else (cache_control other) (cache_control self),
      readonly_mode := or_else (readonly_mode other) (readonly_mode self),
      tls := tls_merge (tls self) (tls other),
      cors := cors_merge (cors self) (cors other),
      log := log_merge (log self) (log other)\<rparr>"

section \<open>Loading\<close>

definition from_json :: "settings_env \<Rightarrow> string \<Rightarrow> (hs_error, service_settings) rres" where
  "from_json env data = map_err (\<lambda>e. Settings (''invalid json: '' @ e)) (env_settings_from_json env data)"

definition from_toml :: "settings_env \<Rightarrow> string \<Rightarrow> (hs_error, service_settings) rres" where
  "from_toml env data = map_err SettingsToml (env_settings_from_toml env data)"

definition from_file :: "settings_env \<Rightarrow> string \<Rightarrow> (hs_error, service_settings) rres" where
  "from_file env fpath =
     rbind (map_err (\<lambda>e. Settings (''reading file '' @ fpath @ '': '' @ e)) (env_read_to_string env fpath))
       (\<lambda>data. case extension fpath of
          Some ext \<Rightarrow>
            (if ext = ''json'' then from_json env data
             else if ext = ''toml'' then from_toml env data
             else Err (Settings (''unrecognized extension '' @ ext)))
        | None \<Rightarrow> Err (Settings (''unrecognized file type '' @ fpath)))"

definition tls_file_error :: "settings_env \<Rightarrow> string \<times> string \<Rightarrow> string list" where
  "tls_file_error env f =
     (if env_is_file env (snd f) then []
      else [''missing tls.'' @ fst f @ '' '' @ quoted (snd f) @
            (if \<not> is_absolute (snd f) then '' : perhaps you should make the path absolute'' else [])])"

definition tls_errors :: "settings_env \<Rightarrow> tls_cfg \<Rightarrow> string list" where
  "tls_errors env t =
     (case (cert_file t, priv_key_file t) of
        (None, None) \<Rightarrow> []
      | (Some cert, Some key) \<Rightarrow>
          concat (map (tls_file_error env) [(''cert_file'', cert), (''priv_key_file'', key)])
      | _ \<Rightarrow> [''for tls, both '' @ quoted ''cert_file'' @ '' and '' @ quoted ''priv_key_file'' @ '' must be set''])"

definition validate_errors :: "settings_env \<Rightarrow> service_settings \<Rightarrow> string list" where
  "validate_errors env s =
     (if address s = None then [''missing bind address''] else []) @
     tls_errors env (tls s) @
     (case allowed_methods (cors s) of
        None \<Rightarrow> []
      | Some ms \<Rightarrow> concat (map (\<lambda>m. if env_valid_method env m then []
                                     else [''invalid CORS method: '' @ quoted m]) ms)) @
     (case cache_control s of
        None \<Rightarrow> []
      | Some cc \<Rightarrow> (if env_valid_header_value env cc then []
                    else [''Invalid Cache Control header : '' @ quoted cc]))"

definition validate :: "settings_env \<Rightarrow> service_settings \<Rightarrow> (hs_error, unit) rres" where
  "validate env s =
     (let errors = validate_errors env s
      in if errors \<noteq> []
         then Err (Settings (nl @ ''Invalid httpserver settings: '' @ nl @ join_with nl errors @ nl))
         else Ok ())"

text \<open>One step of \<open>load_settings\<close> per key, in the code's order.\<close>

definition load_config_file :: "settings_env \<Rightarrow> link_values \<Rightarrow> service_settings \<Rightarrow> (hs_error, service_settings) rres" where
  "load_config_file env values s =
     (case hm_get values ''config_file'' of
        None \<Rightarrow> Ok s
      | Some fpath \<Rightarrow> rbind (from_file env fpath) (\<lambda>o'. Ok (settings_merge s o')))"

definition load_config_b64 :: "settings_env \<Rightarrow> link_values \<Rightarrow> service_settings \<Rightarrow> (hs_error, service_settings) rres" where
  "load_config_b64 env values s =
     (case hm_get values ''config_b64'' of
        None \<Rightarrow> Ok s
      | Some str \<Rightarrow>
          rbind (map_err (\<lambda>e. Settings (''invalid base64 encoding: '' @ e)) (env_b64_decode env str))
            (\<lambda>bytes. rbind (from_json env (env_from_utf8_lossy env bytes))
              (\<lambda>o'. Ok (settings_merge s o'))))"

definition load_config_json :: "settings_env \<Rightarrow> link_values \<Rightarrow> service_settings \<Rightarrow> (hs_error, service_settings) rres" where
  "load_config_json env values s =
     (case hm_get values ''config_json'' of
        None \<Rightarrow> Ok s
      | Some str \<Rightarrow> rbind (from_json env str) (\<lambda>o'. Ok (settings_merge s o')))"

definition load_address :: "settings_env \<Rightarrow> link_values \<Rightarrow> service_settings \<Rightarrow> (hs_error, service_settings) rres" where
  "load_address env values s =
     (case hm_get values ''address'' of
        None \<Rightarrow> Ok s
      | Some addr \<Rightarrow> (case env_socket_addr env addr of
          None \<Rightarrow> Err (HInvalidParameter (''invalid address: '' @ addr))
        | Some a \<Rightarrow> Ok (s\<lparr>address := Some a\<rparr>)))"

definition load_port :: "link_values \<Rightarrow> service_settings \<Rightarrow> (hs_error, service_settings) rres" where
  "load_port values s =
     (case hm_get values ''port'' of
        None \<Rightarrow> Ok s
      | Some addr \<Rightarrow> (case parse_u16 addr of
          None \<Rightarrow> Err (HInvalidParameter (''Invalid port: '' @ addr))
        | Some port \<Rightarrow> Ok (s\<lparr>address := Some (SockV4 127 0 0 1 port)\<rparr>)))"

definition load_flags :: "link_values \<Rightarrow> service_settings \<Rightarrow> service_settings" where
  "load_flags values s =
     (let s = (case hm_get values ''cache_control'' of
                 None \<Rightarrow> s | Some cc \<Rightarrow> s\<lparr>cache_control := Some cc\<rparr>)
      in case hm_get values ''readonly_mode'' of
           None \<Rightarrow> s | Some r \<Rightarrow> s\<lparr>readonly_mode := Some (r = ''true'')\<rparr>)"

definition key_collision :: string where
  "key_collision = ''Key collision: httpserver settings (from linkdef.values) has one or more keys that are not unique based on case-insensitivity''"

definition load_settings :: "settings_env \<Rightarrow> link_values \<Rightarrow> (hs_error, service_settings) rres" where
  "load_settings env values0 =
     rbind (ok_or (HInvalidParameter key_collision) (make_case_insensitive values0)) (\<lambda>values.
     rbind (load_config_file env values default_settings) (\<lambda>s.
     rbind (load_config_b64 env values s) (\<lambda>s.
     rbind (load_config_json env values s) (\<lambda>s.
     rbind (load_address env values s) (\<lambda>s.
     rbind (load_port values s) (\<lambda>s.
     let s = load_flags values s in
     rbind (validate env s) (\<lambda>_. Ok s)))))))"

section \<open>CORS origins and log levels\<close>

record uri =
  scheme_str :: "string option"
  path_and_query :: "string option"

definition trim_end_slashes :: "string \<Rightarrow> string" where
  "trim_end_slashes s = rev (dropWhile (\<lambda>c. c = CHR ''/'') (rev s))"

definition cors_origin_from_str :: "(string \<Rightarrow> string + uri) \<Rightarrow> string \<Rightarrow> (string, string) rres" where
  "cors_origin_from_str uri_from_str origin =
     rbind (map_err (\<lambda>e. ''Invalid uri: '' @ origin @ ''.'' @ nl @ e) (uri_from_str origin)) (\<lambda>uri.
     rbind (case scheme_str uri of
              Some s \<Rightarrow>
                (if s \<noteq> ''http'' \<and> s \<noteq> ''https''
                 then Err (''Cors origin invalid schema '' @ s @ '', only [http] and [https] are supported: '')
                 else Ok ())
            | None \<Rightarrow> Err ''Cors origin missing schema, only [http] or [https] are supported'')
       (\<lambda>_. case path_and_query uri of
              Some p \<Rightarrow> (if p \<noteq> ''/'' then Err (''Invalid value '' @ p @ '' in cors schema.'')
                         else Ok (trim_end_slashes origin))
            | None \<Rightarrow> Ok (trim_end_slashes origin)))"

definition log_level_from_str :: "string \<Rightarrow> (string, log_level) rres" where
  "log_level_from_str s =
     (let l = to_ascii_lowercase s in
      if l = ''disabled'' then Ok Disabled
      else if l = ''error'' then Ok Error
      else if l = ''warn'' then Ok Warn
      else if l = ''info'' then Ok Info
      else if l = ''debug'' then Ok Debug
      else if l = ''trace'' then Ok Trace
      else Err (s @ '' is not a valid log level''))"

datatype http_method = Get | Post | Put | Delete | Head | Options | Connect | Patch | TraceMethod

definition http_method_from_str :: "string \<Rightarrow> (string, http_method) rres" where
  "http_method_from_str s =
     (let u = to_ascii_uppercase s in
      if u = ''GET'' then Ok Get
      else if u = ''PUT'' then Ok Put
      else if u = ''POST'' then Ok Post
      else if u = ''DELETE'' then Ok Delete
      else if u = ''HEAD'' then Ok Head
      else if u = ''OPTIONS'' then Ok Options
      else if u = ''CONNECT'' then Ok Connect
      else if u = ''PATCH'' then Ok Patch
      else if u = ''TRACE'' then Ok TraceMethod
      else Err (s @ '' is not a valid http method''))"

primrec log_level_display :: "log_level \<Rightarrow> string" where
  "log_level_display Disabled = ''disabled''"
| "log_level_display Error = ''error''"
| "log_level_display Warn = ''warn''"
| "log_level_display Info = ''info''"
| "log_level_display Debug = ''debug''"
| "log_level_display Trace = ''trace''"

section \<open>Lemmas\<close>

lemma AList_update_new: "k \<notin> fst ` set m \<Longrightarrow> AList.update k v m = m @ [(k, v)]"
  by (induction m) auto

lemma length_AList_update:
  "length (AList.update k v m) = (if k \<in> fst ` set m then length m else Suc (length m))"
  by (induction m) auto

definition lower_fold :: "(string \<times> 'v) list \<Rightarrow> (string \<times> 'v) list \<Rightarrow> (string \<times> 'v) list" where
  "lower_fold inp acc = fold (\<lambda>(k, v) m. AList.update (to_ascii_lowercase k) v m) inp acc"

lemma lower_fold_simps [simp]:
  "lower_fold [] acc = acc"
  "lower_fold ((k, v) # inp) acc = lower_fold inp (AList.update (to_ascii_lowercase k) v acc)"
  by (simp_all add: lower_fold_def)

abbreviation lower_keys :: "(string \<times> 'v) list \<Rightarrow> string list" where
  "lower_keys inp \<equiv> map (\<lambda>kv. to_ascii_lowercase (fst kv)) inp"

lemma lower_fold_distinct:
  "distinct (map fst acc @ lower_keys inp) \<Longrightarrow>
     lower_fold inp acc = acc @ map (apfst to_ascii_lowercase) inp"
proof (induction inp arbitrary: acc)
  case (Cons kv inp)
  obtain k v where kv: "kv = (k, v)" by (cases kv)
  with Cons.prems have "to_ascii_lowercase k \<notin> fst ` set acc"
    by auto
  with Cons kv show ?case
    by (auto simp: AList_update_new)
qed simp

lemma length_lower_fold_le: "length (lower_fold inp acc) \<le> length acc + length inp"
proof (induction inp arbitrary: acc)
  case (Cons kv inp)
  obtain k v where kv: "kv = (k, v)" by (cases kv)
  show ?case
    using Cons [of "AList.update (to_ascii_lowercase k) v acc"] kv
    by (simp add: length_AList_update split: if_splits)
qed simp

lemma length_lower_fold_eq:
  "length (lower_fold inp acc) = length acc + length inp \<Longrightarrow> distinct (map fst acc) \<Longrightarrow>
     distinct (map fst acc @ lower_keys inp)"
proof (induction inp arbitrary: acc)
  case (Cons kv inp)
  obtain k v where kv: "kv = (k, v)" by (cases kv)
  let ?acc = "AList.update (to_ascii_lowercase k) v acc"
  have new: "to_ascii_lowercase k \<notin> fst ` set acc"
  proof
    assume "to_ascii_lowercase k \<in> fst ` set acc"
    then have "length ?acc = length acc" by (simp add: length_AList_update)
    with length_lower_fold_le [of inp ?acc] Cons.prems(1) kv show False by simp
  qed
  then have "distinct (map fst ?acc @ lower_keys inp)"
    using Cons.prems kv by (intro Cons.IH) (auto simp: AList_update_new)
  with new kv show ?case by (auto simp: AList_update_new)
qed simp

lemma make_case_insensitive_eq:
  "make_case_insensitive inp =
     (if distinct (lower_keys inp) then Some (map (apfst to_ascii_lowercase) inp) else None)"
  using lower_fold_distinct [of "[]" inp] length_lower_fold_eq [of inp "[]"]
  by (auto simp: make_case_insensitive_def lower_fold_def [symmetric] Let_def)

lemma settings_merge_simps [simp]:
  "address (settings_merge s t) = or_else (address t) (address s)"
  "cache_control (settings_merge s t) = or_else (cache_control t) (cache_control s)"
  "readonly_mode (settings_merge s t) = or_else (readonly_mode t) (readonly_mode s)"
  "timeout_ms (settings_merge s t) = timeout_ms s"
  "max_content_len (settings_merge s t) = max_content_len s"
  "extra (settings_merge s t) = extra s"
  by (simp_all add: settings_merge_def)

lemma default_settings_simps [simp]:
  "address default_settings = Some DEFAULT_ADDR"
  "timeout_ms default_settings = None"
  "cache_control default_settings = None"
  "readonly_mode default_settings = Some False"
  "max_content_len default_settings = Some (show_nat (unat DEFAULT_MAX_CONTENT_LEN))"
  "extra default_settings = []"
  by (simp_all add: default_settings_def)

lemma load_flags_simps [simp]:
  "address (load_flags v s) = address s"
  "timeout_ms (load_flags v s) = timeout_ms s"
  "max_content_len (load_flags v s) = max_content_len s"
  "extra (load_flags v s) = extra s"
  "cache_control (load_flags v s) = or_else (hm_get v ''cache_control'') (cache_control s)"
  "readonly_mode (load_flags v s) =
     or_else (map_option (\<lambda>r. r = ''true'') (hm_get v ''readonly_mode'')) (readonly_mode s)"
  by (auto simp: load_flags_def Let_def split: option.splits)

text \<open>The settings a link's configuration documents give, in the order they are merged.\<close>

definition config_layers :: "settings_env \<Rightarrow> link_values \<Rightarrow> service_settings option list" where
  "config_layers env v =
     (let ok = (\<lambda>r. case r of Ok s \<Rightarrow> Some s | _ \<Rightarrow> None) in
      [Option.bind (hm_get v ''config_json'') (\<lambda>j. ok (from_json env j)),
       Option.bind (hm_get v ''config_b64'') (\<lambda>b. ok (rbind
         (map_err (\<lambda>e. Settings (''invalid base64 encoding: '' @ e)) (env_b64_decode env b))
         (\<lambda>bytes. from_json env (env_from_utf8_lossy env bytes)))),
       Option.bind (hm_get v ''config_file'') (\<lambda>f. ok (from_file env f))])"

definition first_set :: "(service_settings \<Rightarrow> 'a option) \<Rightarrow> service_settings option list \<Rightarrow> 'a option" where
  "first_set field layers = foldr (\<lambda>l. or_else (Option.bind l field)) layers None"

lemma load_documents:
  assumes "load_config_file env v s0 = Ok s1" "load_config_b64 env v s1 = Ok s2"
    and "load_config_json env v s2 = Ok s3"
  shows "address s3 = or_else (first_set address (config_layers env v)) (address s0)"
    and "cache_control s3 = or_else (first_set cache_control (config_layers env v)) (cache_control s0)"
    and "readonly_mode s3 = or_else (first_set readonly_mode (config_layers env v)) (readonly_mode s0)"
    and "timeout_ms s3 = timeout_ms s0" and "max_content_len s3 = max_content_len s0"
    and "extra s3 = extra s0"
  using assms
  by (auto simp: load_config_file_def load_config_b64_def load_config_json_def first_set_def
      config_layers_def rbind_Ok_iff or_else_assoc split: option.splits)

lemma load_settings_steps:
  assumes "load_settings env vs = Ok s"
  obtains v s1 s2 s3 s4 s5 where "make_case_insensitive vs = Some v"
    and "load_config_file env v default_settings = Ok s1" "load_config_b64 env v s1 = Ok s2"
    and "load_config_json env v s2 = Ok s3" "load_address env v s3 = Ok s4"
    and "load_port v s4 = Ok s5" "s = load_flags v s5" "validate env s = Ok ()"
  using assms by (auto simp: load_settings_def rbind_Ok_iff Let_def)

lemma load_address_simps:
  assumes "load_address env v s = Ok s'"
  shows "address s' = or_else (Option.bind (hm_get v ''address'') (env_socket_addr env)) (address s)"
    and "timeout_ms s' = timeout_ms s" and "max_content_len s' = max_content_len s"
    and "extra s' = extra s" and "cache_control s' = cache_control s"
    and "readonly_mode s' = readonly_mode s"
  using assms by (auto simp: load_address_def split: option.splits)

lemma load_port_simps:
  assumes "load_port v s = Ok s'"
  shows "address s' = or_else (map_option (SockV4 127 0 0 1)
           (Option.bind (hm_get v ''port'') parse_u16)) (address s)"
    and "timeout_ms s' = timeout_ms s" and "max_content_len s' = max_content_len s"
    and "extra s' = extra s" and "cache_control s' = cache_control s"
    and "readonly_mode s' = readonly_mode s"
  using assms by (auto simp: load_port_def split: option.splits)

lemma validate_Ok_iff: "validate env s = Ok () \<longleftrightarrow> validate_errors env s = []"
  by (simp add: validate_def Let_def)

section \<open>Properties\<close>

text \<open>
  A concrete environment for the examples: one JSON document, no files, addresses that do not
  parse, and every method and header value accepted.
\<close>

definition sample_doc :: service_settings where
  "sample_doc = default_settings\<lparr>address := None, timeout_ms := Some 250, cache_control := Some ''no-store'',
     readonly_mode := Some True, max_content_len := Some ''20M''\<rparr>"

definition sample_env :: settings_env where
  "sample_env = \<lparr>env_read_to_string = (\<lambda>_. Inl ''not found''),
     env_settings_from_json = (\<lambda>d. if d = ''doc'' then Inr sample_doc else Inl ''syntax''),
     env_settings_from_toml = (\<lambda>_. Inl ''syntax''), env_b64_decode = (\<lambda>_. Inl ''alphabet''),
     env_from_utf8_lossy = map (\<lambda>b. char_of (unat b)), env_socket_addr = (\<lambda>_. None),
     env_show_addr = (\<lambda>_. ''127.0.0.1:8080''),
     env_is_file = (\<lambda>_. False), env_valid_method = (\<lambda>_. True), env_valid_header_value = (\<lambda>_. True)\<rparr>"

definition sample_values :: link_values where
  "sample_values = [(''CONFIG_JSON'', ''doc''), (''Port'', ''8080'')]"

definition sample_settings :: service_settings where
  "sample_settings = (settings_merge default_settings sample_doc)\<lparr>address := Some (SockV4 127 0 0 1 8080)\<rparr>"

lemma sample_port: "parse_u16 ''8080'' = Some 8080"
  by (simp add: parse_u16_def parse_uint_def digits_value_def digit_val_def is_digit_def code_in_def)

lemma sample_keys:
  "make_case_insensitive sample_values = Some [(''config_json'', ''doc''), (''port'', ''8080'')]"
  by (simp add: make_case_insensitive_eq sample_values_def to_ascii_lowercase_def code_in_def char_of_def bit_Suc_0_iff)

lemma sample_valid: "validate sample_env (load_flags [(''config_json'', ''doc''), (''port'', ''8080'')] sample_settings) = Ok ()"
  by (simp add: validate_def validate_errors_def sample_env_def sample_settings_def load_flags_def
      hm_get_def tls_errors_def settings_merge_def tls_merge_def sample_doc_def default_settings_def
      cors_merge_def default_cors_def)

lemma sample_load: "load_settings sample_env sample_values = Ok sample_settings"
proof -
  let ?v = "[(''config_json'', ''doc''), (''port'', ''8080'')]"
  have flags: "load_flags ?v sample_settings = sample_settings"
    by (simp add: load_flags_def hm_get_def)
  have "load_config_file sample_env ?v default_settings = Ok default_settings"
    and "load_config_b64 sample_env ?v default_settings = Ok default_settings"
    by (simp_all add: load_config_file_def load_config_b64_def hm_get_def)
  moreover have "load_config_json sample_env ?v default_settings = Ok (settings_merge default_settings sample_doc)"
    by (simp add: load_config_json_def hm_get_def from_json_def sample_env_def)
  moreover have "load_address sample_env ?v (settings_merge default_settings sample_doc) =
      Ok (settings_merge default_settings sample_doc)"
    by (simp add: load_address_def hm_get_def)
  moreover have "load_port ?v (settings_merge default_settings sample_doc) = Ok sample_settings"
    by (simp add: load_port_def hm_get_def sample_port sample_settings_def)
  ultimately show ?thesis
    using sample_valid by (simp add: load_settings_def sample_keys flags)
qed

text \<open>The case-insensitive view of a link's values exists exactly when no two keys agree up
  to ASCII case, and then it is the same entries with lower-case keys, so no value is lost or
  shadowed.\<close>

theorem make_case_insensitive_correct:
  "make_case_insensitive inp =
     (if distinct (map (\<lambda>kv. to_ascii_lowercase (fst kv)) inp)
      then Some (map (apfst to_ascii_lowercase) inp) else None)"
  by (rule make_case_insensitive_eq)

lemma load_settings_validated_facts:
  assumes "load_settings env vs = Ok s"
  shows "address s \<noteq> None"
    and "cert_file (tls s) = None \<longleftrightarrow> priv_key_file (tls s) = None"
    and "cert_file (tls s) = Some c \<Longrightarrow> priv_key_file (tls s) = Some k \<Longrightarrow> env_is_file env c \<and> env_is_file env k"
    and "allowed_methods (cors s) = Some ms \<Longrightarrow> list_all (env_valid_method env) ms"
    and "cache_control s = Some cc \<Longrightarrow> env_valid_header_value env cc"
proof -
  from assms have v: "validate_errors env s = []"
    by (auto elim!: load_settings_steps simp: validate_Ok_iff)
  then show "address s \<noteq> None"
    by (auto simp: validate_errors_def split: if_splits)
  from v have t: "tls_errors env (tls s) = []"
    by (simp add: validate_errors_def)
  then show "cert_file (tls s) = None \<longleftrightarrow> priv_key_file (tls s) = None"
    by (auto simp: tls_errors_def split: option.splits)
  show "cert_file (tls s) = Some c \<Longrightarrow> priv_key_file (tls s) = Some k \<Longrightarrow> env_is_file env c \<and> env_is_file env k"
    using t by (auto simp: tls_errors_def tls_file_error_def split: if_splits)
  show "allowed_methods (cors s) = Some ms \<Longrightarrow> list_all (env_valid_method env) ms"
    using v by (auto simp: validate_errors_def list_all_iff split: if_splits)
  show "cache_control s = Some cc \<Longrightarrow> env_valid_header_value env cc"
    using v by (auto simp: validate_errors_def split: if_splits)
qed

text \<open>Settings that load are valid: there is a bind address; the TLS files are both set and
  exist, or neither is set; every CORS method and the cache-control value are acceptable to the
  HTTP library.\<close>

theorem load_settings_validated:
  assumes "load_settings env vs = Ok s"
  shows "(address s \<noteq> None) \<and>
     (cert_file (tls s) = None \<longleftrightarrow> priv_key_file (tls s) = None) \<and>
     (\<forall>c k. cert_file (tls s) = Some c \<longrightarrow> priv_key_file (tls s) = Some k \<longrightarrow> env_is_file env c \<and> env_is_file env k) \<and>
     (\<forall>ms. allowed_methods (cors s) = Some ms \<longrightarrow> list_all (env_valid_method env) ms) \<and>
     (\<forall>cc. cache_control s = Some cc \<longrightarrow> env_valid_header_value env cc)"
  using load_settings_validated_facts [OF assms] by blast

theorem load_settings_validated_witness:
  "load_settings sample_env sample_values = Ok sample_settings \<and> address sample_settings \<noteq> None \<and>
   env_valid_header_value sample_env ''no-store''"
proof -
  have cc: "cache_control sample_settings = Some ''no-store''"
    by (simp add: sample_settings_def sample_doc_def)
  show ?thesis
    using sample_load load_settings_validated [OF sample_load] cc by blast
qed

lemma load_settings_precedence_facts:
  assumes "load_settings env vs = Ok s" and "make_case_insensitive vs = Some v"
  shows "address s =
      or_else (map_option (SockV4 127 0 0 1) (Option.bind (hm_get v ''port'') parse_u16))
      (or_else (Option.bind (hm_get v ''address'') (env_socket_addr env))
      (or_else (first_set address (config_layers env v)) (Some (SockV4 127 0 0 1 8000))))"
    and "cache_control s =
      or_else (hm_get v ''cache_control'') (first_set cache_control (config_layers env v))"
    and "readonly_mode s =
      or_else (map_option (\<lambda>r. r = ''true'') (hm_get v ''readonly_mode''))
      (or_else (first_set readonly_mode (config_layers env v)) (Some False))"
proof -
  obtain s1 s2 s3 s4 s5 where "load_config_file env v default_settings = Ok s1"
    "load_config_b64 env v s1 = Ok s2" "load_config_json env v s2 = Ok s3"
    and 4: "load_address env v s3 = Ok s4" and 5: "load_port v s4 = Ok s5" "s = load_flags v s5"
    using assms by (auto elim: load_settings_steps)
  note docs = load_documents [OF this(1-3)]
  show "address s =
      or_else (map_option (SockV4 127 0 0 1) (Option.bind (hm_get v ''port'') parse_u16))
      (or_else (Option.bind (hm_get v ''address'') (env_socket_addr env))
      (or_else (first_set address (config_layers env v)) (Some (SockV4 127 0 0 1 8000))))"
    by (simp add: 5(2) load_port_simps(1) [OF 5(1)] load_address_simps(1) [OF 4] docs(1) DEFAULT_ADDR_def)
  show "cache_control s =
      or_else (hm_get v ''cache_control'') (first_set cache_control (config_layers env v))"
    by (simp add: 5(2) load_port_simps(5) [OF 5(1)] load_address_simps(5) [OF 4] docs(2))
  show "readonly_mode s =
      or_else (map_option (\<lambda>r. r = ''true'') (hm_get v ''readonly_mode''))
      (or_else (first_set readonly_mode (config_layers env v)) (Some False))"
    by (simp add: 5(2) load_port_simps(6) [OF 5(1)] load_address_simps(6) [OF 4] docs(3))
qed



text \<open>C0: the RPC timeout, the content-length limit and unknown keys of a configuration document
  never reach the loaded settings: \<open>merge\<close> does not copy them, so every loaded configuration has
  no timeout and the default limit, whatever its documents say.\<close>
theorem load_settings_ignores_timeout_and_limit:
  assumes "load_settings env vs = Ok s"
  shows "timeout_ms s = None \<and> max_content_len s = Some (show_nat (100 * 1024 * 1024)) \<and> extra s = []"
proof -
  have "unat DEFAULT_MAX_CONTENT_LEN = 100 * 1024 * 1024"
    by (simp add: DEFAULT_MAX_CONTENT_LEN_def)
  moreover obtain v s1 s2 s3 s4 s5 where "load_config_file env v default_settings = Ok s1"
    "load_config_b64 env v s1 = Ok s2" "load_config_json env v s2 = Ok s3"
    and 4: "load_address env v s3 = Ok s4" and 5: "load_port v s4 = Ok s5" "s = load_flags v s5"
    using assms by (auto elim: load_settings_steps)
  note docs = load_documents [OF this(1-3)]
  ultimately show ?thesis
    by (simp add: 5(2) load_port_simps(2-4) [OF 5(1)] load_address_simps(2-4) [OF 4] docs(4-6))
qed

theorem load_settings_ignores_timeout_and_limit_witness:
  "env_settings_from_json sample_env ''doc'' = Inr sample_doc \<and> timeout_ms sample_doc = Some 250 \<and>
   timeout_ms sample_settings = None"
  using load_settings_ignores_timeout_and_limit [OF sample_load]
  by (simp add: sample_env_def sample_doc_def)

text \<open>An accepted CORS origin has an http or https scheme and no path beyond a slash, and is
  stored without its trailing slashes.\<close>

theorem cors_origin_accepted_iff:
  "cors_origin_from_str uri_from_str origin = Ok out \<longleftrightarrow>
     (\<exists>uri. uri_from_str origin = Inr uri \<and>
        (scheme_str uri = Some ''http'' \<or> scheme_str uri = Some ''https'') \<and>
        (path_and_query uri = None \<or> path_and_query uri = Some ''/'') \<and>
        out = trim_end_slashes origin)"
proof (cases "uri_from_str origin")
  case (Inr uri)
  then show ?thesis
    by (cases "scheme_str uri"; cases "path_and_query uri")
      (simp_all add: cors_origin_from_str_def, blast+)
qed (simp add: cors_origin_from_str_def)

text \<open>A log level read back from its display is the same level, in any ASCII case.\<close>

theorem log_level_roundtrip:
  "log_level_from_str (log_level_display l) = Ok l \<and>
   log_level_from_str (to_ascii_uppercase (log_level_display l)) = Ok l"
  by (cases l) (simp_all add: log_level_from_str_def to_ascii_lowercase_def to_ascii_uppercase_def code_in_def char_of_def bit_Suc_0_iff)

end
