(* ===== verification/Http_Headers.thy ===== *)
theory Http_Headers
  imports Prelude "HOL-Library.AList"
begin

text \<open>
  Header maps of the HTTP crate, which the HTTP server and the HTTP client provider both use, with
  what reading and appending headers does to the values of a name.
\<close>

text \<open>
  A header map of the HTTP crate in iteration order: each name once, with its values in the order
  they were appended. \<open>header_env\<close> holds the crate's conversions between text and headers.
\<close>

type_synonym header_map = "(string \<times> bytes list) list"

record header_env =
  hv_to_str :: "bytes \<Rightarrow> string option"
  hv_try_from :: "string \<Rightarrow> bytes option"
  hn_from_bytes :: "string \<Rightarrow> string option"

definition hdr_get_all :: "header_map \<Rightarrow> string \<Rightarrow> bytes list" where
  "hdr_get_all m k = unwrap_or (map_of m k) []"

definition hdr_remove :: "string \<Rightarrow> header_map \<Rightarrow> header_map" where
  "hdr_remove k m = filter (\<lambda>e. fst e \<noteq> k) m"

definition hdr_append :: "string \<Rightarrow> bytes \<Rightarrow> header_map \<Rightarrow> header_map" where
  "hdr_append k v m = AList.update k (hdr_get_all m k @ [v]) m"

definition append_values :: "header_env \<Rightarrow> string \<Rightarrow> string list \<Rightarrow> header_map \<Rightarrow> header_map" where
  "append_values env name vals map0 =
     fold (\<lambda>val m. case hv_try_from env val of
              Some value \<Rightarrow> hdr_append name value m
            | None \<Rightarrow> m) vals map0"

lemma collect_fold:
  "fold (\<lambda>k hmap. let vals = f k in if vals \<noteq> [] then hmap(k \<mapsto> vals) else hmap) ks m0 k =
     (if k \<in> set ks \<and> f k \<noteq> [] then Some (f k) else m0 k)"
  by (induction ks arbitrary: m0) (auto simp: Let_def)

text \<open>The loop with which both providers turn a header map into text gives, per name, its readable values.\<close>

lemma collect_readable:
  "fold (\<lambda>k hmap. let vals = List.map_filter (hv_to_str env) (hdr_get_all headers k)
      in if vals \<noteq> [] then hmap(k \<mapsto> vals) else hmap) (map fst headers) Map.empty k =
     (let vs = List.map_filter (hv_to_str env) (hdr_get_all headers k)
      in if vs = [] then None else Some vs)"
proof -
  have "k \<notin> set (map fst headers) \<Longrightarrow> hdr_get_all headers k = []"
    using map_of_eq_None_iff [of headers k] by (simp add: hdr_get_all_def)
  then show ?thesis
    by (simp only: collect_fold) (auto simp: Let_def map_filter_simps)
qed

lemma hdr_get_all_simps [simp]:
  "hdr_get_all [] n = []"
  "hdr_get_all ((k, vs) # m) n = (if n = k then vs else hdr_get_all m n)"
  by (auto simp: hdr_get_all_def)

lemma hdr_get_all_remove: "hdr_get_all (hdr_remove k m) n = (if n = k then [] else hdr_get_all m n)"
  by (induction m) (auto simp: hdr_get_all_def hdr_remove_def)

lemma hdr_get_all_append:
  "hdr_get_all (hdr_append k v m) n = (if n = k then hdr_get_all m n @ [v] else hdr_get_all m n)"
  by (simp add: hdr_get_all_def hdr_append_def update_conv)

lemma hdr_get_all_append_values:
  "hdr_get_all (append_values env k vals m) n =
     (if n = k then hdr_get_all m n @ List.map_filter (hv_try_from env) vals else hdr_get_all m n)"
  by (induction vals arbitrary: m)
    (auto simp: append_values_def hdr_get_all_append map_filter_simps split: option.splits)

end
