(* ===== verification/Link_Registry.thy ===== *)
theory Link_Registry
  imports Prelude
begin

text \<open>
  The contract shared by the providers: a table from actor ids to per-actor resources (a client,
  a connection pool, a server), changed only by the control messages put-link, delete-link and
  shutdown, and read at the start of every call. The contract is stated as locales that the
  component theories interpret on their own handlers; what follows from it (isolation of actors,
  which link is in force after any sequence of control messages, which calls are admitted) is
  proved here once.
\<close>

datatype link_event = PutLink link_definition | DeleteLink string | Shutdown

primrec link_step ::
  "(link_definition \<Rightarrow> 's \<Rightarrow> 's) \<Rightarrow> (string \<Rightarrow> 's \<Rightarrow> 's) \<Rightarrow> ('s \<Rightarrow> 's) \<Rightarrow> link_event \<Rightarrow> 's \<Rightarrow> 's" where
  "link_step put del shut (PutLink ld) s = put ld s"
| "link_step put del shut (DeleteLink a) s = del a s"
| "link_step put del shut Shutdown s = shut s"

definition run_links ::
  "(link_definition \<Rightarrow> 's \<Rightarrow> 's) \<Rightarrow> (string \<Rightarrow> 's \<Rightarrow> 's) \<Rightarrow> ('s \<Rightarrow> 's) \<Rightarrow> link_event list \<Rightarrow> 's \<Rightarrow> 's" where
  "run_links put del shut evs s = fold (link_step put del shut) evs s"

text \<open>The abstract view of one actor: the resource it is linked to, if any.\<close>

primrec abs_link_step ::
  "(link_definition \<Rightarrow> 'c option) \<Rightarrow> string \<Rightarrow> link_event \<Rightarrow> 'c option \<Rightarrow> 'c option" where
  "abs_link_step accept a (PutLink ld) c = (if ld_actor_id ld = a then or_else (accept ld) c else c)"
| "abs_link_step accept a (DeleteLink b) c = (if b = a then None else c)"
| "abs_link_step accept a Shutdown c = None"

primrec concerns :: "string \<Rightarrow> link_event \<Rightarrow> bool" where
  "concerns a (PutLink ld) \<longleftrightarrow> ld_actor_id ld = a"
| "concerns a (DeleteLink b) \<longleftrightarrow> b = a"
| "concerns a Shutdown \<longleftrightarrow> True"

text \<open>The events after which an earlier link of the actor is no longer the one in force.\<close>

primrec replaces :: "(link_definition \<Rightarrow> 'c option) \<Rightarrow> string \<Rightarrow> link_event \<Rightarrow> bool" where
  "replaces accept a (PutLink ld) \<longleftrightarrow> ld_actor_id ld = a \<and> accept ld \<noteq> None"
| "replaces accept a (DeleteLink b) \<longleftrightarrow> b = a"
| "replaces accept a Shutdown \<longleftrightarrow> True"

lemma run_links_simps [simp]:
  "run_links put del shut [] s = s"
  "run_links put del shut (e # es) s = run_links put del shut es (link_step put del shut e s)"
  "run_links put del shut (es @ fs) s = run_links put del shut fs (run_links put del shut es s)"
  by (simp_all add: run_links_def)

lemma abs_link_step_other: "\<not> concerns a e \<Longrightarrow> abs_link_step accept a e c = c"
  by (cases e) auto

lemma abs_link_step_Some:
  "abs_link_step accept a e c0 = Some c \<longleftrightarrow>
     (\<exists>ld. e = PutLink ld \<and> ld_actor_id ld = a \<and> accept ld = Some c) \<or>
     c0 = Some c \<and> \<not> replaces accept a e"
  by (cases e) (auto simp: or_else_def split: option.splits)

lemma fold_abs_filter:
  "fold (abs_link_step accept a) evs c = fold (abs_link_step accept a) (filter (concerns a) evs) c"
  by (induction evs arbitrary: c) (auto simp: abs_link_step_other)

definition in_force ::
  "(link_definition \<Rightarrow> 'c option) \<Rightarrow> string \<Rightarrow> link_event list \<Rightarrow> 'c \<Rightarrow> bool" where
  "in_force accept a evs c \<longleftrightarrow>
     (\<exists>pre ld post. evs = pre @ PutLink ld # post \<and> ld_actor_id ld = a \<and> accept ld = Some c \<and>
        (\<forall>e\<in>set post. \<not> replaces accept a e))"

lemma in_force_snoc:
  "in_force accept a (evs @ [e]) c \<longleftrightarrow>
     (\<exists>ld. e = PutLink ld \<and> ld_actor_id ld = a \<and> accept ld = Some c) \<or>
     in_force accept a evs c \<and> \<not> replaces accept a e" (is "?l \<longleftrightarrow> ?r")
proof
  assume ?l
  then obtain pre ld post where eq: "evs @ [e] = pre @ PutLink ld # post"
    and ok: "ld_actor_id ld = a" "accept ld = Some c" "\<forall>x\<in>set post. \<not> replaces accept a x"
    by (auto simp: in_force_def)
  show ?r
  proof (cases post rule: rev_cases)
    case Nil
    with eq ok show ?thesis by auto
  next
    case (snoc post' e')
    with eq have e: "evs = pre @ PutLink ld # post'" "e' = e" by auto
    have "in_force accept a evs c"
      unfolding in_force_def e using ok snoc by fastforce
    with ok snoc e show ?thesis by auto
  qed
next
  assume ?r
  then show ?l
  proof
    assume "\<exists>ld. e = PutLink ld \<and> ld_actor_id ld = a \<and> accept ld = Some c"
    then show ?l unfolding in_force_def by (metis append.right_neutral append_Cons empty_iff empty_set)
  next
    assume r: "in_force accept a evs c \<and> \<not> replaces accept a e"
    then obtain pre ld post where eq: "evs = pre @ PutLink ld # post"
      and ok: "ld_actor_id ld = a" "accept ld = Some c" "\<forall>x\<in>set post. \<not> replaces accept a x"
      by (auto simp: in_force_def)
    have "evs @ [e] = pre @ PutLink ld # (post @ [e])" using eq by simp
    moreover have "\<forall>x\<in>set (post @ [e]). \<not> replaces accept a x" using ok r by auto
    ultimately show ?l using ok unfolding in_force_def by blast
  qed
qed

lemma fold_abs_in_force:
  "fold (abs_link_step accept a) evs None = Some c \<longleftrightarrow> in_force accept a evs c"
proof (induction evs rule: rev_induct)
  case Nil
  then show ?case by (simp add: in_force_def)
next
  case (snoc e evs)
  then show ?case by (auto simp: in_force_snoc abs_link_step_Some)
qed

section \<open>The contract\<close>

text \<open>
  A table that put-link fills. \<open>accept\<close> is the resource the provider makes for a link, \<open>None\<close>
  when the provider makes none (a configuration or connection error).
\<close>

locale link_table =
  fixes link_of :: "'s \<Rightarrow> string \<Rightarrow> 'c option"
    and put :: "link_definition \<Rightarrow> 's \<Rightarrow> 's"
    and accept :: "link_definition \<Rightarrow> 'c option"
  assumes link_put: "link_of (put ld s) a =
     (if a = ld_actor_id ld then or_else (accept ld) (link_of s a) else link_of s a)"
begin

lemma put_other: "a \<noteq> ld_actor_id ld \<Longrightarrow> link_of (put ld s) a = link_of s a"
  by (simp add: link_put)

lemma put_accepted: "accept ld = Some c \<Longrightarrow> link_of (put ld s) (ld_actor_id ld) = Some c"
  by (simp add: link_put)

lemma put_rejected: "accept ld = None \<Longrightarrow> link_of (put ld s) = link_of s"
  by (auto simp: link_put fun_eq_iff)

end

text \<open>
  What every table guarantees even when the outcome of put-link depends on more than the link
  definition, such as process-wide variables: entries of different actors are independent.
\<close>

locale link_slots =
  fixes link_of :: "'s \<Rightarrow> string \<Rightarrow> 'c option"
    and put :: "link_definition \<Rightarrow> 's \<Rightarrow> 's"
    and del :: "string \<Rightarrow> 's \<Rightarrow> 's"
    and shut :: "'s \<Rightarrow> 's"
  assumes slot_put: "a \<noteq> ld_actor_id ld \<Longrightarrow> link_of (put ld s) a = link_of s a"
    and slot_del: "link_of (del a s) b = (if b = a then None else link_of s b)"
    and slot_shut: "link_of (shut s) a = None"
begin

lemma run_unconcerned:
  "\<forall>e\<in>set evs. \<not> concerns a e \<Longrightarrow> link_of (run_links put del shut evs s) a = link_of s a"
proof (induction evs arbitrary: s)
  case (Cons e evs)
  then show ?case by (cases e) (auto simp: slot_put slot_del)
qed simp

text \<open>After a link is deleted it stays away until the actor is linked again.\<close>

lemma run_deleted:
  assumes "\<forall>e\<in>set post. \<forall>ld. e = PutLink ld \<longrightarrow> ld_actor_id ld \<noteq> a"
  shows "link_of (run_links put del shut (pre @ DeleteLink a # post) s) a = None"
proof -
  have "link_of t a = None \<Longrightarrow> link_of (run_links put del shut post t) a = None" for t
    using assms
  proof (induction post arbitrary: t)
    case (Cons e post)
    then have "link_of (link_step put del shut e t) a = None"
      by (cases e) (auto simp: slot_put slot_del slot_shut)
    with Cons show ?case by simp
  qed simp
  then show ?thesis by (simp add: slot_del)
qed

end

text \<open>A table that delete-link and shutdown also empty.\<close>

locale link_registry = link_table link_of put accept
  for link_of :: "'s \<Rightarrow> string \<Rightarrow> 'c option"
    and put :: "link_definition \<Rightarrow> 's \<Rightarrow> 's"
    and accept :: "link_definition \<Rightarrow> 'c option" +
  fixes del :: "string \<Rightarrow> 's \<Rightarrow> 's"
    and shut :: "'s \<Rightarrow> 's"
  assumes link_del: "link_of (del a s) b = (if b = a then None else link_of s b)"
    and link_shut: "link_of (shut s) a = None"
begin

lemma link_of_step: "link_of (link_step put del shut e s) a = abs_link_step accept a e (link_of s a)"
  by (cases e) (auto simp: link_put link_del link_shut)

text \<open>Any run of control messages refines the per-actor abstract view.\<close>

lemma run_refines:
  "link_of (run_links put del shut evs s) a = fold (abs_link_step accept a) evs (link_of s a)"
  by (induction evs arbitrary: s) (simp_all add: link_of_step)

lemma run_isolation:
  "filter (concerns a) evs = filter (concerns a) evs' \<Longrightarrow>
     link_of (run_links put del shut evs s) a = link_of (run_links put del shut evs' s) a"
  unfolding run_refines by (metis fold_abs_filter)

lemma run_in_force:
  "link_of s a = None \<Longrightarrow>
     link_of (run_links put del shut evs s) a = Some c \<longleftrightarrow> in_force accept a evs c"
  by (simp add: run_refines fold_abs_in_force)

end

sublocale link_registry \<subseteq> slots: link_slots link_of put del shut
  by unfold_locales (simp_all add: link_put link_del link_shut)

text \<open>
  A provider whose calls look the caller up in the table: a call without an actor, or by an actor
  with no link in force, is refused before anything else happens.
\<close>

locale link_service = link_registry link_of put accept del shut
  for link_of :: "'s \<Rightarrow> string \<Rightarrow> 'c option"
    and put :: "link_definition \<Rightarrow> 's \<Rightarrow> 's"
    and accept :: "link_definition \<Rightarrow> 'c option"
    and del :: "string \<Rightarrow> 's \<Rightarrow> 's"
    and shut :: "'s \<Rightarrow> 's" +
  fixes client :: "'s \<Rightarrow> ctx \<Rightarrow> 'c rpc_result"
    and unlinked :: "string \<Rightarrow> rpc_error"
  assumes client_lookup: "client s ctx =
     rbind (ok_or no_actor (ctx_actor ctx)) (\<lambda>a. ok_or (unlinked a) (link_of s a))"
begin

lemma client_Ok_iff:
  "client s ctx = Ok c \<longleftrightarrow> (\<exists>a. ctx_actor ctx = Some a \<and> link_of s a = Some c)"
  by (auto simp: client_lookup rbind_Ok_iff)

lemma client_after_run:
  assumes "\<And>a. link_of s a = None"
  shows "client (run_links put del shut evs s) ctx = Ok c \<longleftrightarrow>
     (\<exists>a. ctx_actor ctx = Some a \<and> in_force accept a evs c)"
  by (simp add: client_Ok_iff run_in_force [OF assms])

lemma client_total: "client s ctx \<noteq> Panic"
  by (auto simp: client_lookup rbind_Panic_iff)

end

end
