(* ===== verification/Task_Table.thy ===== *)
theory Task_Table
  imports Link_Registry "HOL-Library.Multiset"
begin

text \<open>
  The contract of the providers that run background tasks for their links (listeners, subscriptions,
  consumers, token renewals): the entry of an actor holds the handles of its tasks, the tasks run
  beside the table, and a task ends only when its handle is used to abort it. The locale says what
  the control messages may change; isolation of the tasks of different actors, which tasks stay, and
  that a task without a handle can no longer be stopped follow for every provider.
\<close>

text \<open>Taking an entry out of a list of what runs.\<close>

lemma mset_remove_nth: "k < length xs \<Longrightarrow> mset (take k xs @ drop (Suc k) xs) + {#xs ! k#} = mset xs"
  by (metis add.commute add_mset_add_single id_take_nth_drop mset.simps(2) mset_append union_mset_add_mset_right)


text \<open>
  \<open>handles s a\<close> are the handles in the entry of actor \<open>a\<close>, \<open>running s i\<close> is the task with handle \<open>i\<close>, and
  handles are numbered in the order in which tasks are started.
\<close>

definition wf_tasks :: "('s \<Rightarrow> string \<Rightarrow> nat set) \<Rightarrow> ('s \<Rightarrow> nat \<Rightarrow> 't option) \<Rightarrow> ('s \<Rightarrow> nat) \<Rightarrow> 's \<Rightarrow> bool" where
  "wf_tasks handles running nxt s \<longleftrightarrow>
     (\<forall>a. \<forall>i\<in>handles s a. i < nxt s) \<and> (\<forall>i t. running s i = Some t \<longrightarrow> i < nxt s) \<and>
     (\<forall>a b. a \<noteq> b \<longrightarrow> handles s a \<inter> handles s b = {})"

text \<open>What a message about actor \<open>a\<close> may change: its entry, its tasks and new tasks.\<close>

definition changes ::
  "('s \<Rightarrow> string \<Rightarrow> nat set) \<Rightarrow> ('s \<Rightarrow> nat \<Rightarrow> 't option) \<Rightarrow> ('s \<Rightarrow> nat) \<Rightarrow> string \<Rightarrow> 's \<Rightarrow> 's \<Rightarrow> bool" where
  "changes handles running nxt a s s' \<longleftrightarrow>
     nxt s \<le> nxt s' \<and> (\<forall>b. b \<noteq> a \<longrightarrow> handles s' b = handles s b) \<and>
     handles s' a \<subseteq> handles s a \<union> {nxt s..<nxt s'} \<and> (\<forall>i t. running s' i = Some t \<longrightarrow> i < nxt s') \<and>
     (\<forall>i<nxt s. i \<notin> handles s a \<longrightarrow> running s' i = running s i)"

text \<open>Every task that runs has its handle in the table.\<close>

definition tidy :: "('s \<Rightarrow> string \<Rightarrow> nat set) \<Rightarrow> ('s \<Rightarrow> nat \<Rightarrow> 't option) \<Rightarrow> 's \<Rightarrow> bool" where
  "tidy handles running s \<longleftrightarrow> (\<forall>i t. running s i = Some t \<longrightarrow> (\<exists>a. i \<in> handles s a))"

text \<open>Every handle is that of a task that runs, and one that fits the actor.\<close>

definition fits ::
  "('s \<Rightarrow> string \<Rightarrow> nat set) \<Rightarrow> ('s \<Rightarrow> nat \<Rightarrow> 't option) \<Rightarrow> (string \<Rightarrow> 't \<Rightarrow> bool) \<Rightarrow> 's \<Rightarrow> bool" where
  "fits handles running P s \<longleftrightarrow> (\<forall>a. \<forall>i\<in>handles s a. \<exists>t. running s i = Some t \<and> P a t)"

text \<open>A handle number that was given out and is in no entry.\<close>

definition unowned :: "('s \<Rightarrow> string \<Rightarrow> nat set) \<Rightarrow> ('s \<Rightarrow> nat) \<Rightarrow> 's \<Rightarrow> nat \<Rightarrow> bool" where
  "unowned handles nxt s i \<longleftrightarrow> i < nxt s \<and> (\<forall>a. i \<notin> handles s a)"

lemma wf_tasksD:
  assumes "wf_tasks handles running nxt s"
  shows "i \<in> handles s a \<Longrightarrow> i < nxt s"
    and "running s i = Some t \<Longrightarrow> i < nxt s"
    and "i \<in> handles s a \<Longrightarrow> i \<in> handles s b \<Longrightarrow> a = b"
  using assms unfolding wf_tasks_def by blast+

lemma changesD:
  assumes "changes handles running nxt a s s'"
  shows "nxt s \<le> nxt s'"
    and "b \<noteq> a \<Longrightarrow> handles s' b = handles s b"
    and "i \<in> handles s' a \<Longrightarrow> i \<in> handles s a \<or> nxt s \<le> i \<and> i < nxt s'"
    and "running s' i = Some t \<Longrightarrow> i < nxt s'"
    and "i < nxt s \<Longrightarrow> i \<notin> handles s a \<Longrightarrow> running s' i = running s i"
  using assms unfolding changes_def subset_iff Un_iff atLeastLessThan_iff by blast+

lemma changes_refl: "wf_tasks handles running nxt s \<Longrightarrow> changes handles running nxt a s s"
  by (auto simp: changes_def wf_tasks_def)

lemma changes_wf:
  assumes "wf_tasks handles running nxt s" "changes handles running nxt a s s'"
  shows "wf_tasks handles running nxt s'"
proof -
  note W = wf_tasksD [OF assms(1)] and C = changesD [OF assms(2)]
  have src: "i \<in> handles s b \<or> b = a \<and> nxt s \<le> i \<and> i < nxt s'" if "i \<in> handles s' b" for b i
    using that C(2) C(3) by (cases "b = a") auto
  then have lt: "i < nxt s'" if "i \<in> handles s' b" for b i
    using that W(1) C(1) by (meson order_less_le_trans)
  moreover have "b = c" if "i \<in> handles s' b" "i \<in> handles s' c" for b c i
    using src [OF that(1)] src [OF that(2)] W(1,3) by (metis not_less)
  ultimately show ?thesis using C(4) unfolding wf_tasks_def by blast
qed

lemma changes_others:
  assumes "wf_tasks handles running nxt s" "changes handles running nxt a s s'" "b \<noteq> a"
  shows "handles s' b = handles s b" and "i \<in> handles s b \<Longrightarrow> running s' i = running s i"
  using wf_tasksD [OF assms(1)] changesD [OF assms(2)] assms(3) by blast+

lemma changes_unowned:
  assumes "changes handles running nxt a s s'" "unowned handles nxt s i"
  shows "unowned handles nxt s' i" and "running s' i = running s i"
proof -
  note C = changesD [OF assms(1)]
  have "i \<notin> handles s' b" for b
    using assms(2) C(2) [of b] C(3) [of i] by (cases "b = a") (auto simp: unowned_def)
  with assms(2) C(1) show "unowned handles nxt s' i" by (auto simp: unowned_def)
  show "running s' i = running s i" using assms(2) C(5) by (simp add: unowned_def)
qed

text \<open>A message keeps the table tidy when the handles it takes out are aborted and the tasks it starts are entered.\<close>

lemma changes_tidy:
  assumes "tidy handles running s" "changes handles running nxt a s s'"
    and "\<And>i. i \<in> handles s a \<Longrightarrow> i \<notin> handles s' a \<Longrightarrow> running s' i = None"
    and "\<And>i. nxt s \<le> i \<Longrightarrow> i < nxt s' \<Longrightarrow> running s' i \<noteq> None \<Longrightarrow> i \<in> handles s' a"
  shows "tidy handles running s'"
  unfolding tidy_def
proof (intro allI impI)
  fix i t
  assume t: "running s' i = Some t"
  note C = changesD [OF assms(2)]
  show "\<exists>b. i \<in> handles s' b"
  proof (cases "i \<in> handles s a \<or> nxt s \<le> i")
    case True
    with t assms(3,4) C(4) show ?thesis by (metis option.distinct(1))
  next
    case False
    with t C(5) have "running s i = Some t" by simp
    then obtain b where "i \<in> handles s b" using assms(1) unfolding tidy_def by blast
    with False C(2) show ?thesis by metis
  qed
qed

lemma changes_fits:
  assumes "wf_tasks handles running nxt s" "fits handles running P s" "changes handles running nxt a s s'"
    and "\<And>i. i \<in> handles s' a \<Longrightarrow> \<exists>t. running s' i = Some t \<and> P a t"
  shows "fits handles running P s'"
proof -
  have "\<exists>t. running s' i = Some t \<and> P b t" if "i \<in> handles s' b" for b i
    using that assms(2,4) changes_others [OF assms(1,3), of b] unfolding fits_def by (cases "b = a") auto
  then show ?thesis unfolding fits_def by blast
qed

locale task_table =
  fixes handles :: "'s \<Rightarrow> string \<Rightarrow> nat set"
    and running :: "'s \<Rightarrow> nat \<Rightarrow> 't option"
    and nxt :: "'s \<Rightarrow> nat"
    and put :: "link_definition \<Rightarrow> 's \<Rightarrow> 's"
    and del :: "string \<Rightarrow> 's \<Rightarrow> 's"
    and shut :: "'s \<Rightarrow> 's"
  assumes put_changes: "wf_tasks handles running nxt s \<Longrightarrow> changes handles running nxt (ld_actor_id ld) s (put ld s)"
    and del_nxt: "nxt (del a s) = nxt s"
    and del_handles: "handles (del a s) b = (if b = a then {} else handles s b)"
    and del_running: "running (del a s) i = (if i \<in> handles s a then None else running s i)"
    and shut_nxt: "nxt (shut s) = nxt s"
    and shut_handles: "handles (shut s) b = {}"
    and shut_running: "running (shut s) i = (if \<exists>a. i \<in> handles s a then None else running s i)"
begin

lemma del_changes: "wf_tasks handles running nxt s \<Longrightarrow> changes handles running nxt a s (del a s)"
  by (auto simp: changes_def wf_tasks_def del_nxt del_handles del_running split: if_splits)

lemma shut_wf: "wf_tasks handles running nxt s \<Longrightarrow> wf_tasks handles running nxt (shut s)"
  by (auto simp: wf_tasks_def shut_nxt shut_handles shut_running split: if_splits)

lemma put_wf: "wf_tasks handles running nxt s \<Longrightarrow> wf_tasks handles running nxt (put ld s)"
  by (rule changes_wf [OF _ put_changes])

lemma del_wf: "wf_tasks handles running nxt s \<Longrightarrow> wf_tasks handles running nxt (del a s)"
  by (rule changes_wf [OF _ del_changes])

lemma del_tidy: "wf_tasks handles running nxt s \<Longrightarrow> tidy handles running s \<Longrightarrow> tidy handles running (del a s)"
  by (rule changes_tidy [OF _ del_changes]) (auto simp: del_nxt del_running)

lemma shut_tidy: "tidy handles running s \<Longrightarrow> tidy handles running (shut s)"
  by (auto simp: tidy_def shut_running split: if_splits)

lemma shut_stops_all: "tidy handles running s \<Longrightarrow> running (shut s) i = None"
  by (cases "running s i") (auto simp: tidy_def shut_running)

lemma del_fits: "wf_tasks handles running nxt s \<Longrightarrow> fits handles running P s \<Longrightarrow> fits handles running P (del a s)"
  by (rule changes_fits [OF _ _ del_changes]) (simp_all add: del_handles)

lemma shut_fits: "fits handles running P (shut s)"
  by (simp add: fits_def shut_handles)

lemma run_wf: "wf_tasks handles running nxt s \<Longrightarrow> wf_tasks handles running nxt (run_links put del shut evs s)"
proof (induction evs arbitrary: s)
  case (Cons e evs)
  then show ?case by (cases e) (simp_all add: put_wf del_wf shut_wf)
qed simp

text \<open>Messages about other actors leave the tasks of an actor alone.\<close>

lemma run_others:
  "wf_tasks handles running nxt s \<Longrightarrow> \<forall>e\<in>set evs. \<not> concerns a e \<Longrightarrow>
     handles (run_links put del shut evs s) a = handles s a \<and>
     (\<forall>i\<in>handles s a. running (run_links put del shut evs s) i = running s i)"
proof (induction evs arbitrary: s)
  case (Cons e evs)
  let ?s = "link_step put del shut e s"
  have "wf_tasks handles running nxt ?s \<and> handles ?s a = handles s a \<and> (\<forall>i\<in>handles s a. running ?s i = running s i)"
  proof (cases e)
    case (PutLink ld)
    with Cons.prems show ?thesis
      using changes_others [OF Cons.prems(1) put_changes [OF Cons.prems(1)], of a ld] by (auto simp: put_wf)
  next
    case (DeleteLink b)
    with Cons.prems show ?thesis
      using changes_others [OF Cons.prems(1) del_changes [OF Cons.prems(1)], of a b] by (auto simp: del_wf)
  qed (use Cons.prems in simp)
  with Cons.IH [of ?s] Cons.prems(2) show ?case by simp
qed simp

text \<open>A task whose handle is gone is beyond reach: if it runs it goes on, and if not it never runs again.\<close>

lemma run_unowned:
  "wf_tasks handles running nxt s \<Longrightarrow> unowned handles nxt s i \<Longrightarrow>
     unowned handles nxt (run_links put del shut evs s) i \<and> running (run_links put del shut evs s) i = running s i"
proof (induction evs arbitrary: s)
  case (Cons e evs)
  let ?s = "link_step put del shut e s"
  have "wf_tasks handles running nxt ?s \<and> unowned handles nxt ?s i \<and> running ?s i = running s i"
  proof (cases e)
    case (PutLink ld)
    with Cons.prems show ?thesis using changes_unowned [OF put_changes [OF Cons.prems(1)]] by (simp add: put_wf)
  next
    case (DeleteLink b)
    with Cons.prems show ?thesis using changes_unowned [OF del_changes [OF Cons.prems(1)]] by (simp add: del_wf)
  next
    case Shutdown
    with Cons.prems show ?thesis by (simp add: shut_wf unowned_def shut_nxt shut_handles shut_running)
  qed
  with Cons.IH [of ?s] show ?case by simp
qed simp

text \<open>So the tasks of a deleted link are stopped for good.\<close>

lemma run_deleted_stopped:
  assumes "wf_tasks handles running nxt s" "i \<in> handles s a"
  shows "running (run_links put del shut (DeleteLink a # evs) s) i = None"
proof -
  have "unowned handles nxt (del a s) i"
    using assms wf_tasksD [OF assms(1)] by (auto simp: unowned_def del_nxt del_handles split: if_splits)
  with run_unowned [OF del_wf [OF assms(1)]] assms(2) show ?thesis by (simp add: del_running)
qed

end

text \<open>
  Where the acceptance of a link depends on the link alone, a link that is not accepted leaves the
  tasks of the old one running.
\<close>

locale task_links = task_table +
  fixes accept :: "link_definition \<Rightarrow> 'c option"
  assumes put_refused: "wf_tasks handles running nxt s \<Longrightarrow> accept ld = None \<Longrightarrow>
     handles (put ld s) (ld_actor_id ld) = handles s (ld_actor_id ld) \<and>
     (\<forall>i\<in>handles s (ld_actor_id ld). running (put ld s) i = running s i)"
begin

lemma run_kept:
  "wf_tasks handles running nxt s \<Longrightarrow> \<forall>e\<in>set evs. \<not> replaces accept a e \<Longrightarrow>
     handles (run_links put del shut evs s) a = handles s a \<and>
     (\<forall>i\<in>handles s a. running (run_links put del shut evs s) i = running s i)"
proof (induction evs arbitrary: s)
  case (Cons e evs)
  let ?s = "link_step put del shut e s"
  have "handles ?s a = handles s a \<and> (\<forall>i\<in>handles s a. running ?s i = running s i)"
  proof (cases "concerns a e")
    case True
    with Cons.prems show ?thesis using put_refused [OF Cons.prems(1)] by (cases e) auto
  next
    case False
    with run_others [OF Cons.prems(1), of "[e]" a] show ?thesis by simp
  qed
  moreover have "wf_tasks handles running nxt ?s" using run_wf [OF Cons.prems(1), of "[e]"] by simp
  ultimately show ?case using Cons.IH [of ?s] Cons.prems(2) by simp
qed simp

end

end
