(* ===== verification/Httpserver.thy ===== *)
theory Httpserver
  imports Httpserver_Settings Http_Headers Task_Table
begin

text \<open>
  \<open>httpserver-rs/src/lib.rs\<close> and \<open>httpserver-rs/bin/main.rs\<close>: the size parser, header conversion,
  the request handler of one link's server, and the provider that starts and stops servers.
\<close>

section \<open>Content-length settings\<close>

text \<open>
  \<open>is_char_boundary\<close> for a position inside the string: the byte there does not continue a UTF-8
  sequence. \<open>split_at\<close> panics otherwise.
\<close>

definition is_continuation :: "char \<Rightarrow> bool" where
  "is_continuation = code_in 0x80 0xBF"

definition size_error :: "string \<Rightarrow> hs_error" where
  "size_error value = Settings (''Invalid size in max_content_len '' @ quoted value @
     '': value must be >0 and <= '' @ show_nat (unat CONTENT_LEN_LIMIT))"

definition size_syntax_error :: "string \<Rightarrow> hs_error" where
  "size_syntax_error value = Settings (''Invalid size in max_content_len: '' @ quoted value @
     ''. Should be a number, optionally followed by '' @ quoted ''K'' @ '', '' @ quoted ''M'' @ '', or '' @
     quoted ''G'' @ ''. Example: '' @ quoted ''10M'' @ ''. Value must be <= i32::MAX'')"

definition size_units :: "string \<Rightarrow> u64 \<Rightarrow> u64 option" where
  "size_units units base_value =
     (if units = ''k'' \<or> units = ''K'' then Some (base_value * 1024)
      else if units = ''m'' \<or> units = ''M'' then Some (base_value * 1024 * 1024)
      else if units = ''g'' \<or> units = ''G'' then Some (base_value * 1024 * 1024 * 1024)
      else None)"

definition size_limit :: "string \<Rightarrow> (hs_error, u64 option) rres" where
  "size_limit value =
     (if value = [] then Ok (Some DEFAULT_MAX_CONTENT_LEN)
      else (case parse_u64 value of
        Some num \<Rightarrow> Ok (Some num)
      | None \<Rightarrow>
          (if is_continuation (last value) then Panic
           else Ok (Option.bind (parse_u64 (trim (butlast value))) (size_units [last value])))))"

definition convert_human_size :: "string \<Rightarrow> (hs_error, u64) rres" where
  "convert_human_size value0 =
     (let value = trim value0 in
      rbind (size_limit value) (\<lambda>limit. case limit of
        Some x \<Rightarrow> (if 0 < x \<and> x \<le> CONTENT_LEN_LIMIT then Ok x else Err (size_error value))
      | None \<Rightarrow> Err (size_syntax_error value)))"

section \<open>Headers\<close>

definition convert_request_headers :: "header_env \<Rightarrow> header_map \<Rightarrow> (string \<rightharpoonup> string list)" where
  "convert_request_headers env headers =
     fold (\<lambda>k hmap. let vals = List.map_filter (hv_to_str env) (hdr_get_all headers k)
                     in if vals \<noteq> [] then hmap(k \<mapsto> vals) else hmap)
       (map fst headers) Map.empty"

definition convert_response_headers ::
  "header_env \<Rightarrow> (string \<times> string list) list \<Rightarrow> header_map \<Rightarrow> header_map" where
  "convert_response_headers env header map0 =
     fold (\<lambda>(k, vals) m. case hn_from_bytes env k of
              None \<Rightarrow> m
            | Some name \<Rightarrow> append_values env name vals (hdr_remove name m)) header map0"

section \<open>The request handler\<close>

record http_request =
  rq_method :: string
  rq_path :: string
  rq_query_string :: string
  rq_header :: "string \<rightharpoonup> string list"
  rq_body :: bytes

record actor_response =
  ar_status_code :: u16
  ar_header :: "(string \<times> string list) list"
  ar_body :: bytes

record http_response =
  rs_status :: u16
  rs_headers :: header_map
  rs_body :: bytes

text \<open>
  What the handler is closed over: the settings, the lattice id, the link, the call into the
  actor (\<open>call_actor\<close>, with the settings' timeout) and the HTTP crate. \<open>valid_status\<close> is
  \<open>StatusCode::from_u16\<close>. The result is the list of requests passed to the actor and the response,
  \<open>Panic\<close> if building the response unwraps an error.
\<close>

record handler_env =
  he_headers :: header_env
  he_valid_status :: "u16 \<Rightarrow> bool"
  he_call_actor :: "string \<Rightarrow> link_definition \<Rightarrow> http_request \<Rightarrow> u64 option \<Rightarrow> actor_response rpc_result"

definition empty_actor_response :: "u16 \<Rightarrow> actor_response" where
  "empty_actor_response status = \<lparr>ar_status_code = status, ar_header = [], ar_body = []\<rparr>"

definition readonly_rejects :: "service_settings \<Rightarrow> string \<Rightarrow> bool" where
  "readonly_rejects settings method \<longleftrightarrow>
     readonly_mode settings = Some True \<and> method \<noteq> ''GET'' \<and> method \<noteq> ''HEAD''"

definition build_response ::
  "handler_env \<Rightarrow> service_settings \<Rightarrow> actor_response \<Rightarrow> (rpc_error, http_response) rres" where
  "build_response env settings response =
     (let status = (if he_valid_status env (ar_status_code response) then ar_status_code response else 500)
      in rbind (case cache_control settings of
                  None \<Rightarrow> Ok []
                | Some cc \<Rightarrow> (case hv_try_from (he_headers env) cc of
                    None \<Rightarrow> Panic
                  | Some v \<Rightarrow> Ok [(''cache-control'', [v])]))
           (\<lambda>hdrs. Ok \<lparr>rs_status = status,
                       rs_headers = convert_response_headers (he_headers env) (ar_header response) hdrs,
                       rs_body = ar_body response\<rparr>))"

definition handle_request ::
  "handler_env \<Rightarrow> service_settings \<Rightarrow> string \<Rightarrow> link_definition \<Rightarrow> header_map \<Rightarrow> string \<Rightarrow> bytes \<Rightarrow>
   string \<Rightarrow> string \<Rightarrow> http_request list \<times> (rpc_error, http_response) rres" where
  "handle_request env settings lattice_id ld headers method body path query =
     (if readonly_rejects settings method
      then ([], Ok \<lparr>rs_status = 405, rs_headers = [], rs_body = []\<rparr>)
      else
        let req = \<lparr>rq_method = to_ascii_uppercase method, rq_path = path, rq_query_string = query,
                   rq_header = convert_request_headers (he_headers env) headers, rq_body = body\<rparr>
        in ([req],
            case he_call_actor env lattice_id ld req (timeout_ms settings) of
              Ok resp \<Rightarrow> build_response env settings resp
            | Err e \<Rightarrow> build_response env settings (empty_actor_response 500)
            | Panic \<Rightarrow> Panic))"

text \<open>The provider's \<open>call_actor\<close>: a timed-out actor becomes status 503, other errors pass.\<close>

definition call_actor ::
  "(link_definition \<Rightarrow> http_request \<Rightarrow> u64 option \<Rightarrow> actor_response rpc_result) \<Rightarrow>
   string \<Rightarrow> link_definition \<Rightarrow> http_request \<Rightarrow> u64 option \<Rightarrow> actor_response rpc_result" where
  "call_actor send lattice_id ld req timeout =
     (case send ld req timeout of
        Err (Timeout _) \<Rightarrow> Ok (empty_actor_response 503)
      | Ok resp \<Rightarrow> Ok resp
      | Err e \<Rightarrow> Err e
      | Panic \<Rightarrow> Panic)"

section \<open>CORS\<close>

text \<open>The calls made on the CORS builder, in order.\<close>

datatype cors_call =
    AllowOrigins "string list"
  | AllowAnyOrigin
  | AllowHeaders "string list"
  | AllowMethod string
  | ExposeHeaders "string list"
  | MaxAge u64

fun allow_methods :: "(string \<Rightarrow> bool) \<Rightarrow> string list \<Rightarrow> (hs_error, cors_call list) rres" where
  "allow_methods valid [] = Ok []"
| "allow_methods valid (m # ms) =
     (if valid m then rbind (allow_methods valid ms) (\<lambda>cs. Ok (AllowMethod m # cs))
      else Err (HInvalidParameter (''method: '' @ quoted m)))"

definition cors_filter :: "(string \<Rightarrow> bool) \<Rightarrow> service_settings \<Rightarrow> (hs_error, cors_call list) rres" where
  "cors_filter valid settings =
     (let c = cors settings;
          origins = (case allowed_origins c of
             Some os \<Rightarrow> (if os \<noteq> [] then [AllowOrigins os] else [AllowAnyOrigin])
           | None \<Rightarrow> [AllowAnyOrigin]);
          hdrs = (case allowed_headers c of Some hs \<Rightarrow> [AllowHeaders hs] | None \<Rightarrow> []);
          expose = (case exposed_headers c of Some hs \<Rightarrow> [ExposeHeaders hs] | None \<Rightarrow> []);
          age = (case max_age_secs c of Some a \<Rightarrow> [MaxAge a] | None \<Rightarrow> [])
      in rbind (case allowed_methods c of Some ms \<Rightarrow> allow_methods valid ms | None \<Rightarrow> Ok [])
           (\<lambda>meths. Ok (origins @ hdrs @ meths @ expose @ age)))"

section \<open>The provider\<close>

text \<open>
  The provider's table of servers, and which servers' listener tasks run. A server is known by the
  number it got when it was started. Dropping a server, by removing or replacing its entry, sends
  its shutdown signal.
\<close>

record hs_state =
  hs_actors :: "string \<rightharpoonup> nat"
  hs_running :: "nat set"
  hs_next :: nat

definition init_hs :: hs_state where
  "init_hs = \<lparr>hs_actors = Map.empty, hs_running = {}, hs_next = 0\<rparr>"

definition server_start ::
  "settings_env \<Rightarrow> (socket_addr \<Rightarrow> string + unit) \<Rightarrow> service_settings \<Rightarrow> (hs_error, unit) rres" where
  "server_start env try_bind settings =
     rbind (unwrap (address settings)) (\<lambda>addr.
     rbind (cors_filter (env_valid_method env) settings) (\<lambda>_.
     if tls_is_set (tls settings)
     then (case try_bind addr of Inr _ \<Rightarrow> Ok () | Inl _ \<Rightarrow> Panic)
     else map_err (\<lambda>e. Settings (''failed binding to address '' @ quoted (env_show_addr env addr) @
            '' reason: '' @ e)) (try_bind addr)))"

definition hs_error_display :: "hs_error \<Rightarrow> string" where
  "hs_error_display e = (case e of
      HInvalidParameter s \<Rightarrow> ''invalid parameter: '' @ s
    | Settings s \<Rightarrow> ''problem reading settings: '' @ s
    | Init s \<Rightarrow> ''provider startup: '' @ s
    | Warp s \<Rightarrow> ''warp error: '' @ s
    | SettingsToml s \<Rightarrow> ''deserializing settings: '' @ s)"

definition debug_addr :: "settings_env \<Rightarrow> socket_addr option \<Rightarrow> string" where
  "debug_addr env a = (case a of None \<Rightarrow> ''None'' | Some x \<Rightarrow> ''Some('' @ env_show_addr env x @ '')'')"

definition drop_server :: "string \<Rightarrow> hs_state \<Rightarrow> nat set" where
  "drop_server actor st = hs_running st - set_option (hs_actors st actor)"

definition put_link_httpserver ::
  "settings_env \<Rightarrow> (socket_addr \<Rightarrow> string + unit) \<Rightarrow> link_definition \<Rightarrow> hs_state \<Rightarrow>
   bool rpc_result \<times> hs_state" where
  "put_link_httpserver env try_bind ld st =
     (case load_settings env (ld_values ld) of
        Err e \<Rightarrow> (Err (ProviderInit (hs_error_display e)), st)
      | Panic \<Rightarrow> (Panic, st)
      | Ok settings \<Rightarrow>
          (case server_start env try_bind settings of
             Err e \<Rightarrow> (Err (ProviderInit (''starting httpserver for '' @ ld_actor_id ld @ '' '' @
                 debug_addr env (address settings) @ '': '' @ hs_error_display e)), st)
           | Panic \<Rightarrow> (Panic, st)
           | Ok _ \<Rightarrow>
               (Ok True,
                \<lparr>hs_actors = (hs_actors st)(ld_actor_id ld \<mapsto> hs_next st),
                 hs_running = insert (hs_next st) (drop_server (ld_actor_id ld) st),
                 hs_next = Suc (hs_next st)\<rparr>)))"

definition delete_link_httpserver :: "string \<Rightarrow> hs_state \<Rightarrow> hs_state" where
  "delete_link_httpserver actor st =
     st\<lparr>hs_actors := (hs_actors st)(actor := None), hs_running := drop_server actor st\<rparr>"

definition shutdown_httpserver :: "hs_state \<Rightarrow> hs_state" where
  "shutdown_httpserver st = st\<lparr>hs_actors := Map.empty, hs_running := hs_running st - ran (hs_actors st)\<rparr>"

section \<open>Lemmas\<close>

lemma not_ws_graphic: "33 \<le> byte c \<Longrightarrow> byte c \<le> 126 \<Longrightarrow> ws_len (c # s) = 0 \<and> ws_len_rev (c # s) = 0"
  by (auto simp: ascii_ws_def ws2_def ws3_def code_in_def split: list.splits)

lemma trim_graphic:
  assumes "list_all (code_in 33 126) s"
  shows "trim s = s"
proof -
  have "ws_len s = 0"
    using assms by (cases s) (auto simp: code_in_def not_ws_graphic simp del: ws_len.simps(1))
  moreover have "ws_len_rev (rev s) = 0"
    using assms by (cases s rule: rev_cases)
      (auto simp: code_in_def not_ws_graphic simp del: ws_len_rev.simps(1))
  ultimately show ?thesis
    by (simp add: trim_def trim_start_id trim_rev_id)
qed

lemma digits_graphic: "list_all (code_in 33 126) (show_nat n)"
  using show_nat_digits [of n] by (auto simp: list_all_iff is_digit_def code_in_def)

lemma parse_u64_suffix_None: "\<not> is_digit c \<Longrightarrow> s \<noteq> [] \<Longrightarrow> parse_u64 (s @ [c]) = None"
  by (cases s) (auto simp: parse_u64_def parse_uint_def)

lemma convert_human_size_Ok:
  "convert_human_size s = Ok x \<Longrightarrow> 0 < x \<and> x \<le> CONTENT_LEN_LIMIT"
  by (auto simp: convert_human_size_def rbind_Ok_iff Let_def split: option.splits if_splits)

lemma in_limit:
  assumes "0 < n" "n \<le> 1024 * 1024 * 1024"
  shows "(0 :: u64) < of_nat n \<and> of_nat n \<le> CONTENT_LEN_LIMIT" and "unat (of_nat n :: u64) = n"
proof -
  have n: "n < 2 ^ 64" using assms by simp
  then show u: "unat (of_nat n :: u64) = n"
    by (rule unat_of_nat_u64)
  then show "(0 :: u64) < of_nat n \<and> of_nat n \<le> CONTENT_LEN_LIMIT"
    using assms by (simp add: word_less_nat_alt word_le_nat_alt CONTENT_LEN_LIMIT_def)
qed

lemma size_limit_suffix:
  assumes "n < 2 ^ 64" "\<not> is_digit c" "\<not> is_continuation c"
  shows "size_limit (show_nat n @ [c]) = Ok (size_units [c] (of_nat n))"
  using assms by (simp add: size_limit_def parse_u64_suffix_None trim_graphic digits_graphic parse_u64_show_nat)

lemma convert_request_headers_eq:
  "convert_request_headers env headers k =
     (let vs = List.map_filter (hv_to_str env) (hdr_get_all headers k)
      in if vs = [] then None else Some vs)"
  unfolding convert_request_headers_def by (rule collect_readable)

lemma convert_response_headers_simps:
  "convert_response_headers env [] m = m"
  "convert_response_headers env ((k, vals) # hs) m = convert_response_headers env hs
     (case hn_from_bytes env k of
        None \<Rightarrow> m | Some name \<Rightarrow> append_values env name vals (hdr_remove name m))"
  by (simp_all add: convert_response_headers_def)

text \<open>The last entry of the actor's headers with a given (normalised) name decides its values.\<close>

definition last_header :: "header_env \<Rightarrow> (string \<times> string list) list \<Rightarrow> string \<Rightarrow> string list option" where
  "last_header env header n =
     map_option snd (List.find (\<lambda>kv. hn_from_bytes env (fst kv) = Some n) (rev header))"

lemma last_header_Cons:
  "last_header env (kv # hs) n = or_else (last_header env hs n)
     (if hn_from_bytes env (fst kv) = Some n then Some (snd kv) else None)"
  by (simp add: last_header_def find_snoc)
    (simp add: or_else_def split: option.splits)

lemma convert_response_headers_get_all:
  "hdr_get_all (convert_response_headers env header m) n =
     (case last_header env header n of
        None \<Rightarrow> hdr_get_all m n
      | Some vals \<Rightarrow> List.map_filter (hv_try_from env) vals)"
proof (induction header arbitrary: m)
  case Nil
  then show ?case by (simp add: convert_response_headers_simps last_header_def)
next
  case (Cons kv hs)
  then show ?case
    by (cases kv) (auto simp: convert_response_headers_simps last_header_Cons hdr_get_all_append_values
        hdr_get_all_remove split: option.splits)
qed

lemma allow_methods_Ok: "list_all valid ms \<Longrightarrow> allow_methods valid ms = Ok (map AllowMethod ms)"
  by (induction ms) auto

lemma cors_filter_Ok:
  assumes "\<And>ms. allowed_methods (cors s) = Some ms \<Longrightarrow> list_all valid ms"
  shows "\<exists>cs. cors_filter valid s = Ok cs"
  using assms by (cases "allowed_methods (cors s)") (simp_all add: cors_filter_def Let_def allow_methods_Ok)

lemma build_response_Ok:
  assumes "build_response env settings resp = Ok r"
  shows "rs_status r = (if he_valid_status env (ar_status_code resp) then ar_status_code resp else 500)"
    and "rs_body r = ar_body resp"
  using assms by (auto simp: build_response_def rbind_Ok_iff Let_def)

subsection \<open>Reachable provider states\<close>

text \<open>The network decides anew, at each put-link, which addresses can be bound.\<close>

inductive hs_reachable :: "settings_env \<Rightarrow> hs_state \<Rightarrow> bool" for env where
  start: "hs_reachable env init_hs"
| put: "hs_reachable env st \<Longrightarrow> hs_reachable env (snd (put_link_httpserver env try_bind ld st))"
| del: "hs_reachable env st \<Longrightarrow> hs_reachable env (delete_link_httpserver actor st)"
| shut: "hs_reachable env st \<Longrightarrow> hs_reachable env (shutdown_httpserver st)"

definition hs_linked :: "hs_state \<Rightarrow> string \<Rightarrow> unit option" where
  "hs_linked st a = map_option (\<lambda>_. ()) (hs_actors st a)"

definition hs_accept ::
  "settings_env \<Rightarrow> (socket_addr \<Rightarrow> string + unit) \<Rightarrow> link_definition \<Rightarrow> unit option" where
  "hs_accept env try_bind ld =
     (case rbind (load_settings env (ld_values ld)) (server_start env try_bind) of
        Ok _ \<Rightarrow> Some () | _ \<Rightarrow> None)"

interpretation hs: link_registry hs_linked "\<lambda>ld st. snd (put_link_httpserver env try_bind ld st)"
  "hs_accept env try_bind" delete_link_httpserver shutdown_httpserver for env try_bind
  by unfold_locales
    (auto simp: hs_linked_def hs_accept_def put_link_httpserver_def delete_link_httpserver_def
      shutdown_httpserver_def split: rres.split)

lemma put_link_httpserver_cases:
  obtains (linked) "hs_accept env try_bind ld \<noteq> None" "snd (put_link_httpserver env try_bind ld st) =
     \<lparr>hs_actors = (hs_actors st)(ld_actor_id ld \<mapsto> hs_next st),
      hs_running = insert (hs_next st) (drop_server (ld_actor_id ld) st), hs_next = Suc (hs_next st)\<rparr>"
  | (failed) "hs_accept env try_bind ld = None" "snd (put_link_httpserver env try_bind ld st) = st"
proof (cases "rbind (load_settings env (ld_values ld)) (server_start env try_bind)")
  case (Ok u)
  then show thesis by (intro linked) (auto simp: put_link_httpserver_def hs_accept_def rbind_Ok_iff)
qed (intro failed; auto simp: put_link_httpserver_def hs_accept_def rres_iffs)+

text \<open>The listeners by the contract of \<open>Task_Table\<close>: the one handle of an actor is the number of its server.\<close>

definition hs_handles :: "hs_state \<Rightarrow> string \<Rightarrow> nat set" where
  "hs_handles st a = set_option (hs_actors st a)"

definition hs_tasks :: "hs_state \<Rightarrow> nat \<Rightarrow> unit option" where
  "hs_tasks st n = (if n \<in> hs_running st then Some () else None)"

interpretation hst: task_links hs_handles hs_tasks hs_next "\<lambda>ld st. snd (put_link_httpserver env try_bind ld st)"
  delete_link_httpserver shutdown_httpserver "hs_accept env try_bind" for env try_bind
proof unfold_locales
  fix st ld
  assume wf: "wf_tasks hs_handles hs_tasks hs_next st"
  show "changes hs_handles hs_tasks hs_next (ld_actor_id ld) st (snd (put_link_httpserver env try_bind ld st))"
  proof (cases rule: put_link_httpserver_cases [of env try_bind ld st])
    case linked
    then show ?thesis
      using wf_tasksD(2) [OF wf]
      by (auto simp: changes_def hs_handles_def hs_tasks_def drop_server_def less_SucI split: if_splits)
  qed (use changes_refl [OF wf] in simp)
  assume "hs_accept env try_bind ld = None"
  then show "hs_handles (snd (put_link_httpserver env try_bind ld st)) (ld_actor_id ld) = hs_handles st (ld_actor_id ld) \<and>
     (\<forall>i\<in>hs_handles st (ld_actor_id ld). hs_tasks (snd (put_link_httpserver env try_bind ld st)) i = hs_tasks st i)"
    by (cases rule: put_link_httpserver_cases [of env try_bind ld st]) simp_all
qed (auto simp: hs_handles_def hs_tasks_def delete_link_httpserver_def shutdown_httpserver_def drop_server_def ran_def)

definition hs_inv :: "hs_state \<Rightarrow> bool" where
  "hs_inv st \<longleftrightarrow> wf_tasks hs_handles hs_tasks hs_next st \<and> tidy hs_handles hs_tasks st \<and>
     fits hs_handles hs_tasks (\<lambda>_ _. True) st"

lemma hs_inv_put:
  assumes "hs_inv st"
  shows "hs_inv (snd (put_link_httpserver env try_bind ld st))"
proof (cases rule: put_link_httpserver_cases [of env try_bind ld st])
  case linked
  note inv = assms [unfolded hs_inv_def]
  have ch: "changes hs_handles hs_tasks hs_next (ld_actor_id ld) st (snd (put_link_httpserver env try_bind ld st))"
    using inv by (intro hst.put_changes) simp
  have "tidy hs_handles hs_tasks (snd (put_link_httpserver env try_bind ld st))"
    by (rule changes_tidy [OF _ ch]) (use inv linked in \<open>auto simp: hs_handles_def hs_tasks_def drop_server_def\<close>)
  moreover have "fits hs_handles hs_tasks (\<lambda>_ _. True) (snd (put_link_httpserver env try_bind ld st))"
    by (rule changes_fits [OF _ _ ch]) (use inv linked in \<open>auto simp: hs_handles_def hs_tasks_def\<close>)
  ultimately show ?thesis using hst.put_wf inv by (auto simp: hs_inv_def)
qed (use assms in simp)

lemma hs_reachable_inv: "hs_reachable env st \<Longrightarrow> hs_inv st"
proof (induction rule: hs_reachable.induct)
  case start
  then show ?case by (simp add: hs_inv_def wf_tasks_def tidy_def fits_def hs_handles_def hs_tasks_def init_hs_def)
next
  case (del st actor)
  then show ?case by (simp add: hs_inv_def hst.del_wf hst.del_tidy hst.del_fits)
next
  case (shut st)
  then show ?case by (simp add: hs_inv_def hst.shut_wf hst.shut_tidy hst.shut_fits)
qed (rule hs_inv_put)

section \<open>Properties\<close>

text \<open>An accepted content-length limit is at least 1 and at most 1 GiB.\<close>

theorem convert_human_size_bounds:
  assumes "convert_human_size s = Ok x"
  shows "1 \<le> unat x \<and> unat x \<le> 1024 * 1024 * 1024"
  using convert_human_size_Ok [OF assms]
  by (simp add: word_less_nat_alt word_le_nat_alt CONTENT_LEN_LIMIT_def)

theorem convert_human_size_bounds_witness:
  "convert_human_size ''5k'' = Ok 5120 \<and> unat (5120 :: u64) \<le> 1024 * 1024 * 1024"
proof -
  have five: "''5'' = show_nat 5"
    by (simp add: show_nat.simps digit_char_def char_of_def bit_Suc_0_iff)
  have "trim ''5k'' = ''5k''" by (rule trim_graphic) (simp add: code_in_def)
  moreover have "size_limit (show_nat 5 @ ''k'') = Ok (size_units ''k'' (of_nat 5))"
    by (rule size_limit_suffix) (simp_all add: is_digit_def is_continuation_def code_in_def)
  ultimately have "convert_human_size ''5k'' = Ok 5120"
    by (simp add: convert_human_size_def size_units_def CONTENT_LEN_LIMIT_def flip: five)
  then show ?thesis
    using convert_human_size_bounds by blast
qed

text \<open>A number written in decimal, alone or with a unit, is read back as that many bytes,
  kibibytes, mebibytes or gibibytes, whenever the value is within the limit.\<close>

theorem convert_human_size_roundtrip:
  assumes "0 < n" and "n * scale \<le> 1024 * 1024 * 1024"
    and "(unit, scale) \<in> {([], 1), (''k'', 1024), (''K'', 1024), (''m'', 1024 * 1024),
      (''M'', 1024 * 1024), (''g'', 1024 * 1024 * 1024), (''G'', 1024 * 1024 * 1024)}"
  shows "convert_human_size (show_nat n @ unit) = Ok (of_nat (n * scale))"
proof -
  have sc: "0 < scale" using assms(3) by auto
  have "n \<le> n * scale" using sc by simp
  from le_trans [OF this assms(2)] have n: "n < 2 ^ 64" by simp
  have pos: "0 < n * scale" using assms(1) sc by simp
  note lim = in_limit(1) [OF pos assms(2)]
  have tr: "trim (show_nat n @ unit) = show_nat n @ unit"
    using assms(3) digits_graphic [of n] by (intro trim_graphic) (auto simp: code_in_def)
  have "size_limit (show_nat n @ unit) = Ok (Some (of_nat (n * scale)))"
  proof (cases "unit = []")
    case True
    with assms(3) show ?thesis by (simp add: size_limit_def parse_u64_show_nat [OF n])
  next
    case False
    then obtain c where c: "unit = [c]" using assms(3) by auto
    moreover have "\<not> is_digit c" "\<not> is_continuation c"
      using assms(3) c by (auto simp: is_digit_def is_continuation_def code_in_def)
    ultimately show ?thesis
      using assms(3) size_limit_suffix [OF n] by (auto simp: size_units_def mult.assoc)
  qed
  with tr lim show ?thesis by (simp add: convert_human_size_def)
qed

theorem convert_human_size_roundtrip_witness:
  "convert_human_size (show_nat 10 @ ''M'') = Ok 10485760"
  using convert_human_size_roundtrip [of 10 "1024 * 1024" "''M''"] by simp

text \<open>The product with the unit wraps at 64 bits before it is compared with the limit, so a
  request for 16 exbibytes is accepted as a limit of 1 KiB; and a value that ends in a non-ASCII
  character aborts the task instead of giving an error.\<close>

theorem convert_human_size_wraps_and_panics:
  "convert_human_size ''18014398509481985k'' = Ok 1024 \<and>
   convert_human_size [CHR ''5'', CHR 0xC3, CHR 0xA9] = Panic"
proof
  have "trim ''18014398509481985k'' = ''18014398509481985k''"
    by (rule trim_graphic) (simp add: code_in_def)
  moreover have "trim ''18014398509481985'' = ''18014398509481985''"
    by (rule trim_graphic) (simp add: code_in_def)
  ultimately show "convert_human_size ''18014398509481985k'' = Ok 1024"
    by (simp add: convert_human_size_def size_limit_def parse_u64_def parse_uint_def is_digit_def
        is_continuation_def code_in_def digits_value_def digit_val_def size_units_def CONTENT_LEN_LIMIT_def)
next
  have "trim [CHR ''5'', CHR 0xC3, CHR 0xA9] = [CHR ''5'', CHR 0xC3, CHR 0xA9]"
    by (simp add: trim_def trim_start_id trim_rev_id ascii_ws_def ws2_def ws3_def code_in_def)
  then show "convert_human_size [CHR ''5'', CHR 0xC3, CHR 0xA9] = Panic"
    by (simp add: convert_human_size_def size_limit_def parse_u64_def parse_uint_def is_digit_def
        is_continuation_def code_in_def)
qed


text \<open>The status sent to the HTTP client is the actor's if it is a valid status code and 500 if
  it is not or if the call failed; a rejected write is 405. So every response has a valid status.\<close>

theorem handle_request_status:
  assumes "snd (handle_request env settings lattice ld headers method body path query) = Ok r"
    and "he_valid_status env 405" and "he_valid_status env 500"
  shows "he_valid_status env (rs_status r)"
  using assms
  by (auto simp: handle_request_def Let_def empty_actor_response_def dest!: build_response_Ok(1)
      split: if_splits rres.splits)

definition sample_handler :: handler_env where
  "sample_handler = \<lparr>he_headers = \<lparr>hv_to_str = (\<lambda>b. Some (map (\<lambda>x. char_of (unat x)) b)),
       hv_try_from = (\<lambda>s. Some (map (\<lambda>c. of_nat (of_char c)) s)), hn_from_bytes = Some\<rparr>,
     he_valid_status = (\<lambda>s. 100 \<le> s \<and> s < 1000),
     he_call_actor = (\<lambda>_ _ _ _. Ok \<lparr>ar_status_code = 7, ar_header = [], ar_body = [1, 2]\<rparr>)\<rparr>"

definition sample_link :: link_definition where
  "sample_link = \<lparr>ld_actor_id = ''A'', ld_provider_id = ''P'', ld_link_name = ''default'',
     ld_contract_id = ''wasmcloud:httpserver'', ld_values = sample_values\<rparr>"

lemma sample_response:
  "snd (handle_request sample_handler sample_settings [] sample_link [] ''GET'' [] ''/'' []) =
     Ok \<lparr>rs_status = 500, rs_headers = [(''cache-control'', [map (\<lambda>c. of_nat (of_char c)) ''no-store''])],
         rs_body = [1, 2]\<rparr>"
  by (simp add: handle_request_def readonly_rejects_def sample_handler_def build_response_def
      convert_response_headers_def sample_settings_def sample_doc_def)

theorem handle_request_status_witness:
  "\<not> he_valid_status sample_handler 7 \<and> he_valid_status sample_handler 500"
proof -
  have "he_valid_status sample_handler 405" "he_valid_status sample_handler 500"
    by (simp_all add: sample_handler_def)
  from handle_request_status [OF sample_response this] show ?thesis
    by (simp add: sample_handler_def)
qed

text \<open>C20: with settings that loaded, and a call into the actor that returns, the handler never
  aborts: the unwrap when the response is built only fails for a cache-control value that
  validation has refused.\<close>
theorem handle_request_no_panic:
  assumes "load_settings senv vs = Ok settings"
    and "\<And>v. env_valid_header_value senv v \<longleftrightarrow> hv_try_from (he_headers env) v \<noteq> None"
    and "\<And>l d r t. he_call_actor env l d r t \<noteq> Panic"
  shows "snd (handle_request env settings lattice ld headers method body path query) \<noteq> Panic"
proof -
  have cc: "cache_control settings = Some v \<Longrightarrow> hv_try_from (he_headers env) v \<noteq> None" for v
  proof -
    assume v: "cache_control settings = Some v"
    have "validate_errors senv settings = []"
      using assms(1) by (auto elim!: load_settings_steps simp: validate_Ok_iff)
    with v assms(2) show ?thesis
      by (auto simp: validate_errors_def split: if_splits)
  qed
  have "build_response env settings resp \<noteq> Panic" for resp
    using cc by (auto simp: build_response_def rbind_Panic_iff Let_def split: option.splits)
  with assms(3) show ?thesis
    by (auto simp: handle_request_def Let_def split: rres.splits)
qed

theorem handle_request_no_panic_witness:
  "load_settings sample_env sample_values = Ok sample_settings \<and>
   snd (handle_request sample_handler sample_settings [] sample_link [] ''GET'' [] ''/'' []) \<noteq> Panic"
proof -
  have "env_valid_header_value sample_env v \<longleftrightarrow> hv_try_from (he_headers sample_handler) v \<noteq> None"
    and "he_call_actor sample_handler l d r t \<noteq> Panic" for v l d r t
    by (simp_all add: sample_env_def sample_handler_def)
  from handle_request_no_panic [OF sample_load this] sample_load show ?thesis by blast
qed

text \<open>In the response to the HTTP client, a header the actor names has the values of the actor's
  last entry with that (normalised) name that are valid header values, replacing what the server
  had set; every other header, the configured Cache-Control among them, is kept.\<close>

theorem response_headers_override:
  assumes "build_response env settings resp = Ok r"
  shows "hdr_get_all (rs_headers r) n =
     (case last_header (he_headers env) (ar_header resp) n of
        Some vals \<Rightarrow> List.map_filter (hv_try_from (he_headers env)) vals
      | None \<Rightarrow> (if n = ''cache-control''
                 then (case cache_control settings of
                         None \<Rightarrow> [] | Some cc \<Rightarrow> [the (hv_try_from (he_headers env) cc)])
                 else []))"
  using assms
  by (auto simp: build_response_def rbind_Ok_iff Let_def convert_response_headers_get_all
      split: option.splits)

theorem response_headers_override_witness:
  "\<exists>r. build_response sample_handler sample_settings
         \<lparr>ar_status_code = 200, ar_header = [(''x'', [''a''])], ar_body = []\<rparr> = Ok r \<and>
       hdr_get_all (rs_headers r) ''x'' = [[97]]"
proof -
  let ?resp = "\<lparr>ar_status_code = 200, ar_header = [(''x'', [''a''])], ar_body = []\<rparr>"
  obtain r where r: "build_response sample_handler sample_settings ?resp = Ok r"
    by (simp add: build_response_def sample_handler_def sample_settings_def sample_doc_def)
  have "last_header (he_headers sample_handler) (ar_header ?resp) ''x'' = Some [''a'']"
    by (simp add: last_header_def sample_handler_def)
  with response_headers_override [OF r, of "''x''"]
  have "hdr_get_all (rs_headers r) ''x'' = [[97]]"
    by (simp add: sample_handler_def map_filter_simps)
  with r show ?thesis by blast
qed

lemma hs_no_orphan_listeners_facts:
  assumes "hs_reachable env st"
  shows "hs_running st = ran (hs_actors st)"
    and "hs_actors st a = Some n \<Longrightarrow> hs_actors st b = Some n \<Longrightarrow> a = b"
proof -
  have inv: "hs_inv st" using hs_reachable_inv [OF assms] .
  then show "hs_running st = ran (hs_actors st)"
    by (fastforce simp: hs_inv_def tidy_def fits_def hs_handles_def hs_tasks_def ran_def split: if_splits)
  show "hs_actors st a = Some n \<Longrightarrow> hs_actors st b = Some n \<Longrightarrow> a = b"
    using inv wf_tasksD(3) [of hs_handles hs_tasks hs_next st n a b] by (simp add: hs_inv_def hs_handles_def)
qed

text \<open>In every reachable state of the provider the listeners that run are exactly those of the
  linked actors, one each: replacing, deleting or shutting down a link leaves no listener behind,
  and a link that failed to start none.\<close>

theorem hs_no_orphan_listeners:
  assumes "hs_reachable env st"
  shows "(hs_running st = ran (hs_actors st)) \<and>
     (\<forall>a b n. hs_actors st a = Some n \<longrightarrow> hs_actors st b = Some n \<longrightarrow> a = b)"
  using hs_no_orphan_listeners_facts [OF assms] by blast

lemma sample_put_result:
  "put_link_httpserver sample_env (\<lambda>_. Inr ()) sample_link init_hs =
     (Ok True, \<lparr>hs_actors = [''A'' \<mapsto> 0], hs_running = {0}, hs_next = 1\<rparr>)"
proof -
  obtain cs where "cors_filter (env_valid_method sample_env) sample_settings = Ok cs"
    using cors_filter_Ok [of sample_settings "env_valid_method sample_env"]
    by (auto simp: sample_env_def list_all_iff)
  then have "server_start sample_env (\<lambda>_. Inr ()) sample_settings = Ok ()"
    by (simp add: server_start_def sample_settings_def)
  then show ?thesis
    by (simp add: put_link_httpserver_def sample_link_def sample_load init_hs_def drop_server_def)
qed

lemma sample_put:
  "snd (put_link_httpserver sample_env (\<lambda>_. Inr ()) sample_link init_hs) =
     \<lparr>hs_actors = [''A'' \<mapsto> 0], hs_running = {0}, hs_next = 1\<rparr>"
  by (simp add: sample_put_result)

theorem hs_no_orphan_listeners_witness:
  "hs_reachable sample_env (snd (put_link_httpserver sample_env (\<lambda>_. Inr ()) sample_link init_hs)) \<and>
   hs_running (snd (put_link_httpserver sample_env (\<lambda>_. Inr ()) sample_link init_hs)) = {0}"
proof -
  have r: "hs_reachable sample_env (snd (put_link_httpserver sample_env (\<lambda>_. Inr ()) sample_link init_hs))"
    by (intro hs_reachable.put hs_reachable.start)
  from hs_no_orphan_listeners [OF r] r show ?thesis
    by (simp add: sample_put)
qed

text \<open>After any sequence of control messages an actor has a server exactly when its last link
  that started has not been deleted or shut down since.\<close>

theorem hs_links_in_force:
  "hs_linked (run_links (\<lambda>ld st. snd (put_link_httpserver env try_bind ld st))
      delete_link_httpserver shutdown_httpserver evs init_hs) a = Some () \<longleftrightarrow>
   in_force (hs_accept env try_bind) a evs ()"
  by (rule hs.run_in_force) (simp add: hs_linked_def init_hs_def)

end
