(* ===== verification/Httpserver_Core.thy ===== *)
theory Httpserver_Core
  imports Httpserver
begin

text \<open>
  The servers behind the provider's table (\<open>HttpServerCore\<close>): each has a channel for one shutdown signal,
  a listener task that serves requests until it takes the signal, and requests under way, which a
  listener told to stop still answers. Control messages, arriving requests, their answers and the
  listeners interleave freely. \<open>Httpserver\<close> counts a listener as running until it is told to stop;
  here it stops some time after.
\<close>

section \<open>A server\<close>

datatype listener_phase = NotStarted | Listening | Draining | Stopped

record raw_request =
  rr_headers :: header_map
  rr_method :: string
  rr_body :: bytes
  rr_path :: string
  rr_query :: "string option"

definition opt_raw_query :: "string option \<Rightarrow> string" where
  "opt_raw_query q = unwrap_or q []"

record server_core =
  co_settings :: service_settings
  co_lattice_id :: string
  co_link :: link_definition
  co_signals :: nat
  co_phase :: listener_phase
  co_accepted :: "raw_request list"
  co_pending :: "raw_request list"
  co_answered :: "(raw_request \<times> (rpc_error, http_response) rres) list"

definition new_core :: "service_settings \<Rightarrow> string \<Rightarrow> link_definition \<Rightarrow> server_core" where
  "new_core settings lattice ld = \<lparr>co_settings = settings, co_lattice_id = lattice, co_link = ld, co_signals = 0,
     co_phase = NotStarted, co_accepted = [], co_pending = [], co_answered = []\<rparr>"

text \<open>The channel holds one signal; \<open>try_send\<close> to a full one fails, which both callers ignore.\<close>

definition SIGNAL_CAPACITY :: nat where
  "SIGNAL_CAPACITY = 1"

definition begin_shutdown :: "server_core \<Rightarrow> server_core" where
  "begin_shutdown c = (if co_signals c < SIGNAL_CAPACITY then c\<lparr>co_signals := Suc (co_signals c)\<rparr> else c)"

definition drop_core :: "server_core \<Rightarrow> server_core" where
  "drop_core c = (if co_signals c < SIGNAL_CAPACITY then c\<lparr>co_signals := Suc (co_signals c)\<rparr> else c)"

definition spawn_listener :: "server_core \<Rightarrow> server_core" where
  "spawn_listener c = c\<lparr>co_phase := Listening\<rparr>"

text \<open>The future given to the listener: it completes when a signal is received.\<close>

definition recv_signal :: "server_core \<Rightarrow> server_core option" where
  "recv_signal c =
     (if co_phase c = Listening \<and> 0 < co_signals c
      then Some (c\<lparr>co_signals := co_signals c - 1, co_phase := Draining\<rparr>) else None)"

definition accept_request :: "raw_request \<Rightarrow> server_core \<Rightarrow> server_core option" where
  "accept_request r c =
     (if co_phase c = Listening then Some (c\<lparr>co_accepted := co_accepted c @ [r], co_pending := co_pending c @ [r]\<rparr>) else None)"

definition answer :: "handler_env \<Rightarrow> server_core \<Rightarrow> raw_request \<Rightarrow> (rpc_error, http_response) rres" where
  "answer env c r =
     snd (handle_request env (co_settings c) (co_lattice_id c) (co_link c) (rr_headers r) (rr_method r) (rr_body r) (rr_path r)
       (opt_raw_query (rr_query r)))"

definition answer_request :: "handler_env \<Rightarrow> nat \<Rightarrow> server_core \<Rightarrow> server_core option" where
  "answer_request env k c =
     (if k < length (co_pending c)
      then Some (c\<lparr>co_pending := take k (co_pending c) @ drop (Suc k) (co_pending c),
                   co_answered := co_answered c @ [(co_pending c ! k, answer env c (co_pending c ! k))]\<rparr>)
      else None)"

definition end_listener :: "server_core \<Rightarrow> server_core option" where
  "end_listener c = (if co_phase c = Draining \<and> co_pending c = [] then Some (c\<lparr>co_phase := Stopped\<rparr>) else None)"

section \<open>The provider with its servers\<close>

record core_system =
  cs_table :: hs_state
  cs_cores :: "nat \<Rightarrow> server_core"

definition no_core :: server_core where
  "no_core = new_core default_settings [] \<lparr>ld_actor_id = [], ld_provider_id = [], ld_link_name = [], ld_contract_id = [], ld_values = []\<rparr>"

definition init_cores :: core_system where
  "init_cores = \<lparr>cs_table = init_hs, cs_cores = (\<lambda>_. no_core)\<rparr>"

text \<open>Inserting the new server drops the one it replaces.\<close>

definition put_core ::
  "settings_env \<Rightarrow> (socket_addr \<Rightarrow> string + unit) \<Rightarrow> string \<Rightarrow> link_definition \<Rightarrow> core_system \<Rightarrow> bool rpc_result \<times> core_system"
where
  "put_core env try_bind lattice ld s =
     (case (put_link_httpserver env try_bind ld (cs_table s), load_settings env (ld_values ld)) of
        ((Ok b, t), Ok settings) \<Rightarrow>
          (Ok b, \<lparr>cs_table = t,
             cs_cores = (\<lambda>n. if n = hs_next (cs_table s) then spawn_listener (new_core settings lattice ld)
                else if hs_actors (cs_table s) (ld_actor_id ld) = Some n then drop_core (cs_cores s n)
                else cs_cores s n)\<rparr>)
      | ((r, t), _) \<Rightarrow> (r, s\<lparr>cs_table := t\<rparr>))"

definition delete_core :: "string \<Rightarrow> core_system \<Rightarrow> core_system" where
  "delete_core actor s =
     \<lparr>cs_table = delete_link_httpserver actor (cs_table s),
      cs_cores = (\<lambda>n. if hs_actors (cs_table s) actor = Some n then drop_core (begin_shutdown (cs_cores s n)) else cs_cores s n)\<rparr>"

definition shutdown_cores :: "core_system \<Rightarrow> core_system" where
  "shutdown_cores s =
     \<lparr>cs_table = shutdown_httpserver (cs_table s),
      cs_cores = (\<lambda>n. if n \<in> ran (hs_actors (cs_table s)) then drop_core (cs_cores s n) else cs_cores s n)\<rparr>"

definition set_core :: "nat \<Rightarrow> server_core \<Rightarrow> core_system \<Rightarrow> core_system" where
  "set_core n c s = s\<lparr>cs_cores := (cs_cores s)(n := c)\<rparr>"

text \<open>An address on which the provider itself listens cannot be bound again; port 0 asks for any free port.\<close>

fun port_of :: "socket_addr \<Rightarrow> u16" where
  "port_of (SockV4 a b c d p) = p"
| "port_of (SockV6 a p) = p"

definition listens_on :: "core_system \<Rightarrow> socket_addr \<Rightarrow> bool" where
  "listens_on s addr \<longleftrightarrow> (\<exists>n. co_phase (cs_cores s n) = Listening \<and> address (co_settings (cs_cores s n)) = Some addr)"

definition bind_law :: "core_system \<Rightarrow> (socket_addr \<Rightarrow> string + unit) \<Rightarrow> bool" where
  "bind_law s try_bind \<longleftrightarrow> (\<forall>addr. listens_on s addr \<longrightarrow> port_of addr \<noteq> 0 \<longrightarrow> (\<exists>e. try_bind addr = Inl e))"

text \<open>Steps of one server: taking the signal, answering, and ending.\<close>

inductive core_step :: "handler_env \<Rightarrow> nat \<Rightarrow> core_system \<Rightarrow> core_system \<Rightarrow> bool" for henv n s where
  signal: "recv_signal (cs_cores s n) = Some c \<Longrightarrow> core_step henv n s (set_core n c s)"
| answer: "answer_request henv k (cs_cores s n) = Some c \<Longrightarrow> core_step henv n s (set_core n c s)"
| ends: "end_listener (cs_cores s n) = Some c \<Longrightarrow> core_step henv n s (set_core n c s)"

inductive hs_step :: "settings_env \<Rightarrow> handler_env \<Rightarrow> string \<Rightarrow> core_system \<Rightarrow> core_system \<Rightarrow> bool" for env henv lattice s where
  put: "bind_law s try_bind \<Longrightarrow> hs_step env henv lattice s (snd (put_core env try_bind lattice ld s))"
| del: "hs_step env henv lattice s (delete_core actor s)"
| shut: "hs_step env henv lattice s (shutdown_cores s)"
| accept: "accept_request r (cs_cores s n) = Some c \<Longrightarrow> hs_step env henv lattice s (set_core n c s)"
| own: "core_step henv n s s' \<Longrightarrow> hs_step env henv lattice s s'"

inductive cores_reachable :: "settings_env \<Rightarrow> handler_env \<Rightarrow> string \<Rightarrow> core_system \<Rightarrow> bool" for env henv lattice where
  start: "cores_reachable env henv lattice init_cores"
| step: "cores_reachable env henv lattice s \<Longrightarrow> hs_step env henv lattice s s' \<Longrightarrow> cores_reachable env henv lattice s'"

inductive_cases core_stepE: "core_step henv n s s'"
inductive_cases hs_stepE: "hs_step env henv lattice s s'"

lemmas core_op_defs = recv_signal_def accept_request_def answer_request_def end_listener_def drop_core_def begin_shutdown_def
  spawn_listener_def new_core_def SIGNAL_CAPACITY_def

section \<open>Invariants\<close>

text \<open>What holds of one server: its bookkeeping, and whether it is in the table.\<close>

definition core_ok :: "handler_env \<Rightarrow> server_core \<Rightarrow> bool" where
  "core_ok henv c \<longleftrightarrow>
     co_signals c \<le> SIGNAL_CAPACITY \<and> (co_phase c = Stopped \<longrightarrow> co_pending c = []) \<and>
     mset (co_accepted c) = mset (co_pending c) + mset (map fst (co_answered c)) \<and>
     list_all (\<lambda>(r, resp). resp = answer henv c r) (co_answered c)"

definition in_table :: "hs_state \<Rightarrow> nat \<Rightarrow> bool" where
  "in_table t n \<longleftrightarrow> n \<in> ran (hs_actors t)"

definition core_fits :: "bool \<Rightarrow> server_core \<Rightarrow> bool" where
  "core_fits linked c \<longleftrightarrow>
     co_phase c \<noteq> NotStarted \<and> (if linked then co_phase c = Listening \<and> co_signals c = 0 else co_phase c = Listening \<longrightarrow> co_signals c = 1)"

definition cores_inv :: "handler_env \<Rightarrow> core_system \<Rightarrow> bool" where
  "cores_inv henv s \<longleftrightarrow>
     hs_inv (cs_table s) \<and> (\<forall>n. core_ok henv (cs_cores s n)) \<and>
     (\<forall>n<hs_next (cs_table s). core_fits (in_table (cs_table s) n) (cs_cores s n)) \<and>
     (\<forall>n\<ge>hs_next (cs_table s). cs_cores s n = no_core)"

lemma answer_phase [simp]:
  "answer henv (c\<lparr>co_signals := x\<rparr>) = answer henv c" "answer henv (c\<lparr>co_phase := ph\<rparr>) = answer henv c"
  "answer henv (c\<lparr>co_accepted := ac\<rparr>) = answer henv c" "answer henv (c\<lparr>co_pending := pe\<rparr>) = answer henv c"
  "answer henv (c\<lparr>co_answered := an\<rparr>) = answer henv c"
  by (simp_all add: answer_def fun_eq_iff)

lemma core_ok_simple:
  "core_ok henv (spawn_listener (new_core settings lattice ld))" "core_ok henv no_core"
  "core_ok henv c \<Longrightarrow> core_ok henv (drop_core c)" "core_ok henv c \<Longrightarrow> core_ok henv (begin_shutdown c)"
  "core_ok henv c \<Longrightarrow> recv_signal c = Some c' \<Longrightarrow> core_ok henv c'"
  "core_ok henv c \<Longrightarrow> accept_request r c = Some c' \<Longrightarrow> core_ok henv c'"
  "core_ok henv c \<Longrightarrow> end_listener c = Some c' \<Longrightarrow> core_ok henv c'"
  by (auto simp: core_ok_def core_op_defs no_core_def split: if_splits)

lemma core_ok_answer: "core_ok henv c \<Longrightarrow> answer_request henv k c = Some c' \<Longrightarrow> core_ok henv c'"
  using mset_remove_nth [of k "co_pending c"]
  by (auto simp: core_ok_def answer_request_def split: if_splits)

lemma core_fits_steps:
  "recv_signal c = Some c' \<Longrightarrow> core_fits b c \<Longrightarrow> core_fits b c'"
  "accept_request r c = Some c' \<Longrightarrow> core_fits b c \<Longrightarrow> core_fits b c'"
  "answer_request henv k c = Some c' \<Longrightarrow> core_fits b c \<Longrightarrow> core_fits b c'"
  "end_listener c = Some c' \<Longrightarrow> core_fits b c \<Longrightarrow> core_fits b c'"
  by (auto simp: core_fits_def core_op_defs split: if_splits)

lemma core_fits_drop:
  "core_fits True c \<Longrightarrow> core_fits False (drop_core c)" "core_fits False c \<Longrightarrow> core_fits False (drop_core c)"
  "core_fits True c \<Longrightarrow> core_fits False (begin_shutdown c)"
  by (auto simp: core_fits_def core_op_defs)

lemma put_core_cases:
  obtains (linked) settings where "load_settings env (ld_values ld) = Ok settings" "server_start env try_bind settings = Ok ()"
      "put_core env try_bind lattice ld s =
        (Ok True, \<lparr>cs_table = \<lparr>hs_actors = (hs_actors (cs_table s))(ld_actor_id ld \<mapsto> hs_next (cs_table s)),
             hs_running = insert (hs_next (cs_table s)) (drop_server (ld_actor_id ld) (cs_table s)), hs_next = Suc (hs_next (cs_table s))\<rparr>,
           cs_cores = (\<lambda>n. if n = hs_next (cs_table s) then spawn_listener (new_core settings lattice ld)
                else if hs_actors (cs_table s) (ld_actor_id ld) = Some n then drop_core (cs_cores s n)
                else cs_cores s n)\<rparr>)"
  | (failed) "\<not> is_ok (fst (put_core env try_bind lattice ld s))" "snd (put_core env try_bind lattice ld s) = s"
      "\<nexists>settings. load_settings env (ld_values ld) = Ok settings \<and> server_start env try_bind settings = Ok ()"
proof (cases "load_settings env (ld_values ld)")
  case (Ok settings)
  show thesis
  proof (cases "server_start env try_bind settings")
    case started: (Ok u)
    with Ok show thesis by (intro linked) (simp_all add: put_core_def put_link_httpserver_def)
  qed (intro failed; simp add: Ok put_core_def put_link_httpserver_def)+
qed (intro failed; simp add: put_core_def put_link_httpserver_def)+

lemma cores_invD:
  assumes "cores_inv henv s"
  shows "hs_inv (cs_table s)" "core_ok henv (cs_cores s n)"
    and "n < hs_next (cs_table s) \<Longrightarrow> core_fits (in_table (cs_table s) n) (cs_cores s n)"
    and "hs_next (cs_table s) \<le> n \<Longrightarrow> cs_cores s n = no_core" "hs_actors (cs_table s) a = Some n \<Longrightarrow> n < hs_next (cs_table s)"
    and "hs_actors (cs_table s) a = Some n \<Longrightarrow> hs_actors (cs_table s) b = Some n \<Longrightarrow> a = b"
proof -
  show inv: "hs_inv (cs_table s)" "core_ok henv (cs_cores s n)" "n < hs_next (cs_table s) \<Longrightarrow> core_fits (in_table (cs_table s) n) (cs_cores s n)"
    "hs_next (cs_table s) \<le> n \<Longrightarrow> cs_cores s n = no_core"
    using assms by (simp_all add: cores_inv_def)
  have wf: "wf_tasks hs_handles hs_tasks hs_next (cs_table s)" using inv(1) by (simp add: hs_inv_def)
  show "hs_actors (cs_table s) a = Some n \<Longrightarrow> n < hs_next (cs_table s)"
    using wf_tasksD(1) [OF wf, of n a] by (simp add: hs_handles_def)
  show "hs_actors (cs_table s) a = Some n \<Longrightarrow> hs_actors (cs_table s) b = Some n \<Longrightarrow> a = b"
    using wf_tasksD(3) [OF wf, of n a b] by (simp add: hs_handles_def)
qed

text \<open>What a control message does to the servers: the ones that leave the table are told to stop, new ones listen.\<close>

lemma cores_inv_control:
  assumes inv: "cores_inv henv s" and t': "hs_inv t'" "hs_next (cs_table s) \<le> hs_next t'"
    and kept: "\<And>n. n < hs_next (cs_table s) \<Longrightarrow>
      (in_table t' n \<longleftrightarrow> in_table (cs_table s) n) \<and> cores' n = cs_cores s n \<or>
      in_table (cs_table s) n \<and> \<not> in_table t' n \<and> cores' n \<in> {drop_core (cs_cores s n), drop_core (begin_shutdown (cs_cores s n))}"
    and new: "\<And>n. hs_next (cs_table s) \<le> n \<Longrightarrow>
      if n < hs_next t' then in_table t' n \<and> (\<exists>settings lattice ld. cores' n = spawn_listener (new_core settings lattice ld)) else cores' n = no_core"
  shows "cores_inv henv \<lparr>cs_table = t', cs_cores = cores'\<rparr>"
proof -
  have "core_ok henv (cores' n)" for n
    using kept [of n] new [of n] cores_invD(2) [OF inv, of n]
    by (cases "n < hs_next (cs_table s)"; cases "n < hs_next t'") (auto intro: core_ok_simple core_ok_simple(3) [OF core_ok_simple(4)])
  moreover have "core_fits (in_table t' n) (cores' n)" if "n < hs_next t'" for n
  proof (cases "n < hs_next (cs_table s)")
    case True
    have fits: "core_fits (in_table (cs_table s) n) (cs_cores s n)" by (rule cores_invD(3) [OF inv True])
    from kept [OF True] show ?thesis
    proof
      assume "in_table (cs_table s) n \<and> \<not> in_table t' n \<and> cores' n \<in> {drop_core (cs_cores s n), drop_core (begin_shutdown (cs_cores s n))}"
      with fits show ?thesis by (auto intro: core_fits_drop core_fits_drop(2) [OF core_fits_drop(3)])
    qed (use fits in simp)
  next
    case False
    with new [of n] that show ?thesis by (auto simp: core_fits_def core_op_defs)
  qed
  moreover have "cores' n = no_core" if "hs_next t' \<le> n" for n
    using new [of n] that t'(2) by simp
  ultimately show ?thesis using t'(1) by (simp add: cores_inv_def)
qed

lemma cores_inv_put:
  assumes inv: "cores_inv henv s"
  shows "cores_inv henv (snd (put_core env try_bind lattice ld s))"
proof (cases rule: put_core_cases [of env ld try_bind lattice s])
  case (linked settings)
  let ?t = "cs_table s" and ?t' = "cs_table (snd (put_core env try_bind lattice ld s))"
  have t': "?t' = snd (put_link_httpserver env try_bind ld ?t)"
    using linked by (simp add: put_link_httpserver_def)
  have table: "in_table ?t' n \<longleftrightarrow> n = hs_next ?t \<or> in_table ?t n \<and> hs_actors ?t (ld_actor_id ld) \<noteq> Some n" for n
    using linked cores_invD(6) [OF inv, of _ n "ld_actor_id ld"] by (auto simp: in_table_def ran_def) metis
  have "cores_inv henv \<lparr>cs_table = ?t', cs_cores = cs_cores (snd (put_core env try_bind lattice ld s))\<rparr>"
  proof (rule cores_inv_control [OF inv])
    show "hs_inv ?t'" unfolding t' by (rule hs_inv_put [OF cores_invD(1) [OF inv]])
    show "hs_next ?t \<le> hs_next ?t'" using linked by simp
  next
    fix n assume "n < hs_next ?t"
    then show "(in_table ?t' n \<longleftrightarrow> in_table ?t n) \<and> cs_cores (snd (put_core env try_bind lattice ld s)) n = cs_cores s n \<or>
      in_table ?t n \<and> \<not> in_table ?t' n \<and>
      cs_cores (snd (put_core env try_bind lattice ld s)) n \<in> {drop_core (cs_cores s n), drop_core (begin_shutdown (cs_cores s n))}"
      unfolding table using linked by (cases "hs_actors ?t (ld_actor_id ld) = Some n") (auto simp: in_table_def ran_def)
  next
    fix n assume n: "hs_next ?t \<le> n"
    have "cs_cores s n = no_core" by (rule cores_invD(4) [OF inv n])
    moreover have "hs_actors ?t (ld_actor_id ld) \<noteq> Some n" using cores_invD(5) [OF inv] n by force
    ultimately show "if n < hs_next ?t' then in_table ?t' n \<and>
        (\<exists>settings lattice' ld'. cs_cores (snd (put_core env try_bind lattice ld s)) n = spawn_listener (new_core settings lattice' ld'))
      else cs_cores (snd (put_core env try_bind lattice ld s)) n = no_core"
      using linked n unfolding table by auto
  qed
  moreover have "\<lparr>cs_table = cs_table u, cs_cores = cs_cores u\<rparr> = u" for u :: core_system by simp
  ultimately show ?thesis by metis
qed (use inv in simp)

lemma cores_inv_delete:
  assumes inv: "cores_inv henv s"
  shows "cores_inv henv (delete_core actor s)"
  unfolding delete_core_def
proof (rule cores_inv_control [OF inv])
  let ?t = "cs_table s" and ?t' = "delete_link_httpserver actor (cs_table s)"
  show "hs_inv ?t'" using cores_invD(1) [OF inv] by (simp add: hs_inv_def hst.del_wf hst.del_tidy hst.del_fits)
  have table: "in_table ?t' n \<longleftrightarrow> in_table ?t n \<and> hs_actors ?t actor \<noteq> Some n" for n
    using cores_invD(6) [OF inv, of _ n actor] by (auto simp: in_table_def ran_def delete_link_httpserver_def)
  show "(in_table ?t' n \<longleftrightarrow> in_table ?t n) \<and>
      (if hs_actors ?t actor = Some n then drop_core (begin_shutdown (cs_cores s n)) else cs_cores s n) = cs_cores s n \<or>
      in_table ?t n \<and> \<not> in_table ?t' n \<and>
      (if hs_actors ?t actor = Some n then drop_core (begin_shutdown (cs_cores s n)) else cs_cores s n)
        \<in> {drop_core (cs_cores s n), drop_core (begin_shutdown (cs_cores s n))}" for n
    unfolding table by (cases "hs_actors ?t actor = Some n") (auto simp: in_table_def ran_def)
  show "if n < hs_next ?t' then in_table ?t' n \<and> (\<exists>settings lattice ld.
        (if hs_actors ?t actor = Some n then drop_core (begin_shutdown (cs_cores s n)) else cs_cores s n) =
          spawn_listener (new_core settings lattice ld))
      else (if hs_actors ?t actor = Some n then drop_core (begin_shutdown (cs_cores s n)) else cs_cores s n) = no_core"
    if "hs_next ?t \<le> n" for n
  proof -
    have "hs_actors ?t actor \<noteq> Some n" using cores_invD(5) [OF inv] that by force
    with cores_invD(4) [OF inv that] that show ?thesis by (simp add: delete_link_httpserver_def)
  qed
qed (simp add: delete_link_httpserver_def)

lemma cores_inv_shutdown:
  assumes inv: "cores_inv henv s"
  shows "cores_inv henv (shutdown_cores s)"
  unfolding shutdown_cores_def
proof (rule cores_inv_control [OF inv])
  let ?t = "cs_table s" and ?t' = "shutdown_httpserver (cs_table s)"
  show "hs_inv ?t'" using cores_invD(1) [OF inv] by (simp add: hs_inv_def hst.shut_wf hst.shut_tidy hst.shut_fits)
  have table: "in_table ?t' n = False" for n by (simp add: in_table_def shutdown_httpserver_def)
  show "(in_table ?t' n \<longleftrightarrow> in_table ?t n) \<and>
      (if n \<in> ran (hs_actors ?t) then drop_core (cs_cores s n) else cs_cores s n) = cs_cores s n \<or>
      in_table ?t n \<and> \<not> in_table ?t' n \<and>
      (if n \<in> ran (hs_actors ?t) then drop_core (cs_cores s n) else cs_cores s n)
        \<in> {drop_core (cs_cores s n), drop_core (begin_shutdown (cs_cores s n))}" for n
    unfolding table by (cases "in_table ?t n") (simp_all add: in_table_def)
  show "if n < hs_next ?t' then in_table ?t' n \<and> (\<exists>settings lattice ld.
        (if n \<in> ran (hs_actors ?t) then drop_core (cs_cores s n) else cs_cores s n) = spawn_listener (new_core settings lattice ld))
      else (if n \<in> ran (hs_actors ?t) then drop_core (cs_cores s n) else cs_cores s n) = no_core"
    if "hs_next ?t \<le> n" for n
  proof -
    have "n \<notin> ran (hs_actors ?t)" using cores_invD(5) [OF inv] that by (force simp: ran_def)
    with cores_invD(4) [OF inv that] that show ?thesis by (simp add: shutdown_httpserver_def)
  qed
qed (simp add: shutdown_httpserver_def)

lemma cores_inv_set:
  assumes inv: "cores_inv henv s" and c: "core_ok henv c" "n < hs_next (cs_table s)" "core_fits (in_table (cs_table s) n) c"
  shows "cores_inv henv (set_core n c s)"
  using assms by (simp add: cores_inv_def set_core_def)


lemma no_core_idle:
  "recv_signal no_core = None" "accept_request r no_core = None" "answer_request henv k no_core = None" "end_listener no_core = None"
  by (simp_all add: no_core_def core_op_defs)

lemma started_core:
  assumes "cores_inv henv s" "cs_cores s n \<noteq> no_core"
  shows "n < hs_next (cs_table s)"
  using cores_invD(4) [OF assms(1), of n] assms(2) by (meson not_less)

lemma cores_inv_own:
  assumes inv: "cores_inv henv s" and step: "core_step henv n s s'"
  shows "cores_inv henv s'"
  using step
proof (cases rule: core_step.cases)
  case (signal c)
  then have "n < hs_next (cs_table s)" using started_core [OF inv, of n] no_core_idle by fastforce
  with signal cores_invD(2,3) [OF inv, of n] show ?thesis by (auto intro!: cores_inv_set [OF inv] intro: core_ok_simple core_fits_steps)
next
  case (answer k c)
  then have "n < hs_next (cs_table s)" using started_core [OF inv, of n] no_core_idle by fastforce
  with answer cores_invD(2,3) [OF inv, of n] show ?thesis by (auto intro!: cores_inv_set [OF inv] intro: core_ok_answer core_fits_steps)
next
  case (ends c)
  then have "n < hs_next (cs_table s)" using started_core [OF inv, of n] no_core_idle by fastforce
  with ends cores_invD(2,3) [OF inv, of n] show ?thesis by (auto intro!: cores_inv_set [OF inv] intro: core_ok_simple core_fits_steps)
qed

lemma cores_inv_step:
  assumes inv: "cores_inv henv s" and step: "hs_step env henv lattice s s'"
  shows "cores_inv henv s'"
  using step
proof (cases rule: hs_step.cases)
  case (accept r n c)
  then have "n < hs_next (cs_table s)" using started_core [OF inv, of n] no_core_idle by fastforce
  with accept cores_invD(2,3) [OF inv, of n] show ?thesis by (auto intro!: cores_inv_set [OF inv] intro: core_ok_simple core_fits_steps)
qed (use inv in \<open>simp_all add: cores_inv_put cores_inv_delete cores_inv_shutdown cores_inv_own\<close>)

lemma cores_reachable_inv: "cores_reachable env henv lattice s \<Longrightarrow> cores_inv henv s"
proof (induction rule: cores_reachable.induct)
  case start
  have "hs_inv init_hs" by (rule hs_reachable_inv [OF hs_reachable.start])
  then show ?case by (simp add: cores_inv_def init_cores_def core_ok_simple) (simp add: init_hs_def)
qed (rule cores_inv_step)

section \<open>Draining\<close>

definition core_left :: "server_core \<Rightarrow> nat" where
  "core_left c = length (co_pending c) + (case co_phase c of Listening \<Rightarrow> 2 | Draining \<Rightarrow> 1 | _ \<Rightarrow> 0)"

lemma set_core_sel [simp]:
  "cs_table (set_core n c s) = cs_table s" "cs_cores (set_core n c s) m = (if m = n then c else cs_cores s m)"
  by (simp_all add: set_core_def)

lemma core_step_left: "core_step henv n s s' \<Longrightarrow> core_left (cs_cores s n) = Suc (core_left (cs_cores s' n))"
  by (auto elim!: core_stepE simp: core_op_defs core_left_def split: if_splits)

lemma core_step_kept:
  "core_step henv n s s' \<Longrightarrow> co_accepted (cs_cores s' n) = co_accepted (cs_cores s n)"
  "core_step henv n s s' \<Longrightarrow> cs_table s' = cs_table s"
  by (auto elim!: core_stepE simp: core_op_defs split: if_splits)

lemma core_step_possible:
  assumes "co_phase (cs_cores s n) = Listening \<longrightarrow> co_signals (cs_cores s n) \<noteq> 0" "core_left (cs_cores s n) \<noteq> 0"
  shows "\<exists>s'. core_step henv n s s'"
proof (cases "co_pending (cs_cores s n) = []")
  case False
  then have "answer_request henv 0 (cs_cores s n) \<noteq> None" by (simp add: answer_request_def)
  then show ?thesis by (blast intro: core_step.answer)
next
  case True
  show ?thesis
  proof (cases "co_phase (cs_cores s n)")
    case Listening
    with assms(1) have "recv_signal (cs_cores s n) \<noteq> None" by (simp add: recv_signal_def)
    then show ?thesis by (blast intro: core_step.signal)
  next
    case Draining
    with True have "end_listener (cs_cores s n) \<noteq> None" by (simp add: end_listener_def)
    then show ?thesis by (blast intro: core_step.ends)
  qed (use True assms(2) in \<open>simp_all add: core_left_def\<close>)
qed

lemma core_steps:
  assumes "(core_step henv n ^^ k) s s'"
  shows "core_left (cs_cores s n) = k + core_left (cs_cores s' n)" "co_accepted (cs_cores s' n) = co_accepted (cs_cores s n)"
    and "cs_table s' = cs_table s" "cores_inv henv s \<Longrightarrow> cores_inv henv s'"
proof -
  have "core_left (cs_cores s n) = k + core_left (cs_cores s' n) \<and> co_accepted (cs_cores s' n) = co_accepted (cs_cores s n) \<and>
      cs_table s' = cs_table s \<and> (cores_inv henv s \<longrightarrow> cores_inv henv s')"
    using assms
  proof (induction k arbitrary: s')
    case (Suc k)
    then obtain u where "(core_step henv n ^^ k) s u" "core_step henv n u s'" by auto
    with Suc.IH [of u] core_step_left [of henv n u s'] core_step_kept [of henv n u s'] cores_inv_own [of henv u n s']
    show ?case by auto
  qed simp
  then show "core_left (cs_cores s n) = k + core_left (cs_cores s' n)" "co_accepted (cs_cores s' n) = co_accepted (cs_cores s n)"
    "cs_table s' = cs_table s" "cores_inv henv s \<Longrightarrow> cores_inv henv s'" by blast+
qed

section \<open>A sample run\<close>

text \<open>One link, one request under way, then the link is deleted.\<close>

definition sample_raw :: raw_request where
  "sample_raw = \<lparr>rr_headers = [], rr_method = ''GET'', rr_body = [], rr_path = ''/'', rr_query = None\<rparr>"

definition sample_cores :: core_system where
  "sample_cores = snd (put_core sample_env (\<lambda>_. Inr ()) ''default'' sample_link init_cores)"

definition sample_busy :: core_system where
  "sample_busy = set_core 0 (the (accept_request sample_raw (cs_cores sample_cores 0))) sample_cores"

definition sample_gone :: core_system where
  "sample_gone = delete_core ''A'' sample_busy"

lemma sample_core:
  "cs_table sample_cores = \<lparr>hs_actors = [''A'' \<mapsto> 0], hs_running = {0}, hs_next = 1\<rparr>"
  "cs_cores sample_cores 0 = spawn_listener (new_core sample_settings ''default'' sample_link)"
proof -
  have "ld_values sample_link = sample_values" by (simp add: sample_link_def)
  with sample_load have "load_settings sample_env (ld_values sample_link) = Ok sample_settings" by simp
  moreover have "put_link_httpserver sample_env (\<lambda>_. Inr ()) sample_link init_hs =
      (Ok True, \<lparr>hs_actors = [''A'' \<mapsto> 0], hs_running = {0}, hs_next = 1\<rparr>)"
    using sample_put_result .
  ultimately show "cs_table sample_cores = \<lparr>hs_actors = [''A'' \<mapsto> 0], hs_running = {0}, hs_next = 1\<rparr>"
    "cs_cores sample_cores 0 = spawn_listener (new_core sample_settings ''default'' sample_link)"
    by (simp_all add: sample_cores_def put_core_def init_cores_def) (simp_all add: init_hs_def)
qed

lemma sample_busy_core:
  "cs_table sample_busy = \<lparr>hs_actors = [''A'' \<mapsto> 0], hs_running = {0}, hs_next = 1\<rparr>"
  "cs_cores sample_busy 0 = (new_core sample_settings ''default'' sample_link)
     \<lparr>co_phase := Listening, co_accepted := [sample_raw], co_pending := [sample_raw]\<rparr>"
  by (simp_all add: sample_busy_def sample_core accept_request_def spawn_listener_def new_core_def)

lemma sample_gone_core:
  "cs_table sample_gone = \<lparr>hs_actors = Map.empty, hs_running = {}, hs_next = 1\<rparr>"
  "cs_cores sample_gone 0 = (new_core sample_settings ''default'' sample_link)
     \<lparr>co_signals := 1, co_phase := Listening, co_accepted := [sample_raw], co_pending := [sample_raw]\<rparr>"
  by (simp_all add: sample_gone_def delete_core_def sample_busy_core delete_link_httpserver_def drop_server_def core_op_defs)

lemma sample_cores_reachable:
  "cores_reachable sample_env henv ''default'' sample_busy" "cores_reachable sample_env henv ''default'' sample_gone"
proof -
  have "bind_law init_cores (\<lambda>_. Inr ())"
    by (simp add: bind_law_def listens_on_def init_cores_def no_core_def new_core_def)
  then have "cores_reachable sample_env henv ''default'' sample_cores"
    unfolding sample_cores_def by (intro cores_reachable.step [OF cores_reachable.start] hs_step.put)
  moreover have "accept_request sample_raw (cs_cores sample_cores 0) = Some (the (accept_request sample_raw (cs_cores sample_cores 0)))"
    by (simp add: sample_core accept_request_def spawn_listener_def)
  ultimately show b: "cores_reachable sample_env henv ''default'' sample_busy"
    unfolding sample_busy_def by (blast intro: cores_reachable.step hs_step.accept)
  show "cores_reachable sample_env henv ''default'' sample_gone"
    unfolding sample_gone_def by (rule cores_reachable.step [OF b hs_step.del])
qed

section \<open>Properties\<close>

text \<open>C16: however control messages, requests and listeners interleave: the listener of a linked actor accepts
  requests and has no signal to stop; a listener whose server has left the table has its signal waiting
  until it takes it; and every request a server accepted is under way or was answered, once, as the
  handler answers it with the settings and the link with which that server was started.\<close>
theorem server_lifecycle:
  assumes "cores_reachable env henv lattice s"
  shows "(hs_actors (cs_table s) a = Some n \<longrightarrow> co_phase (cs_cores s n) = Listening \<and> co_signals (cs_cores s n) = 0) \<and>
     (n \<notin> ran (hs_actors (cs_table s)) \<longrightarrow> co_phase (cs_cores s n) = Listening \<longrightarrow> recv_signal (cs_cores s n) \<noteq> None) \<and>
     mset (co_accepted (cs_cores s n)) = mset (co_pending (cs_cores s n)) + mset (map fst (co_answered (cs_cores s n))) \<and>
     list_all (\<lambda>(r, resp). resp = answer henv (cs_cores s n) r) (co_answered (cs_cores s n))"
proof -
  have inv: "cores_inv henv s" by (rule cores_reachable_inv [OF assms])
  have "co_phase no_core \<noteq> Listening" by (simp add: no_core_def new_core_def)
  then have "co_phase (cs_cores s n) = Listening \<Longrightarrow> n < hs_next (cs_table s)"
    using started_core [OF inv, of n] by fastforce
  moreover have "hs_actors (cs_table s) a = Some n \<Longrightarrow> in_table (cs_table s) n" by (auto simp: in_table_def ran_def)
  ultimately show ?thesis
    using cores_invD(2) [OF inv, of n] cores_invD(3) [OF inv, of n] cores_invD(5) [OF inv]
    by (auto simp: core_ok_def core_fits_def in_table_def recv_signal_def)
qed

theorem server_lifecycle_witness:
  "co_phase (cs_cores sample_busy 0) = Listening \<and> co_signals (cs_cores sample_busy 0) = 0 \<and>
   recv_signal (cs_cores sample_gone 0) \<noteq> None"
proof -
  have "hs_actors (cs_table sample_busy) ''A'' = Some 0" by (simp add: sample_busy_core)
  moreover have "0 \<notin> ran (hs_actors (cs_table sample_gone))" "co_phase (cs_cores sample_gone 0) = Listening"
    by (simp_all add: sample_gone_core)
  ultimately show ?thesis
    using server_lifecycle [OF sample_cores_reachable(1), where a = "''A''" and n = 0] server_lifecycle [OF sample_cores_reachable(2), where a = "''A''" and n = 0]
    by blast
qed

text \<open>C0: a server that has left the table comes to rest: the steps of its listener and of its requests end,
  after exactly \<open>core_left\<close> of them, and only then can it take none; it has then stopped, and every request it
  accepted was answered.\<close>
theorem dropped_server_drains:
  assumes "cores_reachable env henv lattice s" and "n < hs_next (cs_table s)" and "n \<notin> ran (hs_actors (cs_table s))"
    and "(core_step henv n ^^ k) s s'"
  shows "k \<le> core_left (cs_cores s n) \<and> ((\<nexists>u. core_step henv n s' u) \<longleftrightarrow> k = core_left (cs_cores s n)) \<and>
     (k = core_left (cs_cores s n) \<longrightarrow> co_phase (cs_cores s' n) = Stopped \<and>
        mset (map fst (co_answered (cs_cores s' n))) = mset (co_accepted (cs_cores s n)))"
proof -
  note S = core_steps [OF assms(4)]
  have inv: "cores_inv henv s'" by (rule S(4) [OF cores_reachable_inv [OF assms(1)]])
  have fits: "core_fits False (cs_cores s' n)"
    using cores_invD(3) [OF inv, of n] assms(2,3) S(3) by (simp add: in_table_def)
  have "(\<nexists>u. core_step henv n s' u) \<longleftrightarrow> core_left (cs_cores s' n) = 0"
    using core_step_possible [of s' n henv] core_step_left [of henv n s'] fits by (fastforce simp: core_fits_def)
  moreover have "co_phase (cs_cores s' n) = Stopped \<and> mset (map fst (co_answered (cs_cores s' n))) = mset (co_accepted (cs_cores s n))"
    if "core_left (cs_cores s' n) = 0"
    using that fits cores_invD(2) [OF inv, of n] S(2)
    by (cases "co_phase (cs_cores s' n)") (simp_all add: core_left_def core_fits_def core_ok_def)
  ultimately show ?thesis using S(1) by auto
qed

theorem dropped_server_drains_witness:
  "core_left (cs_cores sample_gone 0) = 3 \<and>
   (\<exists>s. (core_step sample_handler 0 ^^ 3) sample_gone s \<and> co_phase (cs_cores s 0) = Stopped \<and>
      map fst (co_answered (cs_cores s 0)) = [sample_raw])"
proof -
  have left: "core_left (cs_cores sample_gone 0) = 3" by (simp add: core_left_def sample_gone_core)
  let ?c1 = "(cs_cores sample_gone 0)\<lparr>co_signals := 0, co_phase := Draining\<rparr>"
  let ?c2 = "?c1\<lparr>co_pending := [], co_answered := [(sample_raw, answer sample_handler ?c1 sample_raw)]\<rparr>"
  let ?s1 = "set_core 0 ?c1 sample_gone" let ?s2 = "set_core 0 ?c2 ?s1" let ?s3 = "set_core 0 (?c2\<lparr>co_phase := Stopped\<rparr>) ?s2"
  have "core_step sample_handler 0 sample_gone ?s1"
    by (rule core_step.signal) (simp add: recv_signal_def sample_gone_core)
  moreover have "core_step sample_handler 0 ?s1 ?s2"
    by (rule core_step.answer [where k = 0]) (simp add: answer_request_def sample_gone_core new_core_def)
  moreover have "core_step sample_handler 0 ?s2 ?s3"
    by (rule core_step.ends) (simp add: end_listener_def)
  ultimately have steps: "(core_step sample_handler 0 ^^ 3) sample_gone ?s3"
    unfolding numeral_3_eq_3 relpowp.simps by blast
  have "0 < hs_next (cs_table sample_gone)" "0 \<notin> ran (hs_actors (cs_table sample_gone))" by (simp_all add: sample_gone_core)
  from dropped_server_drains [OF sample_cores_reachable(2) this steps] left
  have "co_phase (cs_cores ?s3 0) = Stopped" "mset (map fst (co_answered (cs_cores ?s3 0))) = {#sample_raw#}"
    by (simp_all add: sample_gone_core)
  with left steps show ?thesis by (metis mset_single_iff)
qed

lemma listening_address_refused:
  assumes "co_phase (cs_cores s n) = Listening" "address (co_settings (cs_cores s n)) = Some addr" "port_of addr \<noteq> 0"
    and "bind_law s try_bind" "load_settings env (ld_values ld) = Ok settings" "address settings = Some addr"
  shows "\<not> is_ok (fst (put_core env try_bind lattice ld s)) \<and> snd (put_core env try_bind lattice ld s) = s"
proof (cases rule: put_core_cases [of env ld try_bind lattice s])
  case (linked settings')
  have "\<exists>e. try_bind addr = Inl e" using assms(1-4) by (auto simp: bind_law_def listens_on_def)
  with linked(1,2) assms(5,6) show ?thesis by (auto simp: server_start_def rbind_Ok_iff split: if_splits)
qed simp

lemma core_settings_kept [simp]:
  "co_settings (drop_core c) = co_settings c" "co_settings (begin_shutdown c) = co_settings c"
  "co_phase (drop_core c) = co_phase c" "co_phase (begin_shutdown c) = co_phase c"
  by (simp_all add: drop_core_def begin_shutdown_def)

text \<open>C18: a link cannot be renewed on its own address: put-link starts the new server before it drops the old one,
  so linking an actor again whose address stays the same fails and the old server stays with its old settings;
  and right after the link was deleted it still fails, until the old listener has taken its signal.\<close>
theorem relink_same_address_fails:
  assumes "cores_reachable env henv lattice s" and "hs_actors (cs_table s) a = Some n"
    and "address (co_settings (cs_cores s n)) = Some addr" and "port_of addr \<noteq> 0"
    and "load_settings env (ld_values ld) = Ok settings" and "address settings = Some addr"
    and "bind_law s try_bind" and "bind_law (delete_core a s) try_bind'"
  shows "\<not> is_ok (fst (put_core env try_bind lattice ld s)) \<and> snd (put_core env try_bind lattice ld s) = s \<and>
     \<not> is_ok (fst (put_core env try_bind' lattice ld (delete_core a s))) \<and>
     snd (put_core env try_bind' lattice ld (delete_core a s)) = delete_core a s"
proof -
  have inv: "cores_inv henv s" by (rule cores_reachable_inv [OF assms(1)])
  have "in_table (cs_table s) n" using assms(2) by (auto simp: in_table_def ran_def)
  then have on: "co_phase (cs_cores s n) = Listening"
    using cores_invD(3) [OF inv cores_invD(5) [OF inv assms(2)]] by (simp add: core_fits_def)
  have "cs_cores (delete_core a s) n = drop_core (begin_shutdown (cs_cores s n))" using assms(2) by (simp add: delete_core_def)
  with on assms(3) have "co_phase (cs_cores (delete_core a s) n) = Listening"
    "address (co_settings (cs_cores (delete_core a s) n)) = Some addr" by simp_all
  from listening_address_refused [OF this assms(4,8,5,6)] listening_address_refused [OF on assms(3,4,7,5,6)]
  show ?thesis by blast
qed

theorem relink_same_address_fails_witness:
  "\<not> is_ok (fst (put_core sample_env (\<lambda>_. Inl ''address in use'') ''default'' sample_link sample_busy)) \<and>
   \<not> is_ok (fst (put_core sample_env (\<lambda>_. Inl ''address in use'') ''default'' sample_link sample_gone))"
proof -
  have a: "hs_actors (cs_table sample_busy) ''A'' = Some 0" by (simp add: sample_busy_core)
  have ad: "address (co_settings (cs_cores sample_busy 0)) = Some (SockV4 127 0 0 1 8080)" "address sample_settings = Some (SockV4 127 0 0 1 8080)"
    by (simp_all add: sample_busy_core new_core_def sample_settings_def)
  have l: "load_settings sample_env (ld_values sample_link) = Ok sample_settings"
    using sample_load by (simp add: sample_link_def)
  have b: "bind_law s (\<lambda>_. Inl ''address in use'')" for s by (simp add: bind_law_def)
  have "port_of (SockV4 127 0 0 1 8080) \<noteq> 0" by simp
  from relink_same_address_fails [OF sample_cores_reachable(1) a ad(1) this l ad(2) b b]
  show ?thesis unfolding sample_gone_def by blast
qed

end
