(* ===== verification/Httpclient.thy ===== *)
theory Httpclient
  imports Http_Headers
begin

text \<open>
  \<open>httpclient/src/main.rs\<close>: requests of actors are forwarded to remote servers. The provider keeps
  no state and no links. The HTTP client is a parameter: \<open>'m\<close> is the type of methods, \<open>'s\<close> the state
  of the world outside. A response is its status, its headers and what receiving its body gives.
\<close>

record client_request =
  cq_method :: string
  cq_url :: string
  cq_headers :: "(string \<times> string list) list"
  cq_body :: bytes

record client_response =
  cp_status_code :: u16
  cp_header :: "string \<rightharpoonup> string list"
  cp_body :: bytes

record ('m, 's) client_env =
  hc_headers :: header_env
  hc_method :: "string \<Rightarrow> string + 'm"
  hc_send :: "'m \<Rightarrow> string \<Rightarrow> header_map \<Rightarrow> bytes \<Rightarrow> 's \<Rightarrow> (string + u16 \<times> header_map \<times> (string + bytes)) \<times> 's"

definition client_request_headers :: "header_env \<Rightarrow> (string \<times> string list) list \<Rightarrow> header_map \<Rightarrow> header_map" where
  "client_request_headers env header map0 =
     fold (\<lambda>(k, vals) m. case hn_from_bytes env k of
              None \<Rightarrow> m
            | Some name \<Rightarrow> append_values env name vals m) header map0"

definition client_response_headers :: "header_env \<Rightarrow> header_map \<Rightarrow> (string \<rightharpoonup> string list)" where
  "client_response_headers env headers =
     fold (\<lambda>k hmap. let vals = List.map_filter (hv_to_str env) (hdr_get_all headers k)
                     in if vals \<noteq> [] then hmap(k \<mapsto> vals) else hmap)
       (map fst headers) Map.empty"

definition request_httpclient ::
  "('m, 's) client_env \<Rightarrow> client_request \<Rightarrow> 's \<Rightarrow> client_response rpc_result \<times> 's" where
  "request_httpclient env req s =
     (let headers = client_request_headers (hc_headers env) (cq_headers req) [] in
      early (map_err (\<lambda>e. InvalidParameter (''method: '' @ cq_method req @ '':'' @ e)) (hc_method env (cq_method req))) s (\<lambda>m.
        case hc_send env m (cq_url req) headers (cq_body req) s of
          (Inl e, s') \<Rightarrow> (Err (Other (''sending request: '' @ e)), s')
        | (Inr (status, rheaders, body), s') \<Rightarrow>
            early (map_err (\<lambda>e. Other (''receiving response body: '' @ e)) body) s' (\<lambda>b.
              (Ok \<lparr>cp_status_code = status, cp_header = client_response_headers (hc_headers env) rheaders, cp_body = b\<rparr>, s'))))"

lemma client_request_headers_get_all:
  "hdr_get_all (client_request_headers env header m) n =
     hdr_get_all m n @ concat (map (\<lambda>(k, vals). if hn_from_bytes env k = Some n
       then List.map_filter (hv_try_from env) vals else []) header)"
proof (induction header arbitrary: m)
  case (Cons kv header)
  obtain k vals where kv: "kv = (k, vals)" by (cases kv)
  have "client_request_headers env (kv # header) m = client_request_headers env header
      (case hn_from_bytes env k of None \<Rightarrow> m | Some name \<Rightarrow> append_values env name vals m)"
    by (simp add: client_request_headers_def kv)
  with Cons kv show ?case by (auto simp: hdr_get_all_append_values split: option.splits)
qed (simp add: client_request_headers_def)

text \<open>C21: a request with a valid method is sent once, with the url and body as given and, per header name,
  the valid values of all entries of that name in order; whatever the status of the response, it
  is returned with its body and, per header name, the values that are readable text. A request
  with an invalid method is refused and nothing is sent.\<close>
theorem httpclient_forwards:
  "case hc_method env (cq_method req) of
     Inl e \<Rightarrow> request_httpclient env req s = (Err (InvalidParameter (''method: '' @ cq_method req @ '':'' @ e)), s)
   | Inr m \<Rightarrow> \<exists>sent. (\<forall>n. hdr_get_all sent n = concat (map (\<lambda>(k, vals). if hn_from_bytes (hc_headers env) k = Some n
         then List.map_filter (hv_try_from (hc_headers env)) vals else []) (cq_headers req))) \<and>
       request_httpclient env req s =
         (case hc_send env m (cq_url req) sent (cq_body req) s of
            (Inl e, s') \<Rightarrow> (Err (Other (''sending request: '' @ e)), s')
          | (Inr (status, headers, Inl e), s') \<Rightarrow> (Err (Other (''receiving response body: '' @ e)), s')
          | (Inr (status, headers, Inr b), s') \<Rightarrow>
              (Ok \<lparr>cp_status_code = status,
                   cp_header = (\<lambda>k. let vs = List.map_filter (hv_to_str (hc_headers env)) (hdr_get_all headers k)
                                    in if vs = [] then None else Some vs), cp_body = b\<rparr>, s'))"
proof (cases "hc_method env (cq_method req)")
  case (Inl e)
  then show ?thesis by (simp add: request_httpclient_def Let_def)
next
  case (Inr m)
  let ?sent = "client_request_headers (hc_headers env) (cq_headers req) []"
  have resp: "client_response_headers e h = (\<lambda>k. let vs = List.map_filter (hv_to_str e) (hdr_get_all h k)
      in if vs = [] then None else Some vs)" for e h
    unfolding client_response_headers_def by (rule ext) (rule collect_readable)
  show ?thesis
    using Inr client_request_headers_get_all [of "hc_headers env" "cq_headers req" "[]"]
    by (auto intro!: exI [of _ ?sent] simp: request_httpclient_def resp Let_def split: sum.splits prod.splits)
qed

end
