(* ===== verification/Blobstore_Interface.thy ===== *)
theory Blobstore_Interface
  imports Prelude
begin

text \<open>
  The data of the blobstore interface that both blobstore providers exchange with actors: chunks,
  object and container metadata, requests and responses.
\<close>

record timestamp =
  ts_sec :: int
  ts_nsec :: u32

record chunk =
  c_object_id :: string
  c_container_id :: string
  c_bytes :: bytes
  c_offset :: u64
  c_is_last :: bool

record container_object =
  co_container_id :: string
  co_object_id :: string

record container_metadata =
  cm_container_id :: string
  cm_created_at :: "timestamp option"

record object_metadata =
  om_container_id :: string
  om_object_id :: string
  om_last_modified :: "timestamp option"
  om_content_type :: "string option"
  om_content_encoding :: "string option"
  om_content_length :: u64

record item_result =
  ir_key :: string
  ir_error :: "string option"
  ir_success :: bool

record get_object_request =
  go_container_id :: string
  go_object_id :: string
  go_range_start :: "u64 option"
  go_range_end :: "u64 option"

record get_object_response =
  gr_success :: bool
  gr_error :: "string option"
  gr_initial_chunk :: "chunk option"
  gr_content_length :: u64
  gr_content_type :: "string option"
  gr_content_encoding :: "string option"

record put_object_response =
  pr_stream_id :: "string option"

record put_chunk_request =
  pc_chunk :: chunk
  pc_stream_id :: "string option"
  pc_cancel_and_remove :: bool

record list_objects_request =
  lo_container_id :: string
  lo_start_with :: "string option"
  lo_continuation :: "string option"
  lo_max_items :: "u32 option"

record list_objects_response =
  lr_objects :: "object_metadata list"
  lr_is_last :: bool
  lr_continuation :: "string option"

record remove_objects_request =
  ro_container_id :: string
  ro_objects :: "string list"

text \<open>The calls of the interface and their replies.\<close>

datatype blob_call =
    ContainerExists string
  | CreateContainer string
  | GetContainerInfo string
  | GetObjectInfo container_object
  | ListContainers
  | RemoveContainers "string list"
  | ObjectExists container_object
  | ListObjects list_objects_request
  | RemoveObjects remove_objects_request
  | PutObject chunk
  | GetObject get_object_request
  | PutChunk put_chunk_request

datatype blob_reply =
    RBool bool
  | RUnit
  | RContainer container_metadata
  | RContainers "container_metadata list"
  | RObject object_metadata
  | RItems "item_result list"
  | RList list_objects_response
  | RPut put_object_response
  | RGet get_object_response

text \<open>A sequence of chunks covers consecutive offsets of an object, starting at \<open>off\<close>.\<close>

fun contiguous :: "u64 \<Rightarrow> chunk list \<Rightarrow> bool" where
  "contiguous off [] = True"
| "contiguous off (c # cs) = (c_offset c = off \<and> contiguous (off + of_nat (length (c_bytes c))) cs)"

definition total_bytes :: "chunk list \<Rightarrow> bytes" where
  "total_bytes cs = concat (map c_bytes cs)"

lemma total_bytes_simps [simp]:
  "total_bytes [] = []" "total_bytes (c # cs) = c_bytes c @ total_bytes cs"
  "total_bytes (cs @ ds) = total_bytes cs @ total_bytes ds"
  by (simp_all add: total_bytes_def)

lemma contiguous_append:
  "contiguous off (cs @ ds) \<longleftrightarrow>
     contiguous off cs \<and> contiguous (off + of_nat (length (total_bytes cs))) ds"
  by (induction cs arbitrary: off) (auto simp: add.assoc)

end
