(* ===== verification/Aws_Config.thy ===== *)
theory Aws_Config
  imports Prelude
begin

text \<open>
  Configuration of an AWS client from link values, an optional env file and the process
  environment. The crates \<open>blobstore-s3\<close> and \<open>sqldb-dynamodb\<close> have the same code for this in their
  \<open>config.rs\<close>; it is modelled once, over the record of the settings both have, which the S3 crate
  extends with bucket aliases.
\<close>

record sts_config =
  sts_role :: string
  sts_region :: "string option"
  sts_session :: "string option"
  sts_external_id :: "string option"

record aws_settings =
  access_key_id :: "string option"
  secret_access_key :: "string option"
  session_token :: "string option"
  region :: "string option"
  max_attempts :: "u32 option"
  sts_cfg :: "sts_config option"
  endpoint :: "string option"

text \<open>
  Decoders and the env file reader. \<open>ae_parse_env\<close> is the list of assignments in an env file;
  loading the file sets those variables for the whole process.
\<close>

record 'c aws_env =
  ae_b64_decode :: "string \<Rightarrow> string + bytes"
  ae_from_slice :: "bytes \<Rightarrow> string + 'c"
  ae_from_str :: "string \<Rightarrow> string + 'c"
  ae_read_to_string :: "string \<Rightarrow> string + string"
  ae_parse_env :: "string \<Rightarrow> (string \<times> string) list"

type_synonym env_vars = "string \<rightharpoonup> string"

definition set_vars :: "(string \<times> string) list \<Rightarrow> env_vars \<Rightarrow> env_vars" where
  "set_vars kvs vars = fold (\<lambda>(k, v) m. m(k \<mapsto> v)) kvs vars"

definition base_config :: "'c aws_env \<Rightarrow> 'c \<Rightarrow> link_values \<Rightarrow> 'c rpc_result" where
  "base_config env dflt values =
     (case hm_get values ''config_b64'' of
        Some b64 \<Rightarrow>
          rbind (map_err (\<lambda>e. InvalidParameter (''invalid base64 encoding: '' @ e)) (ae_b64_decode env b64))
            (\<lambda>bytes. map_err (\<lambda>e. InvalidParameter (''corrupt config_b64: '' @ e)) (ae_from_slice env bytes))
      | None \<Rightarrow> (case hm_get values ''config_json'' of
          Some cfg \<Rightarrow> map_err (\<lambda>e. InvalidParameter (''corrupt config_json: '' @ e)) (ae_from_str env cfg)
        | None \<Rightarrow> Ok dflt))"

definition load_env_file :: "'c aws_env \<Rightarrow> link_values \<Rightarrow> env_vars \<Rightarrow> env_vars rpc_result" where
  "load_env_file env values vars =
     (case hm_get values ''env'' of
        None \<Rightarrow> Ok vars
      | Some f \<Rightarrow> rbind (map_err (\<lambda>e. ProviderInit (''reading env file '' @ quoted f @ '': '' @ e))
                           (ae_read_to_string env f))
                    (\<lambda>data. Ok (set_vars (ae_parse_env env data) vars)))"

definition apply_sts_env :: "env_vars \<Rightarrow> sts_config option \<Rightarrow> sts_config option" where
  "apply_sts_env vars sts =
     (case vars ''AWS_ROLE_ARN'' of
        None \<Rightarrow> sts
      | Some arn \<Rightarrow>
          (let old = unwrap_or sts \<lparr>sts_role = [], sts_region = None, sts_session = None, sts_external_id = None\<rparr>
           in Some \<lparr>sts_role = arn,
                    sts_region = or_else (vars ''AWS_ROLE_REGION'') (sts_region old),
                    sts_session = or_else (vars ''AWS_ROLE_SESSION_NAME'') (sts_session old),
                    sts_external_id = or_else (vars ''AWS_ROLE_EXTERNAL_ID'') (sts_external_id old)\<rparr>))"

definition from_values ::
  "('a aws_settings_scheme) aws_env \<Rightarrow> 'a aws_settings_scheme \<Rightarrow> link_values \<Rightarrow> env_vars \<Rightarrow>
   'a aws_settings_scheme rpc_result \<times> env_vars" where
  "from_values env dflt values vars =
     (case base_config env dflt values of
        Err e \<Rightarrow> (Err e, vars)
      | Panic \<Rightarrow> (Panic, vars)
      | Ok config \<Rightarrow>
          (case load_env_file env values vars of
             Err e \<Rightarrow> (Err e, vars)
           | Panic \<Rightarrow> (Panic, vars)
           | Ok vars' \<Rightarrow>
               (Ok (config\<lparr>sts_cfg := apply_sts_env vars' (sts_cfg config),
                           endpoint := or_else (vars' ''AWS_ENDPOINT'') (endpoint config)\<rparr>), vars')))"

section \<open>The client configuration\<close>

datatype credentials =
    StaticKeys string string "string option"
  | DefaultChain "string option"
  | AssumeRole string string "string option" "string option" credentials

record aws_client_config =
  ac_region :: "string option"
  ac_credentials :: credentials
  ac_max_attempts :: "u32 option"
  ac_endpoint :: "string option"

text \<open>
  \<open>valid_endpoint\<close> says which endpoints parse as a URI; \<open>default_region\<close> is what the SDK's default
  chain finds. \<open>ac_max_attempts = None\<close> is the SDK's standard retry configuration.
\<close>

definition base_credentials :: "string option \<Rightarrow> 'a aws_settings_scheme \<Rightarrow> credentials" where
  "base_credentials rgn c =
     (case (access_key_id c, secret_access_key c) of
        (Some k, Some s) \<Rightarrow> StaticKeys k s (session_token c)
      | _ \<Rightarrow> DefaultChain rgn)"

definition configure_aws ::
  "string \<Rightarrow> (string \<Rightarrow> bool) \<Rightarrow> string option \<Rightarrow> 'a aws_settings_scheme \<Rightarrow> aws_client_config" where
  "configure_aws dflt_session valid_endpoint default_region c =
     (let rgn = (case region c of Some r \<Rightarrow> Some r | None \<Rightarrow> default_region);
          cred = base_credentials rgn c;
          cred' = (case sts_cfg c of
             None \<Rightarrow> cred
           | Some sts \<Rightarrow> AssumeRole (sts_role sts) (unwrap_or (sts_session sts) dflt_session)
                          (sts_region sts) (sts_external_id sts) cred);
          ep = (case endpoint c of
             None \<Rightarrow> None
           | Some e \<Rightarrow> (if valid_endpoint e then Some e else None))
      in \<lparr>ac_region = rgn, ac_credentials = cred', ac_max_attempts = max_attempts c, ac_endpoint = ep\<rparr>)"

section \<open>Lemmas\<close>

text \<open>Whether a configuration is accepted does not depend on the process environment.\<close>

definition config_accepted :: "'c aws_env \<Rightarrow> link_values \<Rightarrow> bool" where
  "config_accepted env values \<longleftrightarrow>
     (case hm_get values ''config_b64'' of
        Some b64 \<Rightarrow> (case ae_b64_decode env b64 of
            Inl _ \<Rightarrow> False
          | Inr bytes \<Rightarrow> (case ae_from_slice env bytes of Inl _ \<Rightarrow> False | Inr _ \<Rightarrow> True))
      | None \<Rightarrow> (case hm_get values ''config_json'' of
          Some cfg \<Rightarrow> (case ae_from_str env cfg of Inl _ \<Rightarrow> False | Inr _ \<Rightarrow> True)
        | None \<Rightarrow> True)) \<and>
     (case hm_get values ''env'' of
        None \<Rightarrow> True
      | Some f \<Rightarrow> (case ae_read_to_string env f of Inl _ \<Rightarrow> False | Inr _ \<Rightarrow> True))"

lemma base_config_not_Panic [simp]: "base_config env d v \<noteq> Panic"
  by (auto simp: base_config_def rbind_Panic_iff split: option.splits)

lemma load_env_file_not_Panic [simp]: "load_env_file env v vars \<noteq> Panic"
  by (auto simp: load_env_file_def rbind_Panic_iff split: option.splits)

lemma from_values_Ok_iff:
  "(\<exists>c. fst (from_values env d v vars) = Ok c) \<longleftrightarrow> config_accepted env v"
  by (auto simp: from_values_def config_accepted_def base_config_def load_env_file_def
      split: option.splits sum.splits rres.splits)

lemma from_values_not_Panic: "fst (from_values env d v vars) \<noteq> Panic"
  by (auto simp: from_values_def split: rres.splits)

end
