(* ===== verification/Blobstore_S3.thy ===== *)
theory Blobstore_S3
  imports Blobstore_Interface Link_Registry Aws_Config "HOL-Library.AList"
begin

text \<open>
  \<open>blobstore-s3/src\<close>: configuration from link values and environment variables (\<open>config.rs\<close>), the
  storage client with its bucket aliases, range arithmetic and chunked streaming (\<open>lib.rs\<close>), and
  the provider's table of clients (\<open>main.rs\<close>).

  The object store and the receiving actor are a state \<open>'s\<close> and the operations of \<open>s3_ops\<close> on it.
\<close>

section \<open>Configuration\<close>

record storage_config = aws_settings +
  aliases :: "(string \<times> string) list"

definition default_storage_config :: storage_config where
  "default_storage_config = \<lparr>access_key_id = None, secret_access_key = None, session_token = None,
     region = None, max_attempts = None, sts_cfg = None, endpoint = None, aliases = []\<rparr>"

type_synonym storage_env = "storage_config aws_env"

definition from_values_s3 ::
  "storage_env \<Rightarrow> link_values \<Rightarrow> env_vars \<Rightarrow> storage_config rpc_result \<times> env_vars" where
  "from_values_s3 env values vars = from_values env default_storage_config values vars"

definition DEFAULT_STS_SESSION_S3 :: string where
  "DEFAULT_STS_SESSION_S3 = ''blobstore_s3_provider''"

definition configure_aws_s3 :: "(string \<Rightarrow> bool) \<Rightarrow> string option \<Rightarrow> storage_config \<Rightarrow> aws_client_config" where
  "configure_aws_s3 = configure_aws DEFAULT_STS_SESSION_S3"

section \<open>Aliases\<close>

definition ALIAS_PREFIX :: string where
  "ALIAS_PREFIX = ''alias_''"

text \<open>The aliases of a new client: those of the configuration, then the link values' own.\<close>

definition link_aliases :: "link_values \<Rightarrow> (string \<times> string) list \<Rightarrow> (string \<times> string) list" where
  "link_aliases values als =
     fold (\<lambda>(k, v) m. case strip_prefix_str ALIAS_PREFIX k of
              Some alias \<Rightarrow> (if alias = [] \<or> v = [] then m else AList.update alias v m)
            | None \<Rightarrow> m) values als"

record storage_client =
  sc_config :: storage_config
  sc_ld :: link_definition
  sc_aliases :: "(string \<times> string) list"

definition new_storage_client :: "storage_config \<Rightarrow> link_definition \<Rightarrow> storage_client" where
  "new_storage_client config ld = \<lparr>sc_config = config, sc_ld = ld, sc_aliases = link_aliases (ld_values ld) (aliases config)\<rparr>"

definition unalias :: "storage_client \<Rightarrow> string \<Rightarrow> string" where
  "unalias cl bucket_or_alias =
     (let name = unwrap_or (strip_prefix_str ALIAS_PREFIX bucket_or_alias) bucket_or_alias
      in unwrap_or (hm_get (sc_aliases cl) name) name)"

definition MAX_CHUNK_SIZE :: nat where
  "MAX_CHUNK_SIZE = 500 * 1024 * 1024"

text \<open>\<open>max_chunk_size\<close>: the environment variable of that name if it is a 32-bit number.\<close>

definition max_chunk_size :: "env_vars \<Rightarrow> nat" where
  "max_chunk_size vars =
     unwrap_or (map_option unat (Option.bind (vars ''MAX_CHUNK_SIZE'') parse_u32)) MAX_CHUNK_SIZE"

section \<open>The store and the actor\<close>

text \<open>SDK errors with the text they display: not found, any other service error, any other error.\<close>

datatype sdk_error = NotFoundErr string | ServiceErr string | OtherErr string

primrec sdk_text :: "sdk_error \<Rightarrow> string" where
  "sdk_text (NotFoundErr s) = s"
| "sdk_text (ServiceErr s) = s"
| "sdk_text (OtherErr s) = s"

record head_object_output =
  ho_last_modified :: "(int \<times> u32) option"
  ho_content_length :: u64
  ho_content_type :: "string option"
  ho_content_encoding :: "string option"

record get_object_output =
  oo_content_length :: u64
  oo_body :: "(string + bytes) list"
  oo_content_type :: "string option"
  oo_content_encoding :: "string option"

record s3_object =
  so_key :: "string option"
  so_last_modified :: "(int \<times> u32) option"
  so_size :: u64

record list_query =
  lq_bucket :: string
  lq_max_keys :: nat
  lq_continuation_token :: "string option"
  lq_start_after :: "string option"

record list_output =
  lout_contents :: "s3_object list option"
  lout_is_truncated :: bool
  lout_next_continuation_token :: "string option"

record delete_error =
  de_key :: "string option"
  de_message :: "string option"

record 's s3_ops =
  op_head_bucket :: "string \<Rightarrow> 's \<Rightarrow> sdk_error + unit"
  op_head_object :: "string \<Rightarrow> string \<Rightarrow> 's \<Rightarrow> sdk_error + head_object_output"
  op_get_object :: "string \<Rightarrow> string \<Rightarrow> string option \<Rightarrow> 's \<Rightarrow> sdk_error + get_object_output"
  op_list_buckets :: "'s \<Rightarrow> sdk_error + (string option \<times> (int \<times> u32) option) list option"
  op_list_objects :: "list_query \<Rightarrow> 's \<Rightarrow> sdk_error + list_output"
  op_create_bucket :: "string \<Rightarrow> 's \<Rightarrow> (sdk_error + unit) \<times> 's"
  op_delete_bucket :: "string \<Rightarrow> 's \<Rightarrow> (sdk_error + unit) \<times> 's"
  op_put_object :: "string \<Rightarrow> string \<Rightarrow> bytes \<Rightarrow> 's \<Rightarrow> (sdk_error + unit) \<times> 's"
  op_delete_objects :: "string \<Rightarrow> string list \<Rightarrow> 's \<Rightarrow> (sdk_error + delete_error list option) \<times> 's"
  op_receive_chunk :: "chunk \<Rightarrow> 's \<Rightarrow> (string + unit) \<times> 's"
  op_timestamp :: "int \<times> u32 \<Rightarrow> timestamp option"

definition to_timestamp :: "'s s3_ops \<Rightarrow> (int \<times> u32) option \<Rightarrow> timestamp option" where
  "to_timestamp ops dt = (case dt of Some d \<Rightarrow> op_timestamp ops d | None \<Rightarrow> None)"

definition bucket_char :: "char \<Rightarrow> bool" where
  "bucket_char c \<longleftrightarrow> c = CHR ''.'' \<or> c = CHR ''-'' \<or> code_in 97 122 c \<or> code_in 48 57 c"

definition letter_or_number :: "char \<Rightarrow> bool" where
  "letter_or_number c \<longleftrightarrow> code_in 97 122 c \<or> code_in 48 57 c"

definition validate_bucket_name :: "string \<Rightarrow> (string, unit) rres" where
  "validate_bucket_name bucket =
     (if \<not> (3 \<le> length bucket \<and> length bucket \<le> 63)
      then Err ''bucket name must be between 3(min) and 63(max) characters''
      else if \<not> list_all bucket_char bucket
      then Err (''bucket names can only contain lowercase letters, numbers, dots('' @ quoted ''.'' @
                '') and hyphens('' @ quoted ''-'' @ '')'')
      else if \<not> letter_or_number (hd bucket)
      then Err ''bucket names must begin with a letter or number''
      else if \<not> letter_or_number (last bucket)
      then Err ''bucket names must end with a letter or number''
      else Ok ())"

definition to_range_header :: "u64 option \<Rightarrow> u64 option \<Rightarrow> string option" where
  "to_range_header start end' =
     (case (start, end') of
        (Some s, Some e) \<Rightarrow>
          (if s \<le> e then Some (''bytes='' @ show_nat (unat s) @ ''-'' @ show_nat (unat e)) else None)
      | (Some s, None) \<Rightarrow> Some (''bytes='' @ show_nat (unat s) @ ''-'')
      | (None, Some e) \<Rightarrow> Some (''bytes=0-'' @ show_nat (unat e))
      | (None, None) \<Rightarrow> None)"

section \<open>Containers\<close>

definition container_exists_s3 :: "'s s3_ops \<Rightarrow> storage_client \<Rightarrow> string \<Rightarrow> 's \<Rightarrow> bool rpc_result" where
  "container_exists_s3 ops cl arg s =
     (case op_head_bucket ops (unalias cl arg) s of
        Inr _ \<Rightarrow> Ok True
      | Inl (NotFoundErr _) \<Rightarrow> Ok False
      | Inl e \<Rightarrow> Err (Other (sdk_text e)))"

definition create_container_s3 :: "'s s3_ops \<Rightarrow> storage_client \<Rightarrow> string \<Rightarrow> 's \<Rightarrow> unit rpc_result \<times> 's" where
  "create_container_s3 ops cl arg s =
     (let bucket_id = unalias cl arg in
      if container_exists_s3 ops cl bucket_id s = Ok True then (Ok (), s)
      else (case validate_bucket_name bucket_id of
        Err msg \<Rightarrow> (Err (InvalidParameter (''Invalid bucket name Bucket('' @ bucket_id @ ''): '' @ msg)), s)
      | Panic \<Rightarrow> (Panic, s)
      | Ok _ \<Rightarrow> (case op_create_bucket ops bucket_id s of
          (Inr _, s') \<Rightarrow> (Ok (), s')
        | (Inl e, s') \<Rightarrow> (Err (Other (sdk_text e)), s'))))"

definition get_container_info_s3 ::
  "'s s3_ops \<Rightarrow> storage_client \<Rightarrow> string \<Rightarrow> 's \<Rightarrow> container_metadata rpc_result" where
  "get_container_info_s3 ops cl arg s =
     (let bucket_id = unalias cl arg in
      case op_head_bucket ops bucket_id s of
        Inr _ \<Rightarrow> Ok \<lparr>cm_container_id = bucket_id, cm_created_at = None\<rparr>
      | Inl (NotFoundErr _) \<Rightarrow> Err (Other (''Bucket('' @ bucket_id @ '')not found''))
      | Inl e \<Rightarrow> Err (Other (sdk_text e)))"

definition list_containers_s3 :: "'s s3_ops \<Rightarrow> 's \<Rightarrow> container_metadata list rpc_result" where
  "list_containers_s3 ops s =
     (case op_list_buckets ops s of
        Inr (Some bs) \<Rightarrow> Ok (map (\<lambda>(name, created).
           \<lparr>cm_container_id = unwrap_or name [], cm_created_at = to_timestamp ops created\<rparr>) bs)
      | Inr None \<Rightarrow> Ok []
      | Inl e \<Rightarrow> Err (Other (sdk_text e)))"

fun remove_containers_s3 ::
  "'s s3_ops \<Rightarrow> storage_client \<Rightarrow> string list \<Rightarrow> item_result list \<Rightarrow> 's \<Rightarrow>
   item_result list rpc_result \<times> 's" where
  "remove_containers_s3 ops cl [] results s = (Ok results, s)"
| "remove_containers_s3 ops cl (b # bs) results s =
     (let bucket = unalias cl b in
      case op_delete_bucket ops bucket s of
        (Inr _, s') \<Rightarrow> remove_containers_s3 ops cl bs results s'
      | (Inl (OtherErr e), s') \<Rightarrow> (Err (Other (''unexpected error: '' @ e)), s')
      | (Inl e, s') \<Rightarrow> remove_containers_s3 ops cl bs
          (results @ [\<lparr>ir_key = bucket, ir_error = Some (sdk_text e), ir_success = False\<rparr>]) s')"

section \<open>Objects\<close>

definition object_exists_s3 :: "'s s3_ops \<Rightarrow> storage_client \<Rightarrow> container_object \<Rightarrow> 's \<Rightarrow> bool rpc_result" where
  "object_exists_s3 ops cl arg s =
     (case op_head_object ops (unalias cl (co_container_id arg)) (co_object_id arg) s of
        Inr _ \<Rightarrow> Ok True
      | Inl (NotFoundErr _) \<Rightarrow> Ok False
      | Inl e \<Rightarrow> Err (Other (sdk_text e)))"

text \<open>\<open>get_object_metadata\<close>; \<open>get_object_info\<close> is the same code on the fields of its argument.\<close>

definition get_object_metadata ::
  "'s s3_ops \<Rightarrow> storage_client \<Rightarrow> string \<Rightarrow> string \<Rightarrow> 's \<Rightarrow> object_metadata rpc_result" where
  "get_object_metadata ops cl bucket object_id s =
     (let bucket_id = unalias cl bucket in
      case op_head_object ops bucket_id object_id s of
        Inr h \<Rightarrow> Ok \<lparr>om_container_id = bucket_id, om_object_id = object_id,
                     om_last_modified = to_timestamp ops (ho_last_modified h),
                     om_content_type = ho_content_type h, om_content_encoding = ho_content_encoding h,
                     om_content_length = ho_content_length h\<rparr>
      | Inl (NotFoundErr _) \<Rightarrow>
          Err (Other (''Not found: Bucket('' @ bucket_id @ '') Object('' @ object_id @ '')''))
      | Inl e \<Rightarrow> Err (Other (''get_object_metadata for Bucket('' @ bucket_id @ '') Object('' @ object_id @
                            ''): '' @ sdk_text e)))"

definition get_object_info_s3 ::
  "'s s3_ops \<Rightarrow> storage_client \<Rightarrow> container_object \<Rightarrow> 's \<Rightarrow> object_metadata rpc_result" where
  "get_object_info_s3 ops cl arg s = get_object_metadata ops cl (co_container_id arg) (co_object_id arg) s"

definition list_objects_s3 ::
  "'s s3_ops \<Rightarrow> storage_client \<Rightarrow> list_objects_request \<Rightarrow> 's \<Rightarrow> list_objects_response rpc_result" where
  "list_objects_s3 ops cl arg s =
     (let bucket_id = unalias cl (lo_container_id arg) in
      rbind (case lo_max_items arg of
               Some n \<Rightarrow> (if unat n > 2 ^ 31 - 1 then Err (InvalidParameter ''max_items too large'')
                          else Ok (unat n))
             | None \<Rightarrow> Ok 1000)
        (\<lambda>max_keys.
           let q = \<lparr>lq_bucket = bucket_id, lq_max_keys = max_keys,
                    lq_continuation_token = lo_continuation arg,
                    lq_start_after = (if lo_continuation arg = None then lo_start_with arg else None)\<rparr>
           in case op_list_objects ops q s of
                Inl e \<Rightarrow> Err (Other (sdk_text e))
              | Inr l \<Rightarrow> Ok \<lparr>lr_objects = map (\<lambda>o'.
                    \<lparr>om_container_id = bucket_id, om_object_id = unwrap_or (so_key o') [],
                     om_last_modified = to_timestamp ops (so_last_modified o'), om_content_type = None,
                     om_content_encoding = None, om_content_length = so_size o'\<rparr>)
                    (unwrap_or (lout_contents l) []),
                  lr_is_last = (\<not> lout_is_truncated l),
                  lr_continuation = lout_next_continuation_token l\<rparr>))"

definition remove_objects_s3 ::
  "'s s3_ops \<Rightarrow> storage_client \<Rightarrow> remove_objects_request \<Rightarrow> 's \<Rightarrow> item_result list rpc_result \<times> 's" where
  "remove_objects_s3 ops cl arg s =
     (case op_delete_objects ops (unalias cl (ro_container_id arg)) (ro_objects arg) s of
        (Inr errors, s') \<Rightarrow>
          (Ok (map (\<lambda>e. \<lparr>ir_key = unwrap_or (de_key e) [], ir_error = de_message e, ir_success = False\<rparr>)
                 (unwrap_or errors [])), s')
      | (Inl e, s') \<Rightarrow> (Err (Other (sdk_text e)), s'))"

definition put_object_s3 ::
  "'s s3_ops \<Rightarrow> storage_client \<Rightarrow> chunk \<Rightarrow> 's \<Rightarrow> put_object_response rpc_result \<times> 's" where
  "put_object_s3 ops cl c s =
     (let bucket_id = unalias cl (c_container_id c) in
      if \<not> c_is_last c then (Err (InvalidParameter ''multipart upload not implemented''), s)
      else if c_offset c \<noteq> 0 then (Err (InvalidParameter ''non-zero offset not supported''), s)
      else if c_bytes c = [] then (Err (InvalidParameter ''cannot put zero-length objects''), s)
      else (case op_put_object ops bucket_id (c_object_id c) (c_bytes c) s of
              (Inr _, s') \<Rightarrow> (Ok \<lparr>pr_stream_id = None\<rparr>, s')
            | (Inl e, s') \<Rightarrow> (Err (Other (sdk_text e)), s')))"

definition put_chunk_s3 :: "put_chunk_request \<Rightarrow> unit rpc_result" where
  "put_chunk_s3 arg = Err NotImplemented"

section \<open>Streaming to the actor\<close>

definition send_chunk_s3 :: "'s s3_ops \<Rightarrow> storage_client \<Rightarrow> chunk \<Rightarrow> 's \<Rightarrow> u64 rpc_result \<times> 's" where
  "send_chunk_s3 ops cl c s =
     (let c' = c\<lparr>c_container_id := unalias cl (c_container_id c)\<rparr> in
      case op_receive_chunk ops c' s of
        (Inl e, s') \<Rightarrow> (Err (Rpc (''sending chunk error: Bucket('' @ c_container_id c' @ '') Object('' @
            c_object_id c' @ '') to Actor('' @ ld_actor_id (sc_ld cl) @ ''): '' @ e)), s')
      | (Inr _, s') \<Rightarrow> (Ok (of_nat (length (c_bytes c'))), s'))"

definition chunk_at ::
  "nat \<Rightarrow> u64 \<Rightarrow> u64 \<Rightarrow> string \<Rightarrow> string \<Rightarrow> bytes \<Rightarrow> nat \<Rightarrow> chunk" where
  "chunk_at mx offset end_range bucket object_id bytes sent =
     (let chunk_len = min mx (length bytes - sent) in
      \<lparr>c_object_id = object_id, c_container_id = bucket, c_bytes = take chunk_len (drop sent bytes),
       c_offset = offset + of_nat sent, c_is_last = (offset + of_nat chunk_len > end_range)\<rparr>)"

text \<open>
  The loop of \<open>stream_bytes\<close>, with \<open>sent\<close> the bytes sent so far. A chunk that counts as zero bytes
  ends it with an error, so every turn makes progress.
\<close>

function stream_loop ::
  "'s s3_ops \<Rightarrow> storage_client \<Rightarrow> nat \<Rightarrow> u64 \<Rightarrow> u64 \<Rightarrow> container_object \<Rightarrow> bytes \<Rightarrow> nat \<Rightarrow> 's \<Rightarrow>
   u64 rpc_result \<times> 's" where
  "stream_loop ops cl mx offset end_range cobj bytes sent s =
     (if sent < length bytes then
        (case send_chunk_s3 ops cl
                (chunk_at mx offset end_range (unalias cl (co_container_id cobj)) (co_object_id cobj) bytes sent) s of
           (Ok n, s') \<Rightarrow>
             (if n = 0 then (Err (InvalidParameter ''sent chunk successfully but actor returned 0 bytes received.''), s')
              else stream_loop ops cl mx offset end_range cobj bytes (sent + unat n) s')
         | (Err e, s') \<Rightarrow> (Err e, s')
         | (Panic, s') \<Rightarrow> (Panic, s'))
      else (Ok (of_nat sent), s))"
  by pat_completeness auto
termination
  by (relation "measure (\<lambda>(ops, cl, mx, offset, end_range, cobj, bytes, sent, s). length bytes - sent)")
    (auto simp: unat_gt_0 intro!: diff_less_mono2)

declare stream_loop.simps [simp del]

definition stream_bytes ::
  "'s s3_ops \<Rightarrow> storage_client \<Rightarrow> env_vars \<Rightarrow> u64 \<Rightarrow> u64 \<Rightarrow> container_object \<Rightarrow> bytes \<Rightarrow> 's \<Rightarrow>
   u64 rpc_result \<times> 's" where
  "stream_bytes ops cl vars offset end_range cobj bytes s =
     stream_loop ops cl (max_chunk_size vars) offset end_range cobj bytes 0 s"

text \<open>The background task of \<open>stream_from_s3\<close>: the excess of the first read, then the stream.\<close>

fun stream_rest ::
  "'s s3_ops \<Rightarrow> storage_client \<Rightarrow> env_vars \<Rightarrow> container_object \<Rightarrow> u64 \<Rightarrow> u64 \<Rightarrow> (string + bytes) list \<Rightarrow> 's \<Rightarrow>
   unit rpc_result \<times> 's" where
  "stream_rest ops cl vars cobj offset end_range (Inr bytes # rest) s =
     (if bytes = [] then (Ok (), s)
      else (case stream_bytes ops cl vars offset end_range cobj bytes s of
              (Ok n, s') \<Rightarrow> (if offset + n > end_range then (Ok (), s')
                             else stream_rest ops cl vars cobj (offset + n) end_range rest s')
            | (Err e, s') \<Rightarrow> (Err e, s')
            | (Panic, s') \<Rightarrow> (Panic, s')))"
| "stream_rest ops cl vars cobj offset end_range (Inl e # rest) s = (Ok (), s)"
| "stream_rest ops cl vars cobj offset end_range [] s = (Ok (), s)"

record stream_task =
  st_object :: container_object
  st_excess :: bytes
  st_offset :: u64
  st_end_range :: u64
  st_stream :: "(string + bytes) list"

definition stream_from_s3 ::
  "'s s3_ops \<Rightarrow> storage_client \<Rightarrow> env_vars \<Rightarrow> stream_task \<Rightarrow> 's \<Rightarrow> unit rpc_result \<times> 's" where
  "stream_from_s3 ops cl vars t s =
     (let cobj = (st_object t)\<lparr>co_container_id := unalias cl (co_container_id (st_object t))\<rparr> in
      if st_excess t \<noteq> [] then
        (case stream_bytes ops cl vars (st_offset t) (st_end_range t) cobj (st_excess t) s of
           (Ok n, s') \<Rightarrow>
             (if st_offset t + n > st_end_range t then (Ok (), s')
              else stream_rest ops cl vars cobj (st_offset t + n) (st_end_range t) (st_stream t) s')
         | (Err e, s') \<Rightarrow> (Err e, s')
         | (Panic, s') \<Rightarrow> (Panic, s'))
      else stream_rest ops cl vars cobj (st_offset t) (st_end_range t) (st_stream t) s)"

definition bytes_requested :: "u64 \<Rightarrow> u64 option \<Rightarrow> u64 option \<Rightarrow> u64" where
  "bytes_requested content_length range_start range_end =
     (case (range_start, range_end) of
        (None, Some e) \<Rightarrow> min content_length (e + 1)
      | (Some s, None) \<Rightarrow> (if s < content_length then content_length - s else 0)
      | (Some s, Some e) \<Rightarrow>
          (if s \<le> e \<and> s < content_length then min content_length (e - s + 1) else 0)
      | (None, None) \<Rightarrow> content_length)"

text \<open>
  \<open>get_object\<close>: the response with the first chunk, and the streaming task that is spawned when
  the first read was short or longer than a chunk may be.
\<close>

definition get_object_s3 ::
  "'s s3_ops \<Rightarrow> storage_client \<Rightarrow> env_vars \<Rightarrow> get_object_request \<Rightarrow> 's \<Rightarrow>
   (get_object_response \<times> stream_task option) rpc_result" where
  "get_object_s3 ops cl vars arg s =
     (let bucket_id = unalias cl (go_container_id arg);
          max_chunk = max_chunk_size vars;
          start = unwrap_or (go_range_start arg) 0
      in rbind (get_object_metadata ops cl bucket_id (go_object_id arg) s) (\<lambda>meta.
         let requested = bytes_requested (om_content_length meta) (go_range_start arg) (go_range_end arg) in
         if requested = 0
         then Ok (\<lparr>gr_success = True, gr_error = None,
                   gr_initial_chunk = Some \<lparr>c_object_id = go_object_id arg, c_container_id = bucket_id,
                     c_bytes = [], c_offset = 0, c_is_last = True\<rparr>,
                   gr_content_length = 0, gr_content_type = om_content_type meta,
                   gr_content_encoding = om_content_encoding meta\<rparr>, None)
         else (case op_get_object ops bucket_id (go_object_id arg)
                      (to_range_header (go_range_start arg) (go_range_end arg)) s of
           Inl e \<Rightarrow> Err (Other (sdk_text e))
         | Inr out \<Rightarrow> (case oo_body out of
             [] \<Rightarrow> Err (Other ''no data received from s3'')
           | Inl e # _ \<Rightarrow> Err (Other e)
           | Inr bytes0 # rest \<Rightarrow>
               (let bytes = (if length bytes0 > max_chunk then take max_chunk bytes0 else bytes0);
                    excess = (if length bytes0 > max_chunk then drop max_chunk bytes0 else []);
                    offset = start + of_nat (length bytes);
                    task = (if of_nat (length bytes0) < requested \<or> length bytes0 > max_chunk
                            then Some \<lparr>st_object = \<lparr>co_container_id = bucket_id, co_object_id = go_object_id arg\<rparr>,
                                       st_excess = excess, st_offset = offset,
                                       st_end_range = offset + requested, st_stream = rest\<rparr>
                            else None)
                in Ok (\<lparr>gr_success = True, gr_error = None,
                        gr_initial_chunk = Some \<lparr>c_object_id = go_object_id arg, c_container_id = bucket_id,
                          c_bytes = bytes, c_offset = start,
                          c_is_last = (of_nat (length bytes) \<ge> requested)\<rparr>,
                        gr_content_length = requested, gr_content_type = oo_content_type out,
                        gr_content_encoding = oo_content_encoding out\<rparr>, task))))))"

section \<open>The provider\<close>

record s3_provider =
  s3_actors :: "string \<rightharpoonup> storage_client"
  s3_vars :: env_vars

definition client_s3 :: "s3_provider \<Rightarrow> ctx \<Rightarrow> storage_client rpc_result" where
  "client_s3 p ctx =
     rbind (ok_or (InvalidParameter ''no actor in request'') (ctx_actor ctx)) (\<lambda>actor_id.
       ok_or (InvalidParameter (''actor not linked:'' @ actor_id)) (s3_actors p actor_id))"

definition put_link_s3 :: "storage_env \<Rightarrow> link_definition \<Rightarrow> s3_provider \<Rightarrow> bool rpc_result \<times> s3_provider" where
  "put_link_s3 env ld p =
     (case from_values_s3 env (ld_values ld) (s3_vars p) of
        (Ok config, vars) \<Rightarrow>
          (Ok True, p\<lparr>s3_actors := (s3_actors p)(ld_actor_id ld \<mapsto> new_storage_client config ld), s3_vars := vars\<rparr>)
      | (Err e, vars) \<Rightarrow> (Err e, p\<lparr>s3_vars := vars\<rparr>)
      | (Panic, vars) \<Rightarrow> (Panic, p\<lparr>s3_vars := vars\<rparr>))"

definition delete_link_s3 :: "string \<Rightarrow> s3_provider \<Rightarrow> s3_provider" where
  "delete_link_s3 actor p = p\<lparr>s3_actors := (s3_actors p)(actor := None)\<rparr>"

definition shutdown_s3 :: "s3_provider \<Rightarrow> s3_provider" where
  "shutdown_s3 p = p\<lparr>s3_actors := Map.empty\<rparr>"

text \<open>
  The methods of the provider: each looks the caller's client up and passes the call on. The
  result is the reply, the streaming tasks that were spawned, and the state.
\<close>

definition read_call :: "('a \<Rightarrow> blob_reply) \<Rightarrow> 'a rpc_result \<Rightarrow> 's \<Rightarrow>
   blob_reply rpc_result \<times> stream_task list \<times> 's" where
  "read_call f r s = (rbind r (\<lambda>x. Ok (f x)), [], s)"

definition write_call :: "('a \<Rightarrow> blob_reply) \<Rightarrow> 'a rpc_result \<times> 's \<Rightarrow>
   blob_reply rpc_result \<times> stream_task list \<times> 's" where
  "write_call f r = (rbind (fst r) (\<lambda>x. Ok (f x)), [], snd r)"

definition client_call_s3 ::
  "'s s3_ops \<Rightarrow> storage_client \<Rightarrow> env_vars \<Rightarrow> blob_call \<Rightarrow> 's \<Rightarrow>
   blob_reply rpc_result \<times> stream_task list \<times> 's" where
  "client_call_s3 ops cl vars call s =
     (case call of
        ContainerExists arg \<Rightarrow> read_call RBool (container_exists_s3 ops cl arg s) s
      | CreateContainer arg \<Rightarrow> write_call (\<lambda>_. RUnit) (create_container_s3 ops cl arg s)
      | GetContainerInfo arg \<Rightarrow> read_call RContainer (get_container_info_s3 ops cl arg s) s
      | GetObjectInfo arg \<Rightarrow> read_call RObject (get_object_info_s3 ops cl arg s) s
      | ListContainers \<Rightarrow> read_call RContainers (list_containers_s3 ops s) s
      | RemoveContainers arg \<Rightarrow> write_call RItems (remove_containers_s3 ops cl arg [] s)
      | ObjectExists arg \<Rightarrow> read_call RBool (object_exists_s3 ops cl arg s) s
      | ListObjects arg \<Rightarrow> read_call RList (list_objects_s3 ops cl arg s) s
      | RemoveObjects arg \<Rightarrow> write_call RItems (remove_objects_s3 ops cl arg s)
      | PutObject arg \<Rightarrow> write_call RPut (put_object_s3 ops cl arg s)
      | GetObject arg \<Rightarrow>
          (case get_object_s3 ops cl vars arg s of
             Ok (resp, task) \<Rightarrow> (Ok (RGet resp), (case task of Some t \<Rightarrow> [t] | None \<Rightarrow> []), s)
           | Err e \<Rightarrow> (Err e, [], s)
           | Panic \<Rightarrow> (Panic, [], s))
      | PutChunk arg \<Rightarrow> read_call (\<lambda>_. RUnit) (put_chunk_s3 arg) s)"

definition provider_call_s3 ::
  "'s s3_ops \<Rightarrow> s3_provider \<Rightarrow> ctx \<Rightarrow> blob_call \<Rightarrow> 's \<Rightarrow>
   blob_reply rpc_result \<times> stream_task list \<times> 's" where
  "provider_call_s3 ops p ctx call s =
     (case client_s3 p ctx of
        Ok cl \<Rightarrow> client_call_s3 ops cl (s3_vars p) call s
      | Err e \<Rightarrow> (Err e, [], s)
      | Panic \<Rightarrow> (Panic, [], s))"

section \<open>Lemmas\<close>

subsection \<open>Aliases\<close>

lemma strip_alias_prefix [simp]: "strip_prefix_str ALIAS_PREFIX (ALIAS_PREFIX @ a) = Some a"
  by (simp add: strip_prefix_str_def)

lemma strip_prefix_Some: "strip_prefix_str p k = Some a \<longleftrightarrow> k = p @ a"
  by (auto simp: strip_prefix_str_def prefix_def)

definition link_alias :: "link_values \<Rightarrow> string \<Rightarrow> string option" where
  "link_alias values a =
     (case map_of values (ALIAS_PREFIX @ a) of
        Some v \<Rightarrow> (if a = [] \<or> v = [] then None else Some v)
      | None \<Rightarrow> None)"

lemma link_aliases_lookup:
  assumes "distinct (map fst vs)"
  shows "map_of (link_aliases vs als) a = or_else (link_alias vs a) (map_of als a)"
  using assms
proof (induction vs arbitrary: als)
  case Nil
  then show ?case by (simp add: link_aliases_def link_alias_def)
next
  case (Cons kv vs)
  obtain k v where kv: "kv = (k, v)" by (cases kv)
  have k: "map_of vs k = None"
    using Cons.prems kv by (auto simp: map_of_eq_None_iff)
  show ?case
  proof (cases "strip_prefix_str ALIAS_PREFIX k")
    case None
    then have "k \<noteq> ALIAS_PREFIX @ a" by (auto simp: strip_prefix_Some [symmetric])
    with None Cons kv show ?thesis by (simp add: link_aliases_def link_alias_def)
  next
    case (Some b)
    then have kb: "k = ALIAS_PREFIX @ b" by (simp add: strip_prefix_Some)
    with k Cons kv show ?thesis
      by (auto simp: link_aliases_def link_alias_def update_conv split: option.splits)
  qed
qed

subsection \<open>Streaming\<close>

text \<open>The actor accepts every chunk; \<open>got\<close> reads from the state the chunks it has received.\<close>

definition delivers :: "'s s3_ops \<Rightarrow> ('s \<Rightarrow> chunk list) \<Rightarrow> bool" where
  "delivers ops got \<longleftrightarrow>
     (\<forall>c s. \<exists>s'. op_receive_chunk ops c s = (Inr (), s') \<and> got s' = got s @ [c])"

lemma send_chunk_delivers:
  assumes "delivers ops got"
  obtains s' where "send_chunk_s3 ops cl c s = (Ok (of_nat (length (c_bytes c))), s')"
    and "got s' = got s @ [c\<lparr>c_container_id := unalias cl (c_container_id c)\<rparr>]"
proof -
  let ?c = "c\<lparr>c_container_id := unalias cl (c_container_id c)\<rparr>"
  obtain s' where s': "op_receive_chunk ops ?c s = (Inr (), s')" "got s' = got s @ [?c]"
    using assms unfolding delivers_def by blast
  then show thesis by (intro that [of s']) (simp_all add: send_chunk_s3_def Let_def)
qed

definition sent_chunks :: "nat \<Rightarrow> u64 \<Rightarrow> u64 \<Rightarrow> chunk list \<Rightarrow> bool" where
  "sent_chunks mx offset end_range cs \<longleftrightarrow>
     (\<forall>c\<in>set cs. 0 < length (c_bytes c) \<and> length (c_bytes c) \<le> mx \<and>
        (c_is_last c \<longleftrightarrow> offset + of_nat (length (c_bytes c)) > end_range))"

text \<open>The reference for how bytes are cut: pieces of the given size and a last one with what is left.\<close>

function chunks_of :: "nat \<Rightarrow> 'a list \<Rightarrow> 'a list list" where
  "chunks_of n xs = (if n = 0 \<or> xs = [] then [] else take n xs # chunks_of n (drop n xs))"
  by pat_completeness auto
termination
  by (relation "measure (\<lambda>(n, xs). length xs)") auto

declare chunks_of.simps [simp del]

lemma chunks_of_Nil [simp]: "chunks_of n [] = []"
  by (simp add: chunks_of.simps)

lemma chunks_of_step: "0 < n \<Longrightarrow> xs \<noteq> [] \<Longrightarrow> chunks_of n xs = take n xs # chunks_of n (drop n xs)"
  by (simp add: chunks_of.simps [of n xs])

lemma length_chunks_of: "0 < n \<Longrightarrow> length (chunks_of n xs) = (length xs + n - 1) div n"
proof (induction n xs rule: chunks_of.induct)
  case (1 n xs)
  show ?case
  proof (cases "xs = []")
    case False
    then have "length (chunks_of n xs) = Suc ((length (drop n xs) + n - 1) div n)"
      using 1 by (simp add: chunks_of_step)
    also have "\<dots> = (length xs - 1 + n) div n"
    proof (cases "length xs \<le> n")
      case True
      then have "length xs - 1 < n" using "1.prems" by linarith
      with True "1.prems" show ?thesis by (simp add: div_add_self2)
    next
      case le: False
      then have "length (drop n xs) + n - 1 = length xs - 1" using "1.prems" by simp
      with "1.prems" show ?thesis by (simp only: div_add_self2)
    qed
    also have "length xs - 1 + n = length xs + n - 1" using False by (cases xs) simp_all
    finally show ?thesis .
  qed (use "1.prems" in simp)
qed

lemma chunk_at_facts:
  fixes bytes :: bytes and offset end_range :: u64 and bucket oid :: string
  assumes "sent < length bytes" "0 < mx" "length bytes < 2 ^ 64"
  defines "c \<equiv> chunk_at mx offset end_range bucket oid bytes sent" and "len \<equiv> min mx (length bytes - sent)"
  shows "length (c_bytes c) = len" "0 < len" "sent + len \<le> length bytes" "unat (of_nat len :: u64) = len"
    and "c_offset c = offset + of_nat sent" "c_is_last c \<longleftrightarrow> offset + of_nat len > end_range"
    and "c_bytes c @ drop (sent + len) bytes = drop sent bytes"
    and "chunks_of mx (drop sent bytes) = c_bytes c # chunks_of mx (drop (sent + len) bytes)"
proof -
  have c: "c_bytes c = take len (drop sent bytes)" by (simp add: c_def chunk_at_def len_def Let_def)
  show "length (c_bytes c) = len" "0 < len" "sent + len \<le> length bytes"
    using assms(1,2) by (auto simp: c len_def)
  show "unat (of_nat len :: u64) = len" using assms(1,3) by (intro unat_of_nat_u64) (simp add: len_def)
  show "c_offset c = offset + of_nat sent" "c_is_last c \<longleftrightarrow> offset + of_nat len > end_range"
    by (simp_all add: c_def len_def chunk_at_def Let_def)
  show "c_bytes c @ drop (sent + len) bytes = drop sent bytes"
    using append_take_drop_id [of len "drop sent bytes"] by (simp add: c add.commute)
  have "chunks_of mx (drop (sent + len) bytes) = chunks_of mx (drop mx (drop sent bytes))"
    by (cases "mx \<le> length bytes - sent") (simp_all add: len_def add.commute)
  moreover have "c_bytes c = take mx (drop sent bytes)" by (simp add: c len_def min_def)
  ultimately show "chunks_of mx (drop sent bytes) = c_bytes c # chunks_of mx (drop (sent + len) bytes)"
    using assms(1,2) by (simp add: chunks_of_step)
qed

lemma stream_loop_delivers:
  assumes "delivers ops got" "0 < mx" "length bytes < 2 ^ 64" "sent \<le> length bytes"
  shows "\<exists>cs s'. stream_loop ops cl mx offset end_range cobj bytes sent s = (Ok (of_nat (length bytes)), s') \<and>
     got s' = got s @ cs \<and> total_bytes cs = drop sent bytes \<and>
     contiguous (offset + of_nat sent) cs \<and> sent_chunks mx offset end_range cs \<and>
     map c_bytes cs = chunks_of mx (drop sent bytes)"
  using assms
proof (induction ops cl mx offset end_range cobj bytes sent s rule: stream_loop.induct)
  case (1 ops cl mx offset end_range cobj bytes sent s)
  show ?case
  proof (cases "sent < length bytes")
    case False
    with "1.prems" show ?thesis
      by (intro exI [of _ "[]"]) (simp add: stream_loop.simps sent_chunks_def)
  next
    case True
    let ?len = "min mx (length bytes - sent)"
    let ?c = "chunk_at mx offset end_range (unalias cl (co_container_id cobj)) (co_object_id cobj) bytes sent"
    let ?c' = "?c\<lparr>c_container_id := unalias cl (c_container_id ?c)\<rparr>"
    note F = chunk_at_facts [OF True "1.prems"(2,3)]
    have len: "length (c_bytes ?c) = ?len" by (rule F(1))
    obtain s1 where send: "send_chunk_s3 ops cl ?c s = (Ok (of_nat (length (c_bytes ?c))), s1)"
      and got: "got s1 = got s @ [?c']"
      using "1.prems"(1) by (rule send_chunk_delivers)
    have n0: "(of_nat ?len :: u64) \<noteq> 0" using F(2,4) by (metis unat_0 less_irrefl)
    obtain cs s' where rest: "stream_loop ops cl mx offset end_range cobj bytes (sent + ?len) s1 =
        (Ok (of_nat (length bytes)), s')"
      "got s' = got s1 @ cs" "total_bytes cs = drop (sent + ?len) bytes"
      "contiguous (offset + of_nat (sent + ?len)) cs" "sent_chunks mx offset end_range cs"
      "map c_bytes cs = chunks_of mx (drop (sent + ?len) bytes)"
      using "1.IH" [OF True send [symmetric] _ n0 [folded len]] "1.prems" n0 F(3)
      by (auto simp: F(1,4))
    have "stream_loop ops cl mx offset end_range cobj bytes sent s = (Ok (of_nat (length bytes)), s')"
      using True rest(1) n0 F(4) send len
      by (simp add: stream_loop.simps [of ops cl mx offset end_range cobj bytes sent s])
    moreover have "got s' = got s @ ?c' # cs" "total_bytes (?c' # cs) = drop sent bytes"
      using got rest(2,3) F(7) by simp_all
    moreover have "contiguous (offset + of_nat sent) (?c' # cs)" "sent_chunks mx offset end_range (?c' # cs)"
      using rest(4,5) len F(2,5,6) by (simp_all add: add.assoc sent_chunks_def del: length_greater_0_conv)
    moreover have "map c_bytes (?c' # cs) = chunks_of mx (drop sent bytes)"
      using rest(6) F(8) by simp
    ultimately show ?thesis by blast
  qed
qed

definition body_ok :: "(string + bytes) list \<Rightarrow> bool" where
  "body_ok rest \<longleftrightarrow> (\<forall>x\<in>set rest. \<exists>b. x = Inr b \<and> b \<noteq> [])"

definition body_bytes :: "(string + bytes) list \<Rightarrow> bytes" where
  "body_bytes rest = concat (map (\<lambda>x. case x of Inr b \<Rightarrow> b | Inl _ \<Rightarrow> []) rest)"

lemma body_bytes_simps [simp]:
  "body_bytes [] = []" "body_bytes (Inr b # rest) = b @ body_bytes rest"
  by (simp_all add: body_bytes_def)

lemma unat_bound_u64: "unat (x :: u64) < 2 ^ 64"
  by (rule order_less_le_trans [OF unsigned_less]) simp

lemma unat_add_of_nat:
  "unat (x :: u64) + n < 2 ^ 64 \<Longrightarrow> unat (x + of_nat n) = unat x + n"
  by (simp add: unat_word_ariths unat_of_nat mod_simps)

lemma sent_chunks_not_last:
  assumes "sent_chunks mx offset end_range cs" "unat offset + length (total_bytes cs) \<le> unat end_range"
  shows "list_all (\<lambda>c. \<not> c_is_last c) cs"
proof -
  have "\<not> c_is_last c" if c: "c \<in> set cs" for c
  proof -
    have "length (c_bytes c) \<le> length (total_bytes cs)"
      using c by (induction cs) auto
    then have "unat (offset + of_nat (length (c_bytes c))) \<le> unat end_range"
      using assms(2) unat_add_of_nat [of offset "length (c_bytes c)"] unat_bound_u64 [of end_range] by simp
    with assms(1) c show ?thesis
      by (auto simp: sent_chunks_def word_less_nat_alt)
  qed
  then show ?thesis by (simp add: list_all_iff)
qed

lemma stream_rest_delivers:
  assumes "delivers ops got" "0 < max_chunk_size vars" "body_ok rest"
    and "unat offset + length (body_bytes rest) \<le> unat end_range"
  shows "\<exists>cs s'. stream_rest ops cl vars cobj offset end_range rest s = (Ok (), s') \<and>
     got s' = got s @ cs \<and> total_bytes cs = body_bytes rest \<and> contiguous offset cs \<and>
     list_all (\<lambda>c. \<not> c_is_last c) cs"
  using assms(3,4)
proof (induction rest arbitrary: offset s)
  case Nil
  then show ?case by (intro exI [of _ "[]"]) simp
next
  case (Cons x rest)
  obtain b where x: "x = Inr b" and b: "b \<noteq> []" using Cons.prems(1) by (auto simp: body_ok_def)
  have bnd: "unat offset + length b + length (body_bytes rest) \<le> unat end_range"
    using Cons.prems(2) x by simp
  moreover have "unat end_range < 2 ^ 64" using unat_bound_u64 [of end_range] by simp
  ultimately have len: "length b < 2 ^ 64" and off: "unat (offset + of_nat (length b)) = unat offset + length b"
    using unat_add_of_nat [of offset "length b"] by simp_all
  obtain cs1 s1 where 1: "stream_bytes ops cl vars offset end_range cobj b s = (Ok (of_nat (length b)), s1)"
    "got s1 = got s @ cs1" "total_bytes cs1 = b" "contiguous offset cs1"
    "sent_chunks (max_chunk_size vars) offset end_range cs1"
    using stream_loop_delivers [OF assms(1,2) len, of 0 cl offset end_range cobj s]
    by (auto simp: stream_bytes_def)
  have more: "\<not> offset + of_nat (length b) > end_range"
    using off bnd by (simp add: word_less_nat_alt)
  obtain cs2 s2 where 2: "stream_rest ops cl vars cobj (offset + of_nat (length b)) end_range rest s1 = (Ok (), s2)"
    "got s2 = got s1 @ cs2" "total_bytes cs2 = body_bytes rest"
    "contiguous (offset + of_nat (length b)) cs2" "list_all (\<lambda>c. \<not> c_is_last c) cs2"
    using Cons.IH [of "offset + of_nat (length b)" s1] Cons.prems(1) bnd off by (auto simp: body_ok_def)
  have "list_all (\<lambda>c. \<not> c_is_last c) cs1"
    using 1(3,5) bnd by (intro sent_chunks_not_last) auto
  with 1 2 b more x show ?case
    by (intro exI [of _ "cs1 @ cs2"] exI [of _ s2]) (simp add: contiguous_append)
qed

lemma stream_from_s3_delivers:
  assumes "delivers ops got" "0 < max_chunk_size vars" "body_ok (st_stream t)"
    and "unat (st_offset t) + length (st_excess t) + length (body_bytes (st_stream t)) \<le> unat (st_end_range t)"
  shows "\<exists>cs s'. stream_from_s3 ops cl vars t s = (Ok (), s') \<and> got s' = got s @ cs \<and>
     total_bytes cs = st_excess t @ body_bytes (st_stream t) \<and> contiguous (st_offset t) cs \<and>
     list_all (\<lambda>c. \<not> c_is_last c) cs"
proof (cases "st_excess t = []")
  case True
  with stream_rest_delivers [OF assms(1-3)] assms(4) show ?thesis
    by (simp add: stream_from_s3_def Let_def)
next
  case False
  let ?cobj = "(st_object t)\<lparr>co_container_id := unalias cl (co_container_id (st_object t))\<rparr>"
  have "body_ok (Inr (st_excess t) # st_stream t)" using assms(3) False by (simp add: body_ok_def)
  from stream_rest_delivers [OF assms(1,2) this, of "st_offset t" "st_end_range t" cl ?cobj s] assms(4) False
  show ?thesis by (simp add: stream_from_s3_def Let_def add.assoc)
qed


subsection \<open>Ranges\<close>

definition range_positions :: "u64 \<Rightarrow> u64 option \<Rightarrow> u64 option \<Rightarrow> nat set" where
  "range_positions len start end' =
     {i. i < unat len \<and> (\<forall>s. start = Some s \<longrightarrow> unat s \<le> i) \<and> (\<forall>e. end' = Some e \<longrightarrow> i \<le> unat e)}"

lemma card_range_positions:
  "card (range_positions len None None) = unat len"
  "card (range_positions len (Some s) None) = unat len - unat s"
  "card (range_positions len None (Some e)) = min (unat len) (unat e + 1)"
  "card (range_positions len (Some s) (Some e)) = min (unat len) (unat e + 1) - unat s"
proof -
  have "range_positions len None None = {..<unat len}"
    "range_positions len (Some s) None = {unat s..<unat len}"
    "range_positions len None (Some e) = {..<min (unat len) (unat e + 1)}"
    "range_positions len (Some s) (Some e) = {unat s..<min (unat len) (unat e + 1)}"
    by (auto simp: range_positions_def)
  then show "card (range_positions len None None) = unat len"
  "card (range_positions len (Some s) None) = unat len - unat s"
  "card (range_positions len None (Some e)) = min (unat len) (unat e + 1)"
  "card (range_positions len (Some s) (Some e)) = min (unat len) (unat e + 1) - unat s"
    by simp_all
qed

lemma unat_succ: "unat (e + 1 :: u64) = (if e = - 1 then 0 else unat e + 1)"
proof (cases "e = - 1")
  case False
  then have "1 + e \<noteq> 0" by (simp add: add_eq_0_iff)
  from unatSuc [OF this] False show ?thesis by (simp add: add.commute)
qed simp

lemma unat_eq_max_iff: "unat (x :: u64) = 2 ^ 64 - 1 \<longleftrightarrow> x = - 1"
proof -
  have "unat (- 1 :: u64) = 2 ^ 64 - 1" by (simp add: unsigned_minus_1_eq_mask mask_eq_exp_minus_1)
  then show ?thesis by (metis word_unat_eq_iff)
qed

lemma unat_diff_succ:
  assumes "(s :: u64) \<le> e"
  shows "unat (e - s + 1) = (if s = 0 \<and> e = - 1 then 0 else unat e - unat s + 1)"
proof -
  have d: "unat (e - s) = unat e - unat s" using assms by (simp add: unat_sub)
  have "e - s = - 1 \<longleftrightarrow> unat e - unat s = 2 ^ 64 - 1" using unat_eq_max_iff [of "e - s"] d by simp
  also have "\<dots> \<longleftrightarrow> unat s = 0 \<and> unat e = 2 ^ 64 - 1" using unat_bound_u64 [of e] by auto
  also have "\<dots> \<longleftrightarrow> s = 0 \<and> e = - 1" using unat_eq_max_iff [of e] by (simp add: unat_eq_0)
  finally show ?thesis using unat_succ [of "e - s"] d by simp
qed

lemma unat_min: "unat (min x y :: u64) = min (unat x) (unat y)"
  by (simp add: min_def word_le_nat_alt)

lemma bytes_requested_both:
  "unat (bytes_requested len (Some s) (Some e)) =
     (if unat s \<le> unat e \<and> unat s < unat len \<and> \<not> (s = 0 \<and> e = - 1)
      then min (unat len) (unat e - unat s + 1) else 0)"
  by (auto simp: bytes_requested_def unat_diff_succ unat_min word_less_nat_alt word_le_nat_alt)

section \<open>The provider's link table\<close>

definition s3_link_of :: "s3_provider \<Rightarrow> string \<Rightarrow> link_definition option" where
  "s3_link_of p a = map_option sc_ld (s3_actors p a)"

definition s3_accept :: "storage_env \<Rightarrow> link_definition \<Rightarrow> link_definition option" where
  "s3_accept env ld = (if config_accepted env (ld_values ld) then Some ld else None)"

interpretation s3: link_service s3_link_of "\<lambda>(ld :: link_definition) p. snd (put_link_s3 env ld p)" "s3_accept env"
  delete_link_s3 shutdown_s3 "\<lambda>p (ctx :: ctx). rbind (client_s3 p ctx) (\<lambda>cl. Ok (sc_ld cl))" not_linked for env
proof unfold_locales
  fix ld :: link_definition and p :: s3_provider and a
  let ?r = "from_values_s3 env (ld_values ld) (s3_vars p)"
  have "(\<exists>c. fst ?r = Ok c) \<longleftrightarrow> config_accepted env (ld_values ld)"
    by (simp add: from_values_s3_def from_values_Ok_iff)
  moreover have "fst ?r \<noteq> Panic" by (simp add: from_values_s3_def from_values_not_Panic)
  ultimately show "s3_link_of (snd (put_link_s3 env ld p)) a =
      (if a = ld_actor_id ld then or_else (s3_accept env ld) (s3_link_of p a) else s3_link_of p a)"
    by (cases "fst ?r"; cases "?r")
      (auto simp: s3_link_of_def put_link_s3_def s3_accept_def new_storage_client_def)
next
  fix p :: s3_provider and ctx :: ctx
  show "rbind (client_s3 p ctx) (\<lambda>cl. Ok (sc_ld cl)) =
      rbind (ok_or no_actor (ctx_actor ctx)) (\<lambda>a. ok_or (not_linked a) (s3_link_of p a))"
    by (auto simp: client_s3_def no_actor_def not_linked_def s3_link_of_def ok_or_def split: option.splits)
qed (auto simp: s3_link_of_def delete_link_s3_def shutdown_s3_def)

lemma stream_of_get:
  assumes "get_object_s3 ops cl vars arg s = Ok (resp, Some t)"
    and "op_get_object ops (unalias cl (go_container_id arg)) (go_object_id arg)
           (to_range_header (go_range_start arg) (go_range_end arg)) s = Inr out"
    and "body_ok (oo_body out)" and "length (body_bytes (oo_body out)) \<le> unat (gr_content_length resp)"
    and "unat (unwrap_or (go_range_start arg) 0) + 2 * unat (gr_content_length resp) < 2 ^ 64"
    and "delivers ops got" and "0 < max_chunk_size vars"
  shows "\<exists>c0 cs s'. gr_initial_chunk resp = Some c0 \<and>
     stream_from_s3 ops cl vars t s = (Ok (), s') \<and> got s' = got s @ cs \<and>
     total_bytes (c0 # cs) = body_bytes (oo_body out) \<and>
     contiguous (unwrap_or (go_range_start arg) 0) (c0 # cs) \<and>
     list_all (\<lambda>c. \<not> c_is_last c) (c0 # cs)"
proof -
  let ?start = "unwrap_or (go_range_start arg) 0" and ?mx = "max_chunk_size vars"
  let ?req = "gr_content_length resp"
  obtain b0 rest where body: "oo_body out = Inr b0 # rest" and b0: "b0 \<noteq> []" "body_ok rest"
    using assms(1-3)
    by (auto simp: get_object_s3_def Let_def rbind_Ok_iff body_ok_def split: if_splits list.splits sum.splits)
  define b where "b = take ?mx b0"
  have t: "st_excess t = drop ?mx b0" "st_stream t = rest" "st_offset t = ?start + of_nat (length b)"
      "st_end_range t = ?start + of_nat (length b) + ?req"
    and c0: "\<exists>c0. gr_initial_chunk resp = Some c0 \<and> c_bytes c0 = b \<and> c_offset c0 = ?start \<and>
       (c_is_last c0 \<longleftrightarrow> of_nat (length b) \<ge> ?req)"
    and cond: "of_nat (length b0) < ?req \<or> length b0 > ?mx"
    using assms(1,2)
    by (auto simp: get_object_s3_def Let_def rbind_Ok_iff body b_def split: if_splits)
  have len: "length b0 + length (body_bytes rest) \<le> unat ?req" using assms(4) body by simp
  then have lb: "length b0 < 2 ^ 64" using unat_bound_u64 [of ?req] by simp
  have le: "length b \<le> length b0" by (simp add: b_def)
  have ub: "unat (of_nat (length b) :: u64) = length b" using le lb by (intro unat_of_nat_u64) simp
  have ub0: "unat (of_nat (length b0) :: u64) = length b0" using lb by (rule unat_of_nat_u64)
  have lt: "length b < unat ?req"
    using cond len le ub0 by (auto simp: b_def word_less_nat_alt)
  have off: "unat (st_offset t) = unat ?start + length b"
    unfolding t using assms(5) lt by (intro unat_add_of_nat) simp
  have "unat (st_offset t + of_nat (unat ?req)) = unat (st_offset t) + unat ?req"
    using assms(5) lt off by (intro unat_add_of_nat) simp
  then have er: "unat (st_end_range t) = unat ?start + length b + unat ?req"
    using off by (simp add: t)
  have "unat (st_offset t) + length (st_excess t) + length (body_bytes (st_stream t)) \<le> unat (st_end_range t)"
    using len unfolding off er t(1,2) by simp
  from stream_from_s3_delivers [OF assms(6,7) _ this, of cl s] b0 obtain cs s' where
    cs: "stream_from_s3 ops cl vars t s = (Ok (), s')" "got s' = got s @ cs"
      "total_bytes cs = drop ?mx b0 @ body_bytes rest" "contiguous (st_offset t) cs"
      "list_all (\<lambda>c. \<not> c_is_last c) cs"
    by (auto simp: t)
  obtain c where c: "gr_initial_chunk resp = Some c" "c_bytes c = b" "c_offset c = ?start"
    "c_is_last c \<longleftrightarrow> of_nat (length b) \<ge> ?req" using c0 by blast
  have "\<not> c_is_last c" using c(4) lt ub by (simp add: word_le_nat_alt)
  moreover have "total_bytes (c # cs) = body_bytes (oo_body out)"
    by (simp add: c(2) cs(3) body b_def flip: append_assoc)
  moreover have "contiguous ?start (c # cs)" using c cs(4) t(3) by simp
  ultimately show ?thesis using cs c(1) by auto
qed

section \<open>Properties\<close>

text \<open>C0: the number of bytes \<open>get_object\<close> says it will return is the number of positions of the
  object inside the requested inclusive range, except in two cases where it is wrong: the range
  starts inside the object, after its beginning, and ends past the object (the length is then
  not reduced by the start), or it covers the whole object with the largest end (which wraps to 0).\<close>
theorem bytes_requested_exact_iff:
  "unat (bytes_requested len start end') = card (range_positions len start end') \<longleftrightarrow>
     \<not> (\<exists>s e. start = Some s \<and> end' = Some e \<and> 0 < s \<and> s < len \<and> len \<le> e) \<and>
     \<not> (0 < len \<and> (start = None \<or> start = Some 0) \<and> end' = Some (- 1))"
proof (cases start; cases end')
  fix s e
  assume se: "start = Some s" "end' = Some e"
  show ?thesis
    unfolding se bytes_requested_both card_range_positions
    using unat_bound_u64 [of len] unat_bound_u64 [of e]
    by (auto simp: word_less_nat_alt word_le_nat_alt min_def simp flip: unat_eq_0 unat_eq_max_iff)
qed (auto simp: bytes_requested_def card_range_positions unat_succ unat_min unat_sub
      word_less_nat_alt word_le_nat_alt unat_eq_0 min_def split: if_splits)

lemma unalias_link_alias_facts:
  assumes "wf_hashmap (ld_values ld)"
    and "strip_prefix_str ALIAS_PREFIX a = None"
  shows "unalias (new_storage_client config ld) a =
      unwrap_or (or_else (link_alias (ld_values ld) a) (hm_get (aliases config) a)) a"
    and "unalias (new_storage_client config ld) (ALIAS_PREFIX @ a) = unalias (new_storage_client config ld) a"
  using assms link_aliases_lookup [of "ld_values ld" "aliases config" a]
  by (simp_all add: unalias_def new_storage_client_def hm_get_def wf_hashmap_def Let_def)

text \<open>A bucket name that the link's values declare as an alias is resolved to the bucket it was
  declared for, with or without the prefix, whatever aliases the rest of the configuration has; a
  name nobody declared stands for itself.\<close>

theorem unalias_link_alias:
  assumes "wf_hashmap (ld_values ld)"
    and "strip_prefix_str ALIAS_PREFIX a = None"
  shows "(unalias (new_storage_client config ld) a =
      unwrap_or (or_else (link_alias (ld_values ld) a) (hm_get (aliases config) a)) a) \<and>
     (unalias (new_storage_client config ld) (ALIAS_PREFIX @ a) = unalias (new_storage_client config ld) a)"
  using unalias_link_alias_facts [OF assms] by blast

theorem unalias_link_alias_witness:
  "\<exists>ld. unalias (new_storage_client default_storage_config ld) ''foo'' = ''bar''"
proof -
  let ?ld = "\<lparr>ld_actor_id = ''A'', ld_provider_id = ''P'', ld_link_name = ''default'',
     ld_contract_id = ''wasmcloud:blobstore'', ld_values = [(''alias_foo'', ''bar'')]\<rparr>"
  have "wf_hashmap (ld_values ?ld)" "strip_prefix_str ALIAS_PREFIX ''foo'' = None"
    by (simp_all add: wf_hashmap_def strip_prefix_str_def ALIAS_PREFIX_def)
  from unalias_link_alias [OF this, of default_storage_config]
  have "unalias (new_storage_client default_storage_config ?ld) ''foo'' = ''bar''"
    by (simp add: link_alias_def ALIAS_PREFIX_def)
  then show ?thesis by blast
qed

text \<open>C4: when an object does not fit one reply, the first chunk and the chunks streamed after it
  together carry exactly the bytes the store returned, at consecutive offsets from the start of
  the range, no byte lost, repeated or reordered; but no chunk of the whole transfer is ever marked
  as the last one, because the end of the range passed to the streaming task lies a whole transfer
  beyond the real end.\<close>
theorem get_object_streams_everything:
  assumes "get_object_s3 ops cl vars arg s = Ok (resp, Some t)"
    and "op_get_object ops (unalias cl (go_container_id arg)) (go_object_id arg)
           (to_range_header (go_range_start arg) (go_range_end arg)) s = Inr out"
    and "body_ok (oo_body out)" and "length (body_bytes (oo_body out)) \<le> unat (gr_content_length resp)"
    and "unat (unwrap_or (go_range_start arg) 0) + 2 * unat (gr_content_length resp) < 2 ^ 64"
    and "delivers ops got" and "0 < max_chunk_size vars"
  shows "\<exists>c0 cs s'. gr_initial_chunk resp = Some c0 \<and>
     stream_from_s3 ops cl vars t s = (Ok (), s') \<and> got s' = got s @ cs \<and>
     total_bytes (c0 # cs) = body_bytes (oo_body out) \<and>
     contiguous (unwrap_or (go_range_start arg) 0) (c0 # cs) \<and>
     list_all (\<lambda>c. \<not> c_is_last c) (c0 # cs)"
  by (rule stream_of_get [OF assms])

text \<open>A chunk size limit of 0 does not stall the stream: the transfer fails with an error after
  one empty chunk.\<close>

lemma stream_bytes_zero_chunk:
  assumes "delivers ops got" "max_chunk_size vars = 0" "bytes \<noteq> []"
  shows "\<exists>e c s'. stream_bytes ops cl vars offset end_range cobj bytes s = (Err (InvalidParameter e), s') \<and>
     got s' = got s @ [c] \<and> c_bytes c = []"
proof -
  let ?c = "chunk_at 0 offset end_range (unalias cl (co_container_id cobj)) (co_object_id cobj) bytes 0"
  obtain s' where "send_chunk_s3 ops cl ?c s = (Ok (of_nat (length (c_bytes ?c))), s')"
    and got: "got s' = got s @ [?c\<lparr>c_container_id := unalias cl (c_container_id ?c)\<rparr>]"
    using send_chunk_delivers [OF assms(1)] by blast
  moreover have c: "c_bytes ?c = []" by (simp add: chunk_at_def)
  ultimately have "\<exists>e. stream_bytes ops cl vars offset end_range cobj bytes s = (Err (InvalidParameter e), s')"
    using assms(2,3) by (simp add: stream_bytes_def stream_loop.simps [of ops cl 0])
  with got c show ?thesis by fastforce
qed

text \<open>C26: sending bytes to an actor always ends. With a positive chunk size it sends the bytes cut into
  pieces of that size, so as many chunks as the length divided by the size, rounded up, and returns
  their number; with a chunk size of zero it sends one empty chunk and returns an error.\<close>
theorem stream_bytes_terminates:
  assumes "delivers ops got" and "length bytes < 2 ^ 64" and "bytes \<noteq> []"
  shows "\<exists>r cs s'. stream_bytes ops cl vars offset end_range cobj bytes s = (r, s') \<and> got s' = got s @ cs \<and>
     (if max_chunk_size vars = 0 then length cs = 1 \<and> (\<exists>e. r = Err (InvalidParameter e))
      else r = Ok (of_nat (length bytes)) \<and> map c_bytes cs = chunks_of (max_chunk_size vars) bytes \<and>
        length cs = (length bytes + max_chunk_size vars - 1) div max_chunk_size vars)"
proof (cases "max_chunk_size vars = 0")
  case True
  from stream_bytes_zero_chunk [OF assms(1) this assms(3)] show ?thesis using True by fastforce
next
  case False
  then obtain cs s' where "stream_bytes ops cl vars offset end_range cobj bytes s = (Ok (of_nat (length bytes)), s')"
    "got s' = got s @ cs" and cs: "map c_bytes cs = chunks_of (max_chunk_size vars) bytes"
    using stream_loop_delivers [OF assms(1) _ assms(2), of "max_chunk_size vars" 0 cl offset end_range cobj s]
    by (auto simp: stream_bytes_def)
  moreover have "length cs = (length bytes + max_chunk_size vars - 1) div max_chunk_size vars"
    using arg_cong [OF cs, of length] False by (simp add: length_chunks_of)
  ultimately show ?thesis using False by auto
qed

lemma s3_calls_served_facts:
  assumes "s3_actors p0 = Map.empty"
    and p: "p = run_links (\<lambda>ld p. snd (put_link_s3 env ld p)) delete_link_s3 shutdown_s3 evs p0"
  shows "(\<exists>cl. client_s3 p ctx = Ok cl \<and> sc_ld cl = ld) \<longleftrightarrow>
       (\<exists>a. ctx_actor ctx = Some a \<and> in_force (s3_accept env) a evs ld)"
    and "(\<nexists>a ld. ctx_actor ctx = Some a \<and> in_force (s3_accept env) a evs ld) \<Longrightarrow>
       \<exists>e. provider_call_s3 ops p ctx call s = (Err e, [], s)"
proof -
  have "s3_link_of p0 a = None" for a using assms(1) by (simp add: s3_link_of_def)
  note run = s3.client_after_run [OF this, of env evs ctx, folded p]
  then show 1: "(\<exists>cl. client_s3 p ctx = Ok cl \<and> sc_ld cl = ld) \<longleftrightarrow>
       (\<exists>a. ctx_actor ctx = Some a \<and> in_force (s3_accept env) a evs ld)" for ld
    by (simp add: rbind_Ok_iff)
  assume "\<nexists>a ld. ctx_actor ctx = Some a \<and> in_force (s3_accept env) a evs ld"
  then have "client_s3 p ctx \<noteq> Ok cl" for cl using 1 by blast
  moreover have "client_s3 p ctx \<noteq> Panic" by (simp add: client_s3_def rbind_Panic_iff)
  ultimately obtain e where "client_s3 p ctx = Err e" by (cases "client_s3 p ctx") auto
  then show "\<exists>e. provider_call_s3 ops p ctx call s = (Err e, [], s)" by (simp add: provider_call_s3_def)
qed

text \<open>C24: after any sequence of control messages, a call is served with a client exactly when the
  caller's last accepted link has not been deleted or shut down since, and then with that link's
  definition; every other call gets an error, the store unchanged and no task started.\<close>
theorem s3_calls_served:
  assumes "s3_actors p0 = Map.empty"
    and "p = run_links (\<lambda>ld p. snd (put_link_s3 env ld p)) delete_link_s3 shutdown_s3 evs p0"
  shows "((\<exists>cl. client_s3 p ctx = Ok cl \<and> sc_ld cl = ld) \<longleftrightarrow>
       (\<exists>a. ctx_actor ctx = Some a \<and> in_force (s3_accept env) a evs ld)) \<and>
     ((\<nexists>a ld. ctx_actor ctx = Some a \<and> in_force (s3_accept env) a evs ld) \<longrightarrow>
       (\<exists>e. provider_call_s3 ops p ctx call s = (Err e, [], s)))"
  by (intro conjI impI s3_calls_served_facts [OF assms])

text \<open>A store in memory: objects by bucket and key, delivered in two pieces, and the actor's inbox.\<close>

type_synonym mem_state = "((string \<times> string) \<rightharpoonup> bytes) \<times> chunk list"

definition mem_body :: "bytes \<Rightarrow> (string + bytes) list" where
  "mem_body b = (if length b \<le> 4 then (if b = [] then [] else [Inr b]) else [Inr (take 4 b), Inr (drop 4 b)])"

definition mem_s3 :: "mem_state s3_ops" where
  "mem_s3 = \<lparr>
     op_head_bucket = (\<lambda>b s. Inr ()),
     op_head_object = (\<lambda>b k s. case fst s (b, k) of
        None \<Rightarrow> Inl (NotFoundErr [])
      | Some v \<Rightarrow> Inr \<lparr>ho_last_modified = None, ho_content_length = of_nat (length v),
                      ho_content_type = None, ho_content_encoding = None\<rparr>),
     op_get_object = (\<lambda>b k r s. case fst s (b, k) of
        None \<Rightarrow> Inl (NotFoundErr [])
      | Some v \<Rightarrow> Inr \<lparr>oo_content_length = of_nat (length v), oo_body = mem_body v,
                      oo_content_type = None, oo_content_encoding = None\<rparr>),
     op_list_buckets = (\<lambda>s. Inr None),
     op_list_objects = (\<lambda>q s. Inl (OtherErr [])),
     op_create_bucket = (\<lambda>b s. (Inr (), s)),
     op_delete_bucket = (\<lambda>b s. (Inr (), s)),
     op_put_object = (\<lambda>b k v s. (Inr (), ((fst s)((b, k) \<mapsto> v), snd s))),
     op_delete_objects = (\<lambda>b ks s. (Inr None, (fold (\<lambda>k m. m((b, k) := None)) ks (fst s), snd s))),
     op_receive_chunk = (\<lambda>c s. (Inr (), (fst s, snd s @ [c]))),
     op_timestamp = (\<lambda>_. None)\<rparr>"

definition sample_bytes :: bytes where
  "sample_bytes = [1, 2, 3, 4, 5, 6, 7, 8, 9, 10]"

definition sample_chunk :: chunk where
  "sample_chunk = \<lparr>c_object_id = ''k'', c_container_id = ''bkt'', c_bytes = sample_bytes, c_offset = 0, c_is_last = True\<rparr>"

definition sample_ld :: link_definition where
  "sample_ld = \<lparr>ld_actor_id = ''A'', ld_provider_id = ''P'', ld_link_name = ''default'',
     ld_contract_id = ''wasmcloud:blobstore'', ld_values = []\<rparr>"

definition sample_client :: storage_client where
  "sample_client = new_storage_client default_storage_config sample_ld"

definition sample_get :: get_object_request where
  "sample_get = \<lparr>go_container_id = ''bkt'', go_object_id = ''k'', go_range_start = None, go_range_end = None\<rparr>"

lemma sample_unalias [simp]: "unalias sample_client b = unwrap_or (strip_prefix_str ALIAS_PREFIX b) b"
  by (simp add: unalias_def sample_client_def new_storage_client_def sample_ld_def link_aliases_def
      default_storage_config_def hm_get_def Let_def)

lemma mem_delivers: "delivers mem_s3 snd"
  by (simp add: delivers_def mem_s3_def)

definition s3_store_law :: "'s s3_ops \<Rightarrow> bool" where
  "s3_store_law ops \<longleftrightarrow> (\<forall>b k v s s'. v \<noteq> [] \<longrightarrow> op_put_object ops b k v s = (Inr (), s') \<longrightarrow>
     (\<exists>h. op_head_object ops b k s' = Inr h \<and> ho_content_length h = of_nat (length v)) \<and>
     (\<exists>out. op_get_object ops b k None s' = Inr out \<and> body_ok (oo_body out) \<and> body_bytes (oo_body out) = v))"

lemma mem_store_law: "s3_store_law mem_s3"
  by (auto simp: s3_store_law_def mem_s3_def mem_body_def body_ok_def)

lemma small_chunks: "max_chunk_size [''MAX_CHUNK_SIZE'' \<mapsto> ''3''] = 3"
  by (simp add: max_chunk_size_def parse_u32_def parse_uint_def is_digit_def code_in_def digits_value_def
      digit_val_def)

theorem stream_bytes_terminates_witness:
  "\<exists>cs s'. stream_bytes mem_s3 sample_client [''MAX_CHUNK_SIZE'' \<mapsto> ''3''] 0 10
       \<lparr>co_container_id = ''bkt'', co_object_id = ''k''\<rparr> sample_bytes (Map.empty, []) = (Ok 10, s') \<and>
     snd s' = cs \<and> map c_bytes cs = [[1, 2, 3], [4, 5, 6], [7, 8, 9], [10]] \<and> length cs = 4"
proof -
  have "length sample_bytes < 2 ^ 64" "sample_bytes \<noteq> []" by (simp_all add: sample_bytes_def)
  from stream_bytes_terminates [OF mem_delivers this, of sample_client "[''MAX_CHUNK_SIZE'' \<mapsto> ''3'']" 0 10
      "\<lparr>co_container_id = ''bkt'', co_object_id = ''k''\<rparr>" "(Map.empty, [])"]
  show ?thesis by (simp add: small_chunks) (auto simp: sample_bytes_def chunks_of_step)
qed

theorem get_object_streams_everything_witness:
  "\<exists>c0 cs s'. total_bytes (c0 # cs) = sample_bytes \<and> contiguous 0 (c0 # cs) \<and> snd s' = cs \<and> cs \<noteq> []"
proof -
  let ?s = "([(''bkt'', ''k'') \<mapsto> sample_bytes], []) :: mem_state" and ?v = "[''MAX_CHUNK_SIZE'' \<mapsto> ''3'']"
  let ?out = "\<lparr>oo_content_length = 10, oo_body = [Inr [1, 2, 3, 4], Inr [5, 6, 7, 8, 9, 10]],
    oo_content_type = None, oo_content_encoding = None\<rparr>"
  have un: "unalias sample_client ''bkt'' = ''bkt''"
    by (simp add: strip_prefix_str_def ALIAS_PREFIX_def)
  have g: "op_get_object mem_s3 (unalias sample_client (go_container_id sample_get)) (go_object_id sample_get)
      (to_range_header (go_range_start sample_get) (go_range_end sample_get)) ?s = Inr ?out"
    by (simp add: sample_get_def un mem_s3_def mem_body_def sample_bytes_def del: sample_unalias)
  obtain resp t where get: "get_object_s3 mem_s3 sample_client ?v sample_get ?s = Ok (resp, Some t)"
    and len: "gr_content_length resp = 10"
    by (simp add: get_object_s3_def get_object_metadata_def sample_get_def un mem_s3_def mem_body_def
        sample_bytes_def bytes_requested_def small_chunks Let_def del: sample_unalias)
  have b: "body_ok (oo_body ?out)" "body_bytes (oo_body ?out) = sample_bytes"
    by (simp_all add: body_ok_def sample_bytes_def)
  have l: "length (body_bytes (oo_body ?out)) \<le> unat (gr_content_length resp)"
    by (simp add: len)
  have u: "unat (unwrap_or (go_range_start sample_get) 0) + 2 * unat (gr_content_length resp) < 2 ^ 64"
    by (simp add: len sample_get_def)
  have p: "0 < max_chunk_size ?v" by (simp only: small_chunks)
  obtain c0 cs s' where r: "gr_initial_chunk resp = Some c0"
      "total_bytes (c0 # cs) = sample_bytes" "snd s' = snd ?s @ cs" "contiguous 0 (c0 # cs)"
    using get_object_streams_everything [OF get g b(1) l u mem_delivers p] b(2)
    by (auto simp: sample_get_def)
  have "c_bytes c0 = [1, 2, 3]"
    using get r(1)
    by (simp add: get_object_s3_def get_object_metadata_def sample_get_def un mem_s3_def mem_body_def
        sample_bytes_def bytes_requested_def small_chunks Let_def del: sample_unalias) auto
  with r have "cs \<noteq> []" by (auto simp: sample_bytes_def)
  with r show ?thesis by auto
qed

theorem s3_calls_served_witness:
  "\<exists>env. (\<exists>cl. client_s3 (run_links (\<lambda>ld p. snd (put_link_s3 env ld p)) delete_link_s3 shutdown_s3
      [PutLink sample_ld] \<lparr>s3_actors = Map.empty, s3_vars = Map.empty\<rparr>) \<lparr>ctx_actor = Some ''A''\<rparr> = Ok cl
      \<and> sc_ld cl = sample_ld)"
proof -
  let ?env = "\<lparr>ae_b64_decode = \<lambda>_. Inl [], ae_from_slice = \<lambda>_. Inl [], ae_from_str = \<lambda>_. Inl [],
     ae_read_to_string = \<lambda>_. Inl [], ae_parse_env = \<lambda>_. []\<rparr> :: storage_env"
  have "in_force (s3_accept ?env) ''A'' [PutLink sample_ld] sample_ld"
    unfolding in_force_def
    by (intro exI [of _ "[]"] exI [of _ sample_ld])
      (simp add: s3_accept_def config_accepted_def sample_ld_def hm_get_def)
  then show ?thesis
    using s3_calls_served [OF _ refl, of "\<lparr>s3_actors = Map.empty, s3_vars = Map.empty\<rparr>"
      ?env "[PutLink sample_ld]" "\<lparr>ctx_actor = Some ''A''\<rparr>" sample_ld mem_s3 ListContainers "(Map.empty, [])"]
    by (intro exI [of _ ?env]) simp
qed

text \<open>A get without a range of an object the store answers for, with what is streamed after it.\<close>

lemma get_object_whole:
  assumes h: "op_head_object ops (unalias cl bucket) k s = Inr h" "ho_content_length h = of_nat (length v)"
    and out: "op_get_object ops (unalias cl bucket) k None s = Inr out" "body_ok (oo_body out)" "body_bytes (oo_body out) = v"
    and v: "v \<noteq> []" and len: "2 * length v < 2 ^ 64"
    and un: "unalias cl (unalias cl bucket) = unalias cl bucket"
    and del: "delivers ops got" "0 < max_chunk_size vars"
  shows "\<exists>resp task c0 cs s2.
     get_object_s3 ops cl vars \<lparr>go_container_id = bucket, go_object_id = k,
       go_range_start = None, go_range_end = None\<rparr> s = Ok (resp, task) \<and>
     gr_initial_chunk resp = Some c0 \<and> total_bytes (c0 # cs) = v \<and> contiguous 0 (c0 # cs) \<and>
     (case task of None \<Rightarrow> cs = [] | Some t \<Rightarrow> stream_from_s3 ops cl vars t s = (Ok (), s2) \<and> got s2 = got s @ cs)"
proof -
  let ?arg = "\<lparr>go_container_id = bucket, go_object_id = k, go_range_start = None, go_range_end = None\<rparr>"
  obtain b0 rest where body: "oo_body out = Inr b0 # rest"
    using out(2,3) v by (cases "oo_body out") (auto simp: body_ok_def)
  have n: "unat (of_nat (length v) :: u64) = length v" using len by (intro unat_of_nat_u64) simp
  then have n0: "(of_nat (length v) :: u64) \<noteq> 0" using v by (metis length_0_conv unat_0)
  obtain resp task where get: "get_object_s3 ops cl vars ?arg s = Ok (resp, task)"
    and cl: "gr_content_length resp = of_nat (length v)"
    and c0: "\<exists>c0. gr_initial_chunk resp = Some c0 \<and> c_bytes c0 = take (max_chunk_size vars) b0 \<and> c_offset c0 = 0"
    and task: "task = None \<longleftrightarrow> \<not> (of_nat (length b0) < (of_nat (length v) :: u64) \<or> length b0 > max_chunk_size vars)"
    using h out n0 un body
    by (simp add: get_object_s3_def get_object_metadata_def Let_def bytes_requested_def to_range_header_def)
  show ?thesis
  proof (cases task)
    case None
    have v0: "v = b0 @ body_bytes rest" using out(3) body by simp
    then have "length b0 \<le> length v" by simp
    then have "unat (of_nat (length b0) :: u64) = length b0" using len by (intro unat_of_nat_u64) simp
    with None task n have l: "length v \<le> length b0" "length b0 \<le> max_chunk_size vars"
      by (auto simp: word_less_nat_alt)
    then have "v = b0" using v0 by simp
    with l c0 get None show ?thesis by (auto intro!: exI [of _ "[]"])
  next
    case (Some t)
    have "length (body_bytes (oo_body out)) \<le> unat (gr_content_length resp)"
      "unat (unwrap_or (go_range_start ?arg) 0) + 2 * unat (gr_content_length resp) < 2 ^ 64"
      "op_get_object ops (unalias cl (go_container_id ?arg)) (go_object_id ?arg)
           (to_range_header (go_range_start ?arg) (go_range_end ?arg)) s = Inr out"
      using out len n cl by (simp_all add: to_range_header_def)
    from stream_of_get [OF get [unfolded Some] this(3) out(2) this(1,2) del] out(3) get Some
    show ?thesis by fastforce
  qed
qed

text \<open>Streaming changes nothing that a call of the actor leaves as it is.\<close>

definition actor_view :: "'s s3_ops \<Rightarrow> ('s \<Rightarrow> 'o) \<Rightarrow> bool" where
  "actor_view ops obs \<longleftrightarrow> (\<forall>c s. obs (snd (op_receive_chunk ops c s)) = obs s)"

lemma send_chunk_view:
  assumes "actor_view ops obs"
  shows "obs (snd (send_chunk_s3 ops cl c s)) = obs s"
proof -
  have "snd (send_chunk_s3 ops cl c s) = snd (op_receive_chunk ops (c\<lparr>c_container_id := unalias cl (c_container_id c)\<rparr>) s)"
    by (simp add: send_chunk_s3_def Let_def split: prod.splits sum.splits)
  with assms show ?thesis unfolding actor_view_def by metis
qed

lemma stream_loop_view:
  assumes "actor_view ops obs"
  shows "obs (snd (stream_loop ops cl mx offset end_range cobj bytes sent s)) = obs s"
  using assms
proof (induction ops cl mx offset end_range cobj bytes sent s rule: stream_loop.induct)
  case (1 ops cl mx offset end_range cobj bytes sent s)
  show ?case
  proof (cases "sent < length bytes")
    case True
    let ?c = "chunk_at mx offset end_range (unalias cl (co_container_id cobj)) (co_object_id cobj) bytes sent"
    obtain r s' where send: "send_chunk_s3 ops cl ?c s = (r, s')" by (cases "send_chunk_s3 ops cl ?c s")
    then have "obs s' = obs s" using send_chunk_view [OF "1.prems", of cl ?c s] by simp
    with send "1.IH" [OF True send [symmetric]] "1.prems" True show ?thesis
      by (cases r) (simp_all add: stream_loop.simps [of ops cl mx offset end_range cobj bytes sent s])
  qed (simp add: stream_loop.simps)
qed

lemma stream_rest_view:
  assumes "actor_view ops obs"
  shows "obs (snd (stream_rest ops cl vars cobj offset end_range rest s)) = obs s"
proof (induction rest arbitrary: offset s)
  case (Cons x rest)
  show ?case
  proof (cases x)
    case (Inr b)
    obtain r s' where r: "stream_bytes ops cl vars offset end_range cobj b s = (r, s')"
      by (cases "stream_bytes ops cl vars offset end_range cobj b s")
    then have "obs s' = obs s"
      using stream_loop_view [OF assms, of cl "max_chunk_size vars" offset end_range cobj b 0 s]
      by (simp add: stream_bytes_def)
    with r Inr Cons show ?thesis by (cases r) simp_all
  qed simp
qed simp

lemma stream_from_s3_view:
  assumes "actor_view ops obs"
  shows "obs (snd (stream_from_s3 ops cl vars t s)) = obs s"
proof -
  let ?cobj = "(st_object t)\<lparr>co_container_id := unalias cl (co_container_id (st_object t))\<rparr>"
  show ?thesis
  proof (cases "st_excess t = []")
    case False
    then have "stream_from_s3 ops cl vars t s =
        stream_rest ops cl vars ?cobj (st_offset t) (st_end_range t) (Inr (st_excess t) # st_stream t) s"
      by (simp add: stream_from_s3_def Let_def)
    then show ?thesis using stream_rest_view [OF assms] by metis
  qed (simp add: stream_from_s3_def Let_def stream_rest_view [OF assms])
qed

text \<open>An object that was put is got back: over a store that returns what was stored, the reply's
  first chunk and the chunks streamed after it carry exactly the bytes of the put, at consecutive
  offsets from 0.\<close>

theorem s3_put_get_roundtrip:
  assumes "s3_store_law ops" and "delivers ops got" and "0 < max_chunk_size vars"
    and put: "put_object_s3 ops cl c s = (Ok r, s1)"
    and len: "2 * length (c_bytes c) < 2 ^ 64"
    and un: "unalias cl (unalias cl (c_container_id c)) = unalias cl (c_container_id c)"
  shows "\<exists>resp task c0 cs s2.
     get_object_s3 ops cl vars \<lparr>go_container_id = c_container_id c, go_object_id = c_object_id c,
       go_range_start = None, go_range_end = None\<rparr> s1 = Ok (resp, task) \<and>
     gr_initial_chunk resp = Some c0 \<and> total_bytes (c0 # cs) = c_bytes c \<and> contiguous 0 (c0 # cs) \<and>
     (case task of None \<Rightarrow> cs = [] | Some t \<Rightarrow> stream_from_s3 ops cl vars t s1 = (Ok (), s2) \<and> got s2 = got s1 @ cs)"
proof -
  let ?b = "unalias cl (c_container_id c)" and ?k = "c_object_id c" and ?v = "c_bytes c"
  have v: "?v \<noteq> []" and st: "op_put_object ops ?b ?k ?v s = (Inr (), s1)"
    using put by (auto simp: put_object_s3_def Let_def split: if_splits prod.splits sum.splits)
  obtain h out where "op_head_object ops ?b ?k s1 = Inr h" "ho_content_length h = of_nat (length ?v)"
    "op_get_object ops ?b ?k None s1 = Inr out" "body_ok (oo_body out)" "body_bytes (oo_body out) = ?v"
    using assms(1) v st unfolding s3_store_law_def by blast
  from get_object_whole [OF this v len un assms(2,3)] show ?thesis .
qed

theorem s3_put_get_roundtrip_witness:
  "\<exists>s1 resp task c0 cs.
     put_object_s3 mem_s3 sample_client sample_chunk (Map.empty, []) = (Ok \<lparr>pr_stream_id = None\<rparr>, s1) \<and>
     get_object_s3 mem_s3 sample_client [''MAX_CHUNK_SIZE'' \<mapsto> ''3'']
       \<lparr>go_container_id = ''bkt'', go_object_id = ''k'', go_range_start = None, go_range_end = None\<rparr> s1 = Ok (resp, task) \<and>
     gr_initial_chunk resp = Some c0 \<and> total_bytes (c0 # cs) = sample_bytes"
proof -
  let ?v = "[''MAX_CHUNK_SIZE'' \<mapsto> ''3'']"
  have p: "0 < max_chunk_size ?v" by (simp only: small_chunks)
  have put: "put_object_s3 mem_s3 sample_client sample_chunk (Map.empty, []) =
      (Ok \<lparr>pr_stream_id = None\<rparr>, ([(''bkt'', ''k'') \<mapsto> sample_bytes], []))"
    by (simp add: put_object_s3_def sample_chunk_def sample_bytes_def mem_s3_def strip_prefix_str_def
        ALIAS_PREFIX_def)
  have l: "2 * length (c_bytes sample_chunk) < 2 ^ 64" by (simp add: sample_chunk_def sample_bytes_def)
  have u: "unalias sample_client (unalias sample_client (c_container_id sample_chunk)) =
      unalias sample_client (c_container_id sample_chunk)"
    by (simp add: sample_chunk_def strip_prefix_str_def ALIAS_PREFIX_def)
  from s3_put_get_roundtrip [OF mem_store_law mem_delivers p put l u] put show ?thesis
    by (auto simp: sample_chunk_def)
qed

text \<open>C0: \<open>create_container\<close> changes the store only for a bucket that does not answer as existing, and
  then only under a name of 3 to 63 characters, all of them lower-case letters, digits, dots or
  hyphens, that begins and ends with a letter or digit.\<close>
theorem create_container_name:
  assumes "snd (create_container_s3 ops cl arg s) \<noteq> s"
  defines "b \<equiv> unalias cl arg"
  shows "container_exists_s3 ops cl b s \<noteq> Ok True"
    and "3 \<le> length b \<and> length b \<le> 63 \<and> list_all bucket_char b \<and>
       letter_or_number (hd b) \<and> letter_or_number (last b)"
    and "snd (create_container_s3 ops cl arg s) = snd (op_create_bucket ops b s)"
  using assms
  by (auto simp: create_container_s3_def validate_bucket_name_def b_def Let_def
      split: if_splits rres.splits prod.splits sum.splits)

end
