(* ===== verification/Refinement.thy ===== *)
theory Refinement
  imports Main
begin

text \<open>
  Refinement of a specification by a provider, for the interfaces that several providers serve: the
  specification is a function on an abstract state, the provider one on its own state, and on
  supported requests the provider gives the reply and the new state of the specification. Runs then
  agree, and two providers that refine one specification cannot be told apart.
\<close>

fun run_store :: "('x \<Rightarrow> 's \<Rightarrow> 'r \<times> 's) \<Rightarrow> 'x list \<Rightarrow> 's \<Rightarrow> 'r list \<times> 's" where
  "run_store step [] s = ([], s)"
| "run_store step (x # xs) s = (let (r, s') = step x s; (rs, s'') = run_store step xs s' in (r # rs, s''))"

locale store_refinement =
  fixes step :: "'x \<Rightarrow> 's \<Rightarrow> 'r \<times> 's"
    and spec :: "'x \<Rightarrow> 'm \<Rightarrow> 'r \<times> 'm"
    and abs :: "'s \<Rightarrow> 'm"
    and ready :: "'s \<Rightarrow> bool"
    and ok :: "'x \<Rightarrow> bool"
  assumes step_refines: "ready s \<Longrightarrow> ok x \<Longrightarrow>
     ready (snd (step x s)) \<and> spec x (abs s) = (fst (step x s), abs (snd (step x s)))"
begin

lemma run_refines:
  "ready s \<Longrightarrow> list_all ok xs \<Longrightarrow>
     ready (snd (run_store step xs s)) \<and>
     run_store spec xs (abs s) = (fst (run_store step xs s), abs (snd (run_store step xs s)))"
proof (induction xs arbitrary: s)
  case (Cons x xs)
  then have "ready (snd (step x s))" "spec x (abs s) = (fst (step x s), abs (snd (step x s)))"
    using step_refines [of s x] by simp_all
  with Cons.IH [of "snd (step x s)"] Cons.prems(2) show ?case
    by (simp add: Let_def case_prod_beta)
qed simp

end

text \<open>Two providers of one specification answer alike as long as they start in the same abstract state.\<close>

locale two_refinements =
  A: store_refinement step spec abs ready ok + B: store_refinement step' spec abs' ready' ok
  for step :: "'x \<Rightarrow> 's \<Rightarrow> 'r \<times> 's" and spec :: "'x \<Rightarrow> 'm \<Rightarrow> 'r \<times> 'm" and abs ready and ok
    and step' :: "'x \<Rightarrow> 't \<Rightarrow> 'r \<times> 't" and abs' ready'
begin

lemma same_replies:
  assumes "ready s" "ready' t" "abs s = abs' t" "list_all ok xs"
  shows "fst (run_store step xs s) = fst (run_store step' xs t)"
    and "abs (snd (run_store step xs s)) = abs' (snd (run_store step' xs t))"
  using A.run_refines [OF assms(1,4)] B.run_refines [OF assms(2,4)] assms(3) by simp_all

end

end
