(* ===== verification/Object_Store.thy ===== *)
theory Object_Store
  imports Blobstore_Interface Refinement
begin

text \<open>
  What a blobstore promises an actor, whatever it stores objects in: a map from container and object
  names to bytes. The contract is a locale: a provider refines the map when each of its operations,
  on states and requests it supports, gives the reply and the new content that the map gives. Runs
  of operations then agree with the map, and any two providers that refine it agree with each other.
\<close>

type_synonym obj_store = "string \<times> string \<rightharpoonup> bytes"

datatype store_op =
    StorePut string string bytes
  | StoreGet string string
  | StoreHas string string
  | StoreRemove string string

datatype store_reply = Stored | Data bytes | Present bool | Removed | Refused

primrec spec_step :: "store_op \<Rightarrow> obj_store \<Rightarrow> store_reply \<times> obj_store" where
  "spec_step (StorePut c ob b) m = (Stored, m((c, ob) \<mapsto> b))"
| "spec_step (StoreGet c ob) m = ((case m (c, ob) of Some b \<Rightarrow> Data b | None \<Rightarrow> Refused), m)"
| "spec_step (StoreHas c ob) m = (Present (m (c, ob) \<noteq> None), m)"
| "spec_step (StoreRemove c ob) m = (Removed, m((c, ob) := None))"

text \<open>
  The requests that are considered: names among \<open>N\<close>, and contents that are not empty, which both
  providers refuse, and short enough for 64-bit offsets.
\<close>

primrec supported :: "(string \<times> string) set \<Rightarrow> store_op \<Rightarrow> bool" where
  "supported N (StorePut c ob b) \<longleftrightarrow> (c, ob) \<in> N \<and> b \<noteq> [] \<and> 2 * length b < 2 ^ 64"
| "supported N (StoreGet c ob) \<longleftrightarrow> (c, ob) \<in> N"
| "supported N (StoreHas c ob) \<longleftrightarrow> (c, ob) \<in> N"
| "supported N (StoreRemove c ob) \<longleftrightarrow> (c, ob) \<in> N"

text \<open>The calls that the operations stand for; an object is put in one piece.\<close>

primrec call_of :: "store_op \<Rightarrow> blob_call" where
  "call_of (StorePut c ob b) =
     PutObject \<lparr>c_object_id = ob, c_container_id = c, c_bytes = b, c_offset = 0, c_is_last = True\<rparr>"
| "call_of (StoreGet c ob) =
     GetObject \<lparr>go_container_id = c, go_object_id = ob, go_range_start = None, go_range_end = None\<rparr>"
| "call_of (StoreHas c ob) = ObjectExists \<lparr>co_container_id = c, co_object_id = ob\<rparr>"
| "call_of (StoreRemove c ob) = RemoveObjects \<lparr>ro_container_id = c, ro_objects = [ob]\<rparr>"

text \<open>The reply as the actor sees it, with the bytes that were streamed after a get.\<close>

definition reply_of :: "blob_reply rpc_result \<Rightarrow> bytes \<Rightarrow> store_reply" where
  "reply_of r streamed =
     (case r of
        Ok (RPut _) \<Rightarrow> Stored
      | Ok (RGet resp) \<Rightarrow> (case gr_initial_chunk resp of Some c \<Rightarrow> Data (c_bytes c @ streamed) | None \<Rightarrow> Refused)
      | Ok (RBool b) \<Rightarrow> Present b
      | Ok (RItems _) \<Rightarrow> Removed
      | _ \<Rightarrow> Refused)"

locale object_store = store_refinement step spec_step objs ready "supported N"
  for step :: "store_op \<Rightarrow> 's \<Rightarrow> store_reply \<times> 's" and objs :: "'s \<Rightarrow> obj_store" and ready :: "'s \<Rightarrow> bool"
    and N :: "(string \<times> string) set"

end
