(* ===== verification/Blobstore_S3_Store.thy ===== *)
theory Blobstore_S3_Store
  imports Blobstore_S3 Object_Store
begin

text \<open>
  The S3 provider refines the abstract object store: the objects of an actor are those of the buckets
  its container names stand for. A get includes the streaming task it starts, run to its end, and the
  reply is what the actor then has.
\<close>

text \<open>
  What is relied on of S3 and of the receiving actor: \<open>content\<close> is what is stored, per bucket and key,
  and \<open>got\<close> the chunks the actor has received.
\<close>

definition s3_content_law ::
  "'s s3_ops \<Rightarrow> ('s \<Rightarrow> chunk list) \<Rightarrow> ('s \<Rightarrow> string \<times> string \<rightharpoonup> bytes) \<Rightarrow> bool" where
  "s3_content_law ops got content \<longleftrightarrow>
     delivers ops got \<and> actor_view ops content \<and>
     (\<forall>b k v s. \<exists>s'. op_put_object ops b k v s = (Inr (), s') \<and> content s' = (content s)((b, k) \<mapsto> v)) \<and>
     (\<forall>b k s. \<exists>es s'. op_delete_objects ops b [k] s = (Inr es, s') \<and> content s' = (content s)((b, k) := None)) \<and>
     (\<forall>b k s. case content s (b, k) of
        None \<Rightarrow> \<exists>e. op_head_object ops b k s = Inl (NotFoundErr e)
      | Some v \<Rightarrow> (\<exists>h. op_head_object ops b k s = Inr h \<and> ho_content_length h = of_nat (length v)) \<and>
          (v \<noteq> [] \<longrightarrow> (\<exists>out. op_get_object ops b k None s = Inr out \<and> body_ok (oo_body out) \<and> body_bytes (oo_body out) = v)))"

text \<open>The background tasks of a call, run one after the other.\<close>

definition run_tasks :: "'s s3_ops \<Rightarrow> storage_client \<Rightarrow> env_vars \<Rightarrow> stream_task list \<Rightarrow> 's \<Rightarrow> 's" where
  "run_tasks ops cl vars ts s = fold (\<lambda>t s. snd (stream_from_s3 ops cl vars t s)) ts s"

definition s3_step ::
  "'s s3_ops \<Rightarrow> ('s \<Rightarrow> chunk list) \<Rightarrow> s3_provider \<Rightarrow> ctx \<Rightarrow> storage_client \<Rightarrow> store_op \<Rightarrow> 's \<Rightarrow> store_reply \<times> 's" where
  "s3_step ops got p ctx cl x s =
     (case provider_call_s3 ops p ctx (call_of x) s of (r, ts, s1) \<Rightarrow>
        let s2 = run_tasks ops cl (s3_vars p) ts s1
        in (reply_of r (total_bytes (drop (length (got s1)) (got s2))), s2))"

definition s3_objs ::
  "('s \<Rightarrow> string \<times> string \<rightharpoonup> bytes) \<Rightarrow> storage_client \<Rightarrow> (string \<times> string) set \<Rightarrow> 's \<Rightarrow> obj_store" where
  "s3_objs content cl N s = (\<lambda>n. if n \<in> N then content s (unalias cl (fst n), snd n) else None)"

text \<open>
  The actor is linked with the client, different container names stand for different buckets, a
  bucket name that an alias stands for is not itself an alias, and no object is too long.
\<close>

definition s3_ready ::
  "'s s3_ops \<Rightarrow> ('s \<Rightarrow> chunk list) \<Rightarrow> ('s \<Rightarrow> string \<times> string \<rightharpoonup> bytes) \<Rightarrow> s3_provider \<Rightarrow> ctx \<Rightarrow> storage_client \<Rightarrow>
   (string \<times> string) set \<Rightarrow> 's \<Rightarrow> bool" where
  "s3_ready ops got content p ctx cl N s \<longleftrightarrow>
     s3_content_law ops got content \<and> client_s3 p ctx = Ok cl \<and> 0 < max_chunk_size (s3_vars p) \<and>
     inj_on (unalias cl) (fst ` N) \<and> (\<forall>n\<in>N. unalias cl (unalias cl (fst n)) = unalias cl (fst n)) \<and>
     (\<forall>n\<in>N. \<forall>v. content s (unalias cl (fst n), snd n) = Some v \<longrightarrow> 2 * length v < 2 ^ 64)"

lemma s3_readyD:
  assumes "s3_ready ops got content p ctx cl N s"
  shows "delivers ops got" "actor_view ops content" "client_s3 p ctx = Ok cl" "0 < max_chunk_size (s3_vars p)"
    and "\<exists>s'. op_put_object ops b k v s = (Inr (), s') \<and> content s' = (content s)((b, k) \<mapsto> v)"
    and "\<exists>es s'. op_delete_objects ops b [k] s = (Inr es, s') \<and> content s' = (content s)((b, k) := None)"
    and "content s (b, k) = None \<Longrightarrow> \<exists>e. op_head_object ops b k s = Inl (NotFoundErr e)"
    and "content s (b, k) = Some v \<Longrightarrow> \<exists>h. op_head_object ops b k s = Inr h \<and> ho_content_length h = of_nat (length v)"
    and "content s (b, k) = Some v \<Longrightarrow> v \<noteq> [] \<Longrightarrow>
      \<exists>out. op_get_object ops b k None s = Inr out \<and> body_ok (oo_body out) \<and> body_bytes (oo_body out) = v"
    and "n \<in> N \<Longrightarrow> unalias cl (unalias cl (fst n)) = unalias cl (fst n)"
    and "n \<in> N \<Longrightarrow> s3_objs content cl N s n = Some v \<Longrightarrow> 2 * length v < 2 ^ 64"
proof -
  have law: "s3_content_law ops got content" using assms by (simp add: s3_ready_def)
  show "delivers ops got" "actor_view ops content" "client_s3 p ctx = Ok cl" "0 < max_chunk_size (s3_vars p)"
    using assms law by (simp_all add: s3_ready_def s3_content_law_def)
  show "\<exists>s'. op_put_object ops b k v s = (Inr (), s') \<and> content s' = (content s)((b, k) \<mapsto> v)"
    "\<exists>es s'. op_delete_objects ops b [k] s = (Inr es, s') \<and> content s' = (content s)((b, k) := None)"
    using law unfolding s3_content_law_def by blast+
  have c: "case content s (b, k) of
        None \<Rightarrow> \<exists>e. op_head_object ops b k s = Inl (NotFoundErr e)
      | Some v \<Rightarrow> (\<exists>h. op_head_object ops b k s = Inr h \<and> ho_content_length h = of_nat (length v)) \<and>
          (v \<noteq> [] \<longrightarrow> (\<exists>out. op_get_object ops b k None s = Inr out \<and> body_ok (oo_body out) \<and> body_bytes (oo_body out) = v))"
    using law unfolding s3_content_law_def by blast
  show "content s (b, k) = None \<Longrightarrow> \<exists>e. op_head_object ops b k s = Inl (NotFoundErr e)"
    "content s (b, k) = Some v \<Longrightarrow> \<exists>h. op_head_object ops b k s = Inr h \<and> ho_content_length h = of_nat (length v)"
    "content s (b, k) = Some v \<Longrightarrow> v \<noteq> [] \<Longrightarrow>
      \<exists>out. op_get_object ops b k None s = Inr out \<and> body_ok (oo_body out) \<and> body_bytes (oo_body out) = v"
    using c by simp_all
  show "n \<in> N \<Longrightarrow> unalias cl (unalias cl (fst n)) = unalias cl (fst n)"
    "n \<in> N \<Longrightarrow> s3_objs content cl N s n = Some v \<Longrightarrow> 2 * length v < 2 ^ 64"
    using assms by (auto simp: s3_ready_def s3_objs_def)
qed

lemma s3_ready_next:
  assumes "s3_ready ops got content p ctx cl N s"
    and "\<forall>n\<in>N. \<forall>v. s3_objs content cl N s' n = Some v \<longrightarrow> 2 * length v < 2 ^ 64"
  shows "s3_ready ops got content p ctx cl N s'"
  using assms by (auto simp: s3_ready_def s3_objs_def)

lemma s3_objs_update:
  assumes "inj_on (unalias cl) (fst ` N)" "(c, ob) \<in> N" "content s' = (content s)((unalias cl c, ob) := v)"
  shows "s3_objs content cl N s' = (s3_objs content cl N s)((c, ob) := v)"
proof
  fix n
  have "n \<in> N \<Longrightarrow> unalias cl (fst n) = unalias cl c \<longleftrightarrow> fst n = c"
    using inj_on_eq_iff [OF assms(1), of "fst n" c] assms(2) by force
  with assms(2,3) show "s3_objs content cl N s' n = ((s3_objs content cl N s)((c, ob) := v)) n"
    by (cases n) (auto simp: s3_objs_def)
qed


lemma s3_put_step:
  assumes "s3_ready ops got content p ctx cl N s" "(c, ob) \<in> N" "b \<noteq> []"
  obtains s' where "s3_step ops got p ctx cl (StorePut c ob b) s = (Stored, s')"
    "s3_objs content cl N s' = (s3_objs content cl N s)((c, ob) \<mapsto> b)"
proof -
  note D = s3_readyD [OF assms(1)]
  obtain s' where s': "op_put_object ops (unalias cl c) ob b s = (Inr (), s')"
      "content s' = (content s)((unalias cl c, ob) \<mapsto> b)"
    using D(5) by blast
  have "inj_on (unalias cl) (fst ` N)" using assms(1) by (simp add: s3_ready_def)
  from s3_objs_update [OF this assms(2) s'(2)] s'(1) assms(3) D(3) show thesis
    by (intro that [of s'])
      (simp_all add: s3_step_def provider_call_s3_def client_call_s3_def write_call_def put_object_s3_def run_tasks_def
        reply_of_def Let_def)
qed

lemma s3_remove_step:
  assumes "s3_ready ops got content p ctx cl N s" "(c, ob) \<in> N"
  obtains s' where "s3_step ops got p ctx cl (StoreRemove c ob) s = (Removed, s')"
    "s3_objs content cl N s' = (s3_objs content cl N s)((c, ob) := None)"
proof -
  note D = s3_readyD [OF assms(1)]
  obtain es s' where s': "op_delete_objects ops (unalias cl c) [ob] s = (Inr es, s')"
      "content s' = (content s)((unalias cl c, ob) := None)"
    using D(6) by blast
  have "inj_on (unalias cl) (fst ` N)" using assms(1) by (simp add: s3_ready_def)
  from s3_objs_update [OF this assms(2) s'(2)] s'(1) D(3) show thesis
    by (intro that [of s'])
      (simp_all add: s3_step_def provider_call_s3_def client_call_s3_def write_call_def remove_objects_s3_def run_tasks_def
        reply_of_def Let_def)
qed

lemma s3_has_step:
  assumes "s3_ready ops got content p ctx cl N s" "(c, ob) \<in> N"
  shows "s3_step ops got p ctx cl (StoreHas c ob) s = (Present (s3_objs content cl N s (c, ob) \<noteq> None), s)"
proof -
  note D = s3_readyD [OF assms(1)]
  show ?thesis
  proof (cases "content s (unalias cl c, ob)")
    case None
    with D(7) [OF None] D(3) assms(2) show ?thesis
      by (auto simp: s3_step_def provider_call_s3_def client_call_s3_def read_call_def object_exists_s3_def run_tasks_def
          reply_of_def s3_objs_def Let_def)
  next
    case (Some v)
    with D(8) [OF Some] D(3) assms(2) show ?thesis
      by (auto simp: s3_step_def provider_call_s3_def client_call_s3_def read_call_def object_exists_s3_def run_tasks_def
          reply_of_def s3_objs_def Let_def)
  qed
qed

lemma s3_get_missing:
  assumes "s3_ready ops got content p ctx cl N s" "(c, ob) \<in> N" "content s (unalias cl c, ob) = None"
  shows "s3_step ops got p ctx cl (StoreGet c ob) s = (Refused, s)"
proof -
  note D = s3_readyD [OF assms(1)]
  obtain e where "op_head_object ops (unalias cl c) ob s = Inl (NotFoundErr e)" using D(7) [OF assms(3)] by blast
  with D(3) D(10) [OF assms(2)] show ?thesis
    by (simp add: s3_step_def provider_call_s3_def client_call_s3_def get_object_s3_def get_object_metadata_def
        run_tasks_def reply_of_def Let_def)
qed

lemma s3_get_empty:
  assumes "s3_ready ops got content p ctx cl N s" "(c, ob) \<in> N" "content s (unalias cl c, ob) = Some []"
  shows "s3_step ops got p ctx cl (StoreGet c ob) s = (Data [], s)"
proof -
  note D = s3_readyD [OF assms(1)]
  obtain h where "op_head_object ops (unalias cl c) ob s = Inr h" "ho_content_length h = 0"
    using D(8) [OF assms(3)] by auto
  with D(3) D(10) [OF assms(2)] show ?thesis
    by (simp add: s3_step_def provider_call_s3_def client_call_s3_def get_object_s3_def get_object_metadata_def
        bytes_requested_def run_tasks_def reply_of_def Let_def)
qed

lemma s3_get_data:
  assumes "s3_ready ops got content p ctx cl N s" "(c, ob) \<in> N" "content s (unalias cl c, ob) = Some v" "v \<noteq> []"
  obtains s' where "s3_step ops got p ctx cl (StoreGet c ob) s = (Data v, s')" "content s' = content s"
proof -
  note D = s3_readyD [OF assms(1)]
  let ?arg = "\<lparr>go_container_id = c, go_object_id = ob, go_range_start = None, go_range_end = None\<rparr>"
  have un: "unalias cl (unalias cl c) = unalias cl c" using D(10) [OF assms(2)] by simp
  have len: "2 * length v < 2 ^ 64" using D(11) [OF assms(2)] assms(2,3) by (simp add: s3_objs_def)
  obtain h out where "op_head_object ops (unalias cl c) ob s = Inr h" "ho_content_length h = of_nat (length v)"
    "op_get_object ops (unalias cl c) ob None s = Inr out" "body_ok (oo_body out)" "body_bytes (oo_body out) = v"
    using D(8) [OF assms(3)] D(9) [OF assms(3,4)] by blast
  from get_object_whole [OF this assms(4) len un D(1,4)] obtain resp task c0 cs s2 where
    get: "get_object_s3 ops cl (s3_vars p) ?arg s = Ok (resp, task)" "gr_initial_chunk resp = Some c0"
      "total_bytes (c0 # cs) = v"
      "case task of None \<Rightarrow> cs = [] | Some t \<Rightarrow> stream_from_s3 ops cl (s3_vars p) t s = (Ok (), s2) \<and> got s2 = got s @ cs"
    by blast
  show thesis
  proof (cases task)
    case None
    with get D(3) show ?thesis
      by (intro that [of s]) (auto simp: s3_step_def provider_call_s3_def client_call_s3_def run_tasks_def reply_of_def Let_def)
  next
    case (Some t)
    have "content s2 = content s"
      using stream_from_s3_view [OF D(2), of cl "s3_vars p" t s] get(4) Some by simp
    with get D(3) Some show ?thesis
      by (intro that [of s2]) (auto simp: s3_step_def provider_call_s3_def client_call_s3_def run_tasks_def reply_of_def Let_def)
  qed
qed

lemma s3_get_step:
  assumes "s3_ready ops got content p ctx cl N s" "(c, ob) \<in> N"
  obtains s' where "s3_step ops got p ctx cl (StoreGet c ob) s =
      ((case s3_objs content cl N s (c, ob) of Some b \<Rightarrow> Data b | None \<Rightarrow> Refused), s')"
    "s3_objs content cl N s' = s3_objs content cl N s"
proof -
  have ob: "s3_objs content cl N s (c, ob) = content s (unalias cl c, ob)" using assms(2) by (simp add: s3_objs_def)
  show thesis
  proof (cases "content s (unalias cl c, ob)")
    case None
    with s3_get_missing [OF assms None] ob show ?thesis by (intro that [of s]) simp_all
  next
    case (Some v)
    show ?thesis
    proof (cases "v = []")
      case True
      with Some s3_get_empty [OF assms] ob show ?thesis by (intro that [of s]) simp_all
    next
      case False
      obtain s' where s': "s3_step ops got p ctx cl (StoreGet c ob) s = (Data v, s')" "content s' = content s"
        using s3_get_data [OF assms Some False] .
      then have "s3_objs content cl N s' = s3_objs content cl N s" by (simp add: s3_objs_def fun_eq_iff)
      with s' Some ob show ?thesis by (intro that [of s']) simp_all
    qed
  qed
qed

interpretation s3b: object_store "s3_step ops got p ctx cl" "s3_objs content cl N" "s3_ready ops got content p ctx cl N" N
  for ops got content p ctx cl N
proof unfold_locales
  fix s x
  assume ready: "s3_ready ops got content p ctx cl N s" and sup: "supported N x"
  note D = s3_readyD [OF ready]
  show "s3_ready ops got content p ctx cl N (snd (s3_step ops got p ctx cl x s)) \<and>
     spec_step x (s3_objs content cl N s) =
       (fst (s3_step ops got p ctx cl x s), s3_objs content cl N (snd (s3_step ops got p ctx cl x s)))"
  proof (cases x)
    case (StorePut c ob b)
    then obtain s' where s': "s3_step ops got p ctx cl x s = (Stored, s')"
      "s3_objs content cl N s' = (s3_objs content cl N s)((c, ob) \<mapsto> b)"
      using s3_put_step [OF ready, of c ob b] sup by auto
    have "s3_ready ops got content p ctx cl N s'"
      using D(11) sup StorePut by (intro s3_ready_next [OF ready]) (auto simp: s'(2) split: if_splits)
    with s' StorePut show ?thesis by simp
  next
    case (StoreRemove c ob)
    then obtain s' where s': "s3_step ops got p ctx cl x s = (Removed, s')"
      "s3_objs content cl N s' = (s3_objs content cl N s)((c, ob) := None)"
      using s3_remove_step [OF ready, of c ob] sup by auto
    have "s3_ready ops got content p ctx cl N s'"
      using D(11) by (intro s3_ready_next [OF ready]) (auto simp: s'(2) split: if_splits)
    with s' StoreRemove show ?thesis by simp
  next
    case (StoreHas c ob)
    with ready sup show ?thesis by (simp add: s3_has_step)
  next
    case (StoreGet c ob)
    then obtain s' where s': "s3_step ops got p ctx cl x s =
        ((case s3_objs content cl N s (c, ob) of Some b \<Rightarrow> Data b | None \<Rightarrow> Refused), s')"
      "s3_objs content cl N s' = s3_objs content cl N s"
      using s3_get_step [OF ready, of c ob] sup by auto
    moreover have "s3_ready ops got content p ctx cl N s'"
      using D(11) by (intro s3_ready_next [OF ready]) (simp add: s'(2))
    ultimately show ?thesis using StoreGet by simp
  qed
qed


lemma mem_content_law: "s3_content_law mem_s3 snd fst"
  by (auto simp: s3_content_law_def mem_delivers)
    (auto simp: actor_view_def mem_s3_def mem_body_def body_ok_def split: option.splits)

definition sample_s3_provider :: s3_provider where
  "sample_s3_provider = \<lparr>s3_actors = [''A'' \<mapsto> sample_client], s3_vars = [''MAX_CHUNK_SIZE'' \<mapsto> ''3'']\<rparr>"

lemma sample_s3_ready:
  "s3_ready mem_s3 snd fst sample_s3_provider \<lparr>ctx_actor = Some ''A''\<rparr> sample_client {(''c'', ''o'')} (Map.empty, [])"
  by (simp add: s3_ready_def mem_content_law sample_s3_provider_def client_s3_def small_chunks strip_prefix_str_def
      ALIAS_PREFIX_def)

lemma sample_s3_objs: "s3_objs fst sample_client {(''c'', ''o'')} (Map.empty, ([] :: chunk list)) = Map.empty"
  by (simp add: s3_objs_def fun_eq_iff)

definition sample_s3_calls :: "store_op list" where
  "sample_s3_calls = [StorePut ''c'' ''o'' [1, 2, 3, 4, 5], StoreHas ''c'' ''o'', StoreGet ''c'' ''o'']"


end
