(* ===== verification/Blobstore_S3_List.thy ===== *)
theory Blobstore_S3_List
  imports Blobstore_S3 "HOL-Library.List_Lexorder" "HOL-Library.Char_ord"
begin

text \<open>
  Listing a bucket of the S3 provider page by page: an actor repeats \<open>list_objects\<close> with the continuation token of
  the last reply until a reply says that it is the last.
\<close>

section \<open>The actor's loop\<close>

fun list_pages ::
  "'s s3_ops \<Rightarrow> storage_client \<Rightarrow> list_objects_request \<Rightarrow> nat \<Rightarrow> 's \<Rightarrow> object_metadata list list rpc_result option" where
  "list_pages ops cl arg 0 s = None"
| "list_pages ops cl arg (Suc fuel) s =
     (case list_objects_s3 ops cl arg s of
        Ok r \<Rightarrow> (if lr_is_last r then Some (Ok [lr_objects r])
                 else map_option (\<lambda>rest. rbind rest (\<lambda>pages. Ok (lr_objects r # pages)))
                        (list_pages ops cl (arg\<lparr>lo_continuation := lr_continuation r\<rparr>) fuel s))
      | Err e \<Rightarrow> Some (Err e)
      | Panic \<Rightarrow> Some Panic)"

section \<open>What S3 documents of ListObjectsV2\<close>

text \<open>
  \<open>held b s\<close> are the objects of a bucket in the order of their keys, \<open>after b t s\<close> those that come after the
  token \<open>t\<close>. A reply has a first part of what was asked for, not empty unless nothing is left, and as many objects
  at most as the request allows; it is truncated, and has a token for the others, when there are more.
\<close>

definition key_of :: "s3_object \<Rightarrow> string" where
  "key_of ob = unwrap_or (so_key ob) []"

definition asked_for ::
  "(string \<Rightarrow> 's \<Rightarrow> s3_object list) \<Rightarrow> (string \<Rightarrow> string \<Rightarrow> 's \<Rightarrow> s3_object list) \<Rightarrow> list_query \<Rightarrow> 's \<Rightarrow> s3_object list" where
  "asked_for held after q s =
     (case (lq_continuation_token q, lq_start_after q) of
        (Some t, _) \<Rightarrow> after (lq_bucket q) t s
      | (None, Some k) \<Rightarrow> filter (\<lambda>ob. k < key_of ob) (held (lq_bucket q) s)
      | (None, None) \<Rightarrow> held (lq_bucket q) s)"

definition page_law ::
  "(string \<Rightarrow> 's \<Rightarrow> s3_object list) \<Rightarrow> (string \<Rightarrow> string \<Rightarrow> 's \<Rightarrow> s3_object list) \<Rightarrow> list_query \<Rightarrow> 's \<Rightarrow> list_output \<Rightarrow> bool" where
  "page_law held after q s out \<longleftrightarrow>
     length (unwrap_or (lout_contents out) []) \<le> lq_max_keys q \<and>
     (if lout_is_truncated out
      then unwrap_or (lout_contents out) [] \<noteq> [] \<and>
        (\<exists>t. lout_next_continuation_token out = Some t \<and>
           asked_for held after q s = unwrap_or (lout_contents out) [] @ after (lq_bucket q) t s)
      else asked_for held after q s = unwrap_or (lout_contents out) [])"

definition paging_law ::
  "'s s3_ops \<Rightarrow> (string \<Rightarrow> 's \<Rightarrow> s3_object list) \<Rightarrow> (string \<Rightarrow> string \<Rightarrow> 's \<Rightarrow> s3_object list) \<Rightarrow> 's \<Rightarrow> bool" where
  "paging_law ops held after s \<longleftrightarrow>
     (\<forall>q. 0 < lq_max_keys q \<longrightarrow> (\<exists>out. op_list_objects ops q s = Inr out \<and> page_law held after q s out))"

section \<open>One page\<close>

definition query_of :: "storage_client \<Rightarrow> list_objects_request \<Rightarrow> list_query" where
  "query_of cl arg = \<lparr>lq_bucket = unalias cl (lo_container_id arg),
     lq_max_keys = (case lo_max_items arg of Some n \<Rightarrow> unat n | None \<Rightarrow> 1000),
     lq_continuation_token = lo_continuation arg,
     lq_start_after = (if lo_continuation arg = None then lo_start_with arg else None)\<rparr>"

definition listed :: "'s s3_ops \<Rightarrow> string \<Rightarrow> s3_object \<Rightarrow> object_metadata" where
  "listed ops b ob = \<lparr>om_container_id = b, om_object_id = key_of ob, om_last_modified = to_timestamp ops (so_last_modified ob),
     om_content_type = None, om_content_encoding = None, om_content_length = so_size ob\<rparr>"

definition page_size_ok :: "list_objects_request \<Rightarrow> bool" where
  "page_size_ok arg \<longleftrightarrow> (case lo_max_items arg of Some n \<Rightarrow> 0 < unat n \<and> unat n < 2 ^ 31 | None \<Rightarrow> True)"

lemma query_of_token [simp]:
  "lq_bucket (query_of cl (arg\<lparr>lo_continuation := t\<rparr>)) = lq_bucket (query_of cl arg)"
  "lq_max_keys (query_of cl (arg\<lparr>lo_continuation := t\<rparr>)) = lq_max_keys (query_of cl arg)"
  "page_size_ok (arg\<lparr>lo_continuation := t\<rparr>) = page_size_ok arg"
  by (simp_all add: query_of_def page_size_ok_def)

lemma asked_for_token [simp]:
  "asked_for held after (query_of cl (arg\<lparr>lo_continuation := Some t\<rparr>)) s = after (lq_bucket (query_of cl arg)) t s"
  by (simp add: asked_for_def query_of_def)

lemma page_size_pos: "page_size_ok arg \<Longrightarrow> 0 < lq_max_keys (query_of cl arg)"
  by (auto simp: page_size_ok_def query_of_def split: option.splits)

lemma list_objects_page:
  assumes "page_size_ok arg" "op_list_objects ops (query_of cl arg) s = Inr out"
  shows "list_objects_s3 ops cl arg s =
     Ok \<lparr>lr_objects = map (listed ops (lq_bucket (query_of cl arg))) (unwrap_or (lout_contents out) []),
         lr_is_last = (\<not> lout_is_truncated out), lr_continuation = lout_next_continuation_token out\<rparr>"
  using assms by (auto simp: list_objects_s3_def query_of_def page_size_ok_def listed_def key_of_def Let_def split: option.splits)

section \<open>Properties\<close>

text \<open>C23: following the continuation tokens lists exactly the objects that were asked for, each once and in
  order, in pages of at most the requested size, and comes to an end: the number of objects plus one is
  enough calls. A starting point left in the later requests does no harm, as the token wins over it.\<close>
theorem s3_pages_complete:
  assumes "paging_law ops held after s" and "page_size_ok arg"
    and "length (asked_for held after (query_of cl arg) s) < fuel"
  shows "\<exists>pages. list_pages ops cl arg fuel s = Some (Ok pages) \<and>
     concat pages = map (listed ops (unalias cl (lo_container_id arg))) (asked_for held after (query_of cl arg) s) \<and>
     list_all (\<lambda>p. length p \<le> (case lo_max_items arg of Some n \<Rightarrow> unat n | None \<Rightarrow> 1000)) pages"
proof -
  have "\<exists>pages. list_pages ops cl arg fuel s = Some (Ok pages) \<and>
     concat pages = map (listed ops (lq_bucket (query_of cl arg))) (asked_for held after (query_of cl arg) s) \<and>
     list_all (\<lambda>p. length p \<le> lq_max_keys (query_of cl arg)) pages"
    using assms(2,3)
  proof (induction fuel arbitrary: arg)
    case (Suc fuel)
    let ?q = "query_of cl arg"
    obtain out where out: "op_list_objects ops ?q s = Inr out" "page_law held after ?q s out"
      using assms(1) page_size_pos [OF Suc.prems(1)] unfolding paging_law_def by blast
    let ?objs = "unwrap_or (lout_contents out) []"
    note page = list_objects_page [OF Suc.prems(1) out(1)]
    show ?case
    proof (cases "lout_is_truncated out")
      case True
      then obtain t where t: "lout_next_continuation_token out = Some t" "?objs \<noteq> []"
        "asked_for held after ?q s = ?objs @ after (lq_bucket ?q) t s" "length ?objs \<le> lq_max_keys ?q"
        using out(2) by (auto simp: page_law_def)
      then have "length (after (lq_bucket ?q) t s) < fuel" using Suc.prems(2) by (cases ?objs) auto
      with Suc.IH [of "arg\<lparr>lo_continuation := Some t\<rparr>"] Suc.prems(1)
      obtain pages where "list_pages ops cl (arg\<lparr>lo_continuation := Some t\<rparr>) fuel s = Some (Ok pages)"
        "concat pages = map (listed ops (lq_bucket ?q)) (after (lq_bucket ?q) t s)"
        "list_all (\<lambda>p. length p \<le> lq_max_keys ?q) pages" by auto
      with page True t show ?thesis by simp
    qed (use page out(2) in \<open>simp add: page_law_def\<close>)
  qed simp
  then show ?thesis by (simp add: query_of_def)
qed

text \<open>A bucket of three objects whose tokens tell how many objects to skip.\<close>

definition sample_object :: "string \<Rightarrow> s3_object" where
  "sample_object k = \<lparr>so_key = Some k, so_last_modified = None, so_size = 1\<rparr>"

definition sample_objects :: "s3_object list" where
  "sample_objects = map sample_object [''a'', ''b'', ''c'']"

definition sample_held :: "string \<Rightarrow> mem_state \<Rightarrow> s3_object list" where
  "sample_held b s = sample_objects"

definition sample_after :: "string \<Rightarrow> string \<Rightarrow> mem_state \<Rightarrow> s3_object list" where
  "sample_after b t s = drop (length t) sample_objects"

definition paged_s3 :: "mem_state s3_ops" where
  "paged_s3 = mem_s3\<lparr>op_list_objects := (\<lambda>q s.
     let obs = asked_for sample_held sample_after q s; n = lq_max_keys q in
     Inr \<lparr>lout_contents = Some (take n obs), lout_is_truncated = (n < length obs),
       lout_next_continuation_token =
         (if n < length obs then Some (replicate (length sample_objects - length obs + n) CHR ''x'') else None)\<rparr>)\<rparr>"

lemma filter_key_suffix:
  "sorted_wrt (\<lambda>x y. key_of x < key_of y) obs \<Longrightarrow>
     filter (\<lambda>ob. k < key_of ob) obs = drop (length obs - length (filter (\<lambda>ob. k < key_of ob) obs)) obs"
proof (induction obs)
  case (Cons x obs)
  show ?case
  proof (cases "k < key_of x")
    case True
    with Cons.prems have "filter (\<lambda>ob. k < key_of ob) (x # obs) = x # obs" by (auto simp: filter_id_conv)
    then show ?thesis by simp
  next
    case False
    with Cons show ?thesis by (simp add: Suc_diff_le)
  qed
qed simp

lemma sample_asked_suffix:
  "asked_for sample_held sample_after q s =
     drop (length sample_objects - length (asked_for sample_held sample_after q s)) sample_objects"
proof -
  have "sorted_wrt (\<lambda>x y. key_of x < key_of y) sample_objects"
    by (simp add: sample_objects_def sample_object_def key_of_def)
  moreover have "drop n xs = drop (length xs - (length xs - n)) xs" for n and xs :: "s3_object list" by (cases "n \<le> length xs") simp_all
  ultimately show ?thesis using filter_key_suffix
    by (auto simp: asked_for_def sample_held_def sample_after_def length_drop split: option.split)
qed

lemma sample_paging_law: "paging_law paged_s3 sample_held sample_after s"
  unfolding paging_law_def
proof (intro allI impI exI conjI)
  fix q :: list_query assume n: "0 < lq_max_keys q"
  let ?obs = "asked_for sample_held sample_after q s" and ?n = "lq_max_keys q"
  let ?out = "\<lparr>lout_contents = Some (take ?n ?obs), lout_is_truncated = (?n < length ?obs), lout_next_continuation_token =
         (if ?n < length ?obs then Some (replicate (length sample_objects - length ?obs + ?n) CHR ''x'') else None)\<rparr>"
  show "op_list_objects paged_s3 q s = Inr ?out" by (simp add: paged_s3_def Let_def)
  have "drop ?n ?obs = drop (length sample_objects - length ?obs + ?n) sample_objects"
    by (subst sample_asked_suffix) (simp add: add.commute)
  then have "?obs = take ?n ?obs @ drop (length sample_objects - length ?obs + ?n) sample_objects"
    by (metis append_take_drop_id)
  with n show "page_law sample_held sample_after q s ?out" by (auto simp: page_law_def sample_after_def)
qed

theorem s3_pages_complete_witness:
  "\<exists>pages. list_pages paged_s3 sample_client \<lparr>lo_container_id = ''bkt'', lo_start_with = Some ''a'', lo_continuation = None,
       lo_max_items = Some 1\<rparr> 3 (Map.empty, []) = Some (Ok pages) \<and> map om_object_id (concat pages) = [''b'', ''c'']"
proof -
  let ?arg = "\<lparr>lo_container_id = ''bkt'', lo_start_with = Some ''a'', lo_continuation = None, lo_max_items = Some 1\<rparr>"
  have asked: "asked_for sample_held sample_after (query_of sample_client ?arg) (Map.empty, []) = map sample_object [''b'', ''c'']"
    by (simp add: asked_for_def query_of_def sample_held_def sample_objects_def sample_object_def key_of_def)
  have size: "page_size_ok ?arg" by (simp add: page_size_ok_def)
  have fuel: "length (asked_for sample_held sample_after (query_of sample_client ?arg) (Map.empty, [])) < 3" by (simp add: asked)
  obtain pages where "list_pages paged_s3 sample_client ?arg 3 (Map.empty, []) = Some (Ok pages)"
    "concat pages = map (listed paged_s3 (unalias sample_client ''bkt'')) (map sample_object [''b'', ''c''])"
    using s3_pages_complete [OF sample_paging_law size fuel] by (auto simp: asked)
  then show ?thesis by (auto simp: listed_def sample_object_def key_of_def)
qed

end
