(* ===== verification/Blobstore_FS.thy ===== *)
theory Blobstore_FS
  imports Blobstore_Interface Link_Registry Rust_Path
begin

text \<open>
  \<open>blobstore-fs/src\<close>: a blobstore over the local file system. Each actor has a directory named
  after it below the root of its link; containers are directories there and objects are files.

  The file system is a state \<open>'fs\<close> and the operations of \<open>fs_ops\<close> on it, which answer with the
  text of an I/O error or with a result. \<open>clean\<close> is the path normalisation of the crate
  \<open>path_clean\<close>. Paths are byte strings, as in \<open>Rust_Path\<close>.
\<close>

section \<open>The file system\<close>

text \<open>
  Metadata: the modification time can fail to be read, or lie before the epoch (the inner \<open>Inl\<close>).
\<close>

record file_meta =
  fm_modified :: "string + (string + u64)"
  fm_len :: u64

text \<open>A directory entry; \<open>fe_file_type\<close> is whether it is itself a directory, \<open>fe_is_dir\<close> follows links.\<close>

record dir_entry =
  fe_name :: string
  fe_is_unicode :: bool
  fe_file_type :: "string + bool"
  fe_is_dir :: bool
  fe_metadata :: "string + file_meta"

record 'fs fs_ops =
  fo_create :: "string \<Rightarrow> 'fs \<Rightarrow> (string + unit) \<times> 'fs"
  fo_open_append :: "string \<Rightarrow> 'fs \<Rightarrow> string + unit"
  fo_write :: "string \<Rightarrow> bytes \<Rightarrow> 'fs \<Rightarrow> (string + nat) \<times> 'fs"
  fo_open :: "string \<Rightarrow> 'fs \<Rightarrow> string + unit"
  fo_read :: "string \<Rightarrow> 'fs \<Rightarrow> string + bytes"
  fo_metadata :: "string \<Rightarrow> 'fs \<Rightarrow> string + file_meta"
  fo_read_dir :: "string \<Rightarrow> 'fs \<Rightarrow> string + (string + dir_entry) list"
  fo_create_dir_all :: "string \<Rightarrow> 'fs \<Rightarrow> (string + unit) \<times> 'fs"
  fo_remove_dir_all :: "string \<Rightarrow> 'fs \<Rightarrow> (string + unit) \<times> 'fs"
  fo_remove_file :: "string \<Rightarrow> 'fs \<Rightarrow> (string + unit) \<times> 'fs"
  fo_receive_chunk :: "link_definition \<Rightarrow> chunk \<Rightarrow> 'fs \<Rightarrow> (string + bool) \<times> 'fs"
  fo_debug :: "string \<Rightarrow> string"

section \<open>The provider's state and paths\<close>

record fs_provider_config =
  fc_ld :: link_definition
  fc_root :: string

record fs_provider =
  fs_config :: "string \<rightharpoonup> fs_provider_config"
  upload_chunks :: "string \<rightharpoonup> u64"

definition default_fs_provider :: fs_provider where
  "default_fs_provider = \<lparr>fs_config = Map.empty, upload_chunks = Map.empty\<rparr>"

text \<open>The check of \<open>resolve_subpath\<close>: the components of the root, one by one, are those of the path.\<close>

fun matches_root :: "path_component list \<Rightarrow> path_component list \<Rightarrow> bool" where
  "matches_root [] joined = True"
| "matches_root (r # rs) [] = False"
| "matches_root (r # rs) (j # js) = (r = j \<and> matches_root rs js)"

definition resolve_subpath :: "(string \<Rightarrow> string) \<Rightarrow> string \<Rightarrow> string \<Rightarrow> string rpc_result" where
  "resolve_subpath clean root path =
     (let joined = clean (path_join root path) in
      if matches_root (components root) (components joined) then Ok joined
      else Err (FromIo (''Invalid path ['' @ path @ ''], is not contained by root path ['' @ root @ '']'')))"

definition get_actor_id :: "ctx \<Rightarrow> string rpc_result" where
  "get_actor_id ctx = ok_or (InvalidParameter ''No actor id found'') (ctx_actor ctx)"

definition get_ld :: "fs_provider \<Rightarrow> ctx \<Rightarrow> link_definition rpc_result" where
  "get_ld p ctx = rbind (get_actor_id ctx) (\<lambda>actor_id.
     ok_or (InvalidParameter ''No link definition found'') (map_option fc_ld (fs_config p actor_id)))"

definition get_root :: "fs_provider \<Rightarrow> ctx \<Rightarrow> string rpc_result" where
  "get_root p ctx = rbind (get_actor_id ctx) (\<lambda>actor_id.
     rbind (ok_or (InvalidParameter ''No root configuration found'') (fs_config p actor_id)) (\<lambda>config.
       Ok (path_join (fc_root config) actor_id)))"

definition resolve_in_root ::
  "(string \<Rightarrow> string) \<Rightarrow> fs_provider \<Rightarrow> ctx \<Rightarrow> string \<Rightarrow> string rpc_result" where
  "resolve_in_root clean p ctx path = rbind (get_root p ctx) (\<lambda>root. resolve_subpath clean root path)"

section \<open>Chunks\<close>

text \<open>
  \<open>store_chunk\<close> in its four steps: the two resolutions, creation of the file for offset 0, the
  check and update of the expected offset of the stream, and the append. The lookup of a stream
  that was never opened is an \<open>unwrap\<close> on nothing.
\<close>

definition open_upload ::
  "'fs fs_ops \<Rightarrow> string \<Rightarrow> chunk \<Rightarrow> string option \<Rightarrow> fs_provider \<times> 'fs \<Rightarrow>
   unit rpc_result \<times> fs_provider \<times> 'fs" where
  "open_upload ops binary_file c stream_id st =
     (if c_offset c \<noteq> 0 then (Ok (), st)
      else (case fo_create ops binary_file (snd st) of
        (Inl _, fs) \<Rightarrow> (Err (InvalidParameter (''Could not create file: '' @ fo_debug ops binary_file)), fst st, fs)
      | (Inr _, fs) \<Rightarrow> (case stream_id of
          Some s_id \<Rightarrow> (Ok (), (fst st)\<lparr>upload_chunks := (upload_chunks (fst st))(s_id \<mapsto> 0)\<rparr>, fs)
        | None \<Rightarrow> (if \<not> c_is_last c then (Err (InvalidParameter ''Chunked storage is missing stream id''), fst st, fs)
                   else (Ok (), fst st, fs)))))"

definition advance_upload ::
  "chunk \<Rightarrow> string option \<Rightarrow> fs_provider \<times> 'fs \<Rightarrow> unit rpc_result \<times> fs_provider \<times> 'fs" where
  "advance_upload c stream_id st =
     (case stream_id of
        None \<Rightarrow> (Ok (), st)
      | Some s_id \<Rightarrow> early (unwrap (upload_chunks (fst st) s_id)) st (\<lambda>expected_offset.
          if expected_offset \<noteq> c_offset c
          then (Err (InvalidParameter (''Chunk offset '' @ show_nat (unat (c_offset c)) @
                 '' not the same as the expected offset: '' @ show_nat (unat expected_offset))), st)
          else (Ok (), (fst st)\<lparr>upload_chunks := (upload_chunks (fst st))
                  (s_id \<mapsto> (if c_is_last c then 0 else c_offset c + of_nat (length (c_bytes c))))\<rparr>, snd st)))"

definition append_chunk ::
  "'fs fs_ops \<Rightarrow> string \<Rightarrow> chunk \<Rightarrow> fs_provider \<times> 'fs \<Rightarrow> unit rpc_result \<times> fs_provider \<times> 'fs" where
  "append_chunk ops path c st =
     early (map_err FromIo (fo_open_append ops path (snd st))) st (\<lambda>_.
       case fo_write ops path (c_bytes c) (snd st) of
         (Inl e, fs) \<Rightarrow> (Err (FromIo e), fst st, fs)
       | (Inr count, fs) \<Rightarrow>
           (if count \<noteq> length (c_bytes c)
            then (Err (FromString (''Failed to fully write chunk: '' @ show_nat count @ '' of '' @
                    show_nat (length (c_bytes c)) @ '' bytes'')), fst st, fs)
            else (Ok (), fst st, fs)))"

definition store_chunk ::
  "'fs fs_ops \<Rightarrow> (string \<Rightarrow> string) \<Rightarrow> ctx \<Rightarrow> chunk \<Rightarrow> string option \<Rightarrow> fs_provider \<times> 'fs \<Rightarrow>
   unit rpc_result \<times> fs_provider \<times> 'fs" where
  "store_chunk ops clean ctx c stream_id st =
     early (get_root (fst st) ctx) st (\<lambda>root.
     early (resolve_subpath clean root (c_container_id c)) st (\<lambda>container_dir.
     early (resolve_subpath clean container_dir (c_object_id c)) st (\<lambda>binary_file.
     case open_upload ops binary_file c stream_id st of (r1, st1) \<Rightarrow> early r1 st1 (\<lambda>_.
     case advance_upload c stream_id st1 of (r2, st2) \<Rightarrow> early r2 st2 (\<lambda>_.
     early (resolve_subpath clean root (path_join (c_container_id c) (c_object_id c))) st2 (\<lambda>path.
       append_chunk ops path c st2))))))"

definition send_chunk_fs ::
  "'fs fs_ops \<Rightarrow> ctx \<Rightarrow> chunk \<Rightarrow> fs_provider \<times> 'fs \<Rightarrow> u64 rpc_result \<times> fs_provider \<times> 'fs" where
  "send_chunk_fs ops ctx c st =
     early (get_ld (fst st) ctx) st (\<lambda>ld.
       case fo_receive_chunk ops ld c (snd st) of
         (Inr cancel_download, fs) \<Rightarrow> (Ok (if cancel_download then 0 else of_nat (length (c_bytes c))), fst st, fs)
       | (Inl e, fs) \<Rightarrow> (Err (Rpc (''sending chunk error: Container('' @ c_container_id c @ '') Object('' @
            c_object_id c @ '') to Actor('' @ ld_actor_id ld @ ''): '' @ e)), fst st, fs))"

section \<open>Links\<close>

definition put_link_fs ::
  "'fs fs_ops \<Rightarrow> (string \<Rightarrow> string) \<Rightarrow> link_definition \<Rightarrow> fs_provider \<times> 'fs \<Rightarrow>
   bool rpc_result \<times> fs_provider \<times> 'fs" where
  "put_link_fs ops clean ld st =
     (let root = clean (unwrap_or (hm_get (ld_values ld) ''ROOT'') ''/tmp'');
          p = (fst st)\<lparr>fs_config := (fs_config (fst st))(ld_actor_id ld \<mapsto> \<lparr>fc_ld = ld, fc_root = root\<rparr>)\<rparr>
      in early (resolve_subpath clean root (ld_actor_id ld)) (p, snd st) (\<lambda>actor_dir.
           case fo_create_dir_all ops actor_dir (snd st) of
             (Inr _, fs) \<Rightarrow> (Ok True, p, fs)
           | (Inl e, fs) \<Rightarrow> (Err (InvalidParameter (''Could not create actor directory: '' @ e)), p, fs)))"

section \<open>Containers\<close>

definition container_exists_fs ::
  "'fs fs_ops \<Rightarrow> (string \<Rightarrow> string) \<Rightarrow> ctx \<Rightarrow> string \<Rightarrow> fs_provider \<times> 'fs \<Rightarrow> bool rpc_result" where
  "container_exists_fs ops clean ctx container_id st =
     rbind (resolve_in_root clean (fst st) ctx container_id) (\<lambda>chunk_dir.
       case fo_read_dir ops chunk_dir (snd st) of Inr _ \<Rightarrow> Ok True | Inl _ \<Rightarrow> Ok False)"

definition create_container_fs ::
  "'fs fs_ops \<Rightarrow> (string \<Rightarrow> string) \<Rightarrow> ctx \<Rightarrow> string \<Rightarrow> fs_provider \<times> 'fs \<Rightarrow>
   unit rpc_result \<times> fs_provider \<times> 'fs" where
  "create_container_fs ops clean ctx container_id st =
     early (resolve_in_root clean (fst st) ctx container_id) st (\<lambda>chunk_dir.
       case fo_create_dir_all ops chunk_dir (snd st) of
         (Inr _, fs) \<Rightarrow> (Ok (), fst st, fs)
       | (Inl e, fs) \<Rightarrow> (Err (InvalidParameter (''Could not create container: '' @ e)), fst st, fs))"

text \<open>The modification time as a timestamp: whole seconds, the 64-bit count read as signed.\<close>

definition modified_timestamp :: "file_meta \<Rightarrow> timestamp rpc_result" where
  "modified_timestamp m =
     rbind (map_err FromIo (fm_modified m)) (\<lambda>d.
       rbind (map_err InvalidParameter d) (\<lambda>secs. Ok \<lparr>ts_sec = sint secs, ts_nsec = 0\<rparr>))"

definition get_container_info_fs ::
  "'fs fs_ops \<Rightarrow> (string \<Rightarrow> string) \<Rightarrow> ctx \<Rightarrow> string \<Rightarrow> fs_provider \<times> 'fs \<Rightarrow> container_metadata rpc_result" where
  "get_container_info_fs ops clean ctx container_id st =
     rbind (resolve_in_root clean (fst st) ctx container_id) (\<lambda>dir_path.
     rbind (map_err FromIo (fo_metadata ops dir_path (snd st))) (\<lambda>dir_info.
     rbind (modified_timestamp dir_info) (\<lambda>modified.
       Ok \<lparr>cm_container_id = container_id, cm_created_at = Some modified\<rparr>)))"

text \<open>
  \<open>Path::strip_prefix\<close> on the paths of directory entries, and the recursive listing of
  \<open>fs_utils.rs\<close>, which aborts on an unreadable directory and stops 1000 levels down.
\<close>

definition component_text :: "path_component \<Rightarrow> string" where
  "component_text c = (case c of RootDir \<Rightarrow> [] | CurDir \<Rightarrow> ''.'' | ParentDir \<Rightarrow> ''..'' | Normal w \<Rightarrow> w)"

definition path_strip_prefix :: "string \<Rightarrow> string \<Rightarrow> string option" where
  "path_strip_prefix pre p =
     (if matches_root (components pre) (components p)
      then Some (join_with ''/'' (map component_text (drop (length (components pre)) (components p))))
      else None)"

definition is_subdir :: "string + dir_entry \<Rightarrow> bool" where
  "is_subdir e = (case e of Inr d \<Rightarrow> (case fe_file_type d of Inr b \<Rightarrow> b | Inl _ \<Rightarrow> False) | Inl _ \<Rightarrow> False)"

definition entry_name :: "string + dir_entry \<Rightarrow> string" where
  "entry_name e = (case e of Inr d \<Rightarrow> fe_name d | Inl _ \<Rightarrow> [])"

definition own_dirs :: "'fs fs_ops \<Rightarrow> 'fs \<Rightarrow> string \<Rightarrow> string \<Rightarrow> string list rpc_result" where
  "own_dirs ops fs root pre =
     (case fo_read_dir ops root fs of
        Inl _ \<Rightarrow> Panic
      | Inr rd \<Rightarrow> traverse (\<lambda>e. unwrap (path_strip_prefix pre (path_join root (entry_name e)))) (filter is_subdir rd))"

function all_dirs :: "'fs fs_ops \<Rightarrow> 'fs \<Rightarrow> string \<Rightarrow> string \<Rightarrow> nat \<Rightarrow> string list rpc_result" where
  "all_dirs ops fs root pre depth =
     (if depth > 1000 then Ok []
      else rbind (own_dirs ops fs root pre) (\<lambda>dirs.
           rbind (traverse (\<lambda>dir. all_dirs ops fs (path_join pre dir) pre (depth + 1)) dirs) (\<lambda>subdirs.
             Ok (dirs @ concat subdirs))))"
  by pat_completeness auto
termination
  by (relation "measure (\<lambda>(ops, fs, root, pre, depth). 1001 - depth)") auto

declare all_dirs.simps [simp del]

definition list_containers_fs ::
  "'fs fs_ops \<Rightarrow> ctx \<Rightarrow> fs_provider \<times> 'fs \<Rightarrow> container_metadata list rpc_result" where
  "list_containers_fs ops ctx st =
     rbind (get_root (fst st) ctx) (\<lambda>root.
     rbind (all_dirs ops (snd st) root root 0) (\<lambda>dirs.
       Ok (map (\<lambda>c. \<lparr>cm_container_id = c, cm_created_at = None\<rparr>) dirs)))"

text \<open>\<open>remove_containers\<close> joins the container name to the root without resolving it.\<close>

fun remove_containers_loop ::
  "'fs fs_ops \<Rightarrow> string \<Rightarrow> string list \<Rightarrow> item_result list \<Rightarrow> 'fs \<Rightarrow> item_result list \<times> 'fs" where
  "remove_containers_loop ops root [] errors fs = (errors, fs)"
| "remove_containers_loop ops root (cid # cids) errors fs =
     (let croot = path_join root cid in
      case fo_remove_dir_all ops croot fs of
        (Inr _, fs') \<Rightarrow> remove_containers_loop ops root cids errors fs'
      | (Inl e, fs') \<Rightarrow>
          (case fo_read_dir ops croot fs' of
             Inr _ \<Rightarrow> remove_containers_loop ops root cids
               (errors @ [\<lparr>ir_key = cid, ir_error = Some e, ir_success = True\<rparr>]) fs'
           | Inl _ \<Rightarrow> remove_containers_loop ops root cids errors fs'))"

definition remove_containers_fs ::
  "'fs fs_ops \<Rightarrow> ctx \<Rightarrow> string list \<Rightarrow> fs_provider \<times> 'fs \<Rightarrow>
   item_result list rpc_result \<times> fs_provider \<times> 'fs" where
  "remove_containers_fs ops ctx arg st =
     early (get_root (fst st) ctx) st (\<lambda>root.
       case remove_containers_loop ops root arg [] (snd st) of (errors, fs) \<Rightarrow> (Ok errors, fst st, fs))"

section \<open>Objects\<close>

definition object_exists_fs ::
  "'fs fs_ops \<Rightarrow> (string \<Rightarrow> string) \<Rightarrow> ctx \<Rightarrow> container_object \<Rightarrow> fs_provider \<times> 'fs \<Rightarrow> bool rpc_result" where
  "object_exists_fs ops clean ctx c st =
     rbind (resolve_in_root clean (fst st) ctx (path_join (co_container_id c) (co_object_id c))) (\<lambda>file_path.
       case fo_open ops file_path (snd st) of Inr _ \<Rightarrow> Ok True | Inl _ \<Rightarrow> Ok False)"

definition get_object_info_fs ::
  "'fs fs_ops \<Rightarrow> (string \<Rightarrow> string) \<Rightarrow> ctx \<Rightarrow> container_object \<Rightarrow> fs_provider \<times> 'fs \<Rightarrow> object_metadata rpc_result" where
  "get_object_info_fs ops clean ctx c st =
     rbind (resolve_in_root clean (fst st) ctx (path_join (co_container_id c) (co_object_id c))) (\<lambda>file_path.
     rbind (map_err FromIo (fo_metadata ops file_path (snd st))) (\<lambda>meta.
     rbind (modified_timestamp meta) (\<lambda>modified.
       Ok \<lparr>om_container_id = co_container_id c, om_object_id = co_object_id c,
           om_last_modified = Some modified, om_content_type = None, om_content_encoding = None,
           om_content_length = fm_len meta\<rparr>)))"

text \<open>The loop of \<open>list_objects\<close>; an error while reading the directory ends it quietly.\<close>

fun list_entries :: "string \<Rightarrow> (string + dir_entry) list \<Rightarrow> object_metadata list rpc_result" where
  "list_entries container_id [] = Ok []"
| "list_entries container_id (Inl e # es) = Ok []"
| "list_entries container_id (Inr d # es) =
     (if fe_is_dir d then list_entries container_id es
      else if \<not> fe_is_unicode d then Err (InvalidParameter ''File name conversion failed'')
      else rbind (map_err FromIo (fe_metadata d)) (\<lambda>meta.
           rbind (modified_timestamp meta) (\<lambda>modified.
           rbind (list_entries container_id es) (\<lambda>rest.
             Ok (\<lparr>om_container_id = container_id, om_object_id = fe_name d,
                  om_last_modified = Some modified, om_content_type = None, om_content_encoding = None,
                  om_content_length = fm_len meta\<rparr> # rest)))))"

definition list_objects_fs ::
  "'fs fs_ops \<Rightarrow> (string \<Rightarrow> string) \<Rightarrow> ctx \<Rightarrow> list_objects_request \<Rightarrow> fs_provider \<times> 'fs \<Rightarrow> list_objects_response rpc_result" where
  "list_objects_fs ops clean ctx req st =
     rbind (resolve_in_root clean (fst st) ctx (lo_container_id req)) (\<lambda>chunk_dir.
     rbind (map_err FromIo (fo_read_dir ops chunk_dir (snd st))) (\<lambda>entries.
     rbind (list_entries (lo_container_id req) entries) (\<lambda>objects.
       Ok \<lparr>lr_objects = objects, lr_is_last = True, lr_continuation = None\<rparr>)))"

fun remove_objects_loop ::
  "'fs fs_ops \<Rightarrow> (string \<Rightarrow> string) \<Rightarrow> string \<Rightarrow> string \<Rightarrow> string list \<Rightarrow> item_result list \<Rightarrow> 'fs \<Rightarrow>
   item_result list rpc_result \<times> 'fs" where
  "remove_objects_loop ops clean root container_id [] errors fs = (Ok errors, fs)"
| "remove_objects_loop ops clean root container_id (obj # objs) errors fs =
     early (resolve_subpath clean root (path_join container_id obj)) fs (\<lambda>object_path.
       case fo_remove_file ops object_path fs of
         (Inr _, fs') \<Rightarrow> remove_objects_loop ops clean root container_id objs errors fs'
       | (Inl e, fs') \<Rightarrow> remove_objects_loop ops clean root container_id objs
           (errors @ [\<lparr>ir_key = fo_debug ops object_path, ir_error = Some e, ir_success = False\<rparr>]) fs')"

definition remove_objects_fs ::
  "'fs fs_ops \<Rightarrow> (string \<Rightarrow> string) \<Rightarrow> ctx \<Rightarrow> remove_objects_request \<Rightarrow> fs_provider \<times> 'fs \<Rightarrow>
   item_result list rpc_result \<times> fs_provider \<times> 'fs" where
  "remove_objects_fs ops clean ctx arg st =
     early (get_root (fst st) ctx) st (\<lambda>root.
       case remove_objects_loop ops clean root (ro_container_id arg) (ro_objects arg) [] (snd st) of
         (r, fs) \<Rightarrow> (r, fst st, fs))"

definition upload_stream_id :: "string \<Rightarrow> chunk \<Rightarrow> string" where
  "upload_stream_id actor_id c = actor_id @ ''+'' @ c_container_id c @ ''+'' @ c_object_id c"

definition put_object_fs ::
  "'fs fs_ops \<Rightarrow> (string \<Rightarrow> string) \<Rightarrow> ctx \<Rightarrow> chunk \<Rightarrow> fs_provider \<times> 'fs \<Rightarrow>
   put_object_response rpc_result \<times> fs_provider \<times> 'fs" where
  "put_object_fs ops clean ctx c st =
     (if c_bytes c = [] then (Err (InvalidParameter ''cannot put zero-length objects''), st)
      else early (if c_is_last c then Ok None
                  else rbind (get_actor_id ctx) (\<lambda>a. Ok (Some (upload_stream_id a c)))) st (\<lambda>stream_id.
        case store_chunk ops clean ctx c stream_id st of
          (r, st') \<Rightarrow> early r st' (\<lambda>_. (Ok \<lparr>pr_stream_id = stream_id\<rparr>, st'))))"

definition put_chunk_fs ::
  "'fs fs_ops \<Rightarrow> (string \<Rightarrow> string) \<Rightarrow> ctx \<Rightarrow> put_chunk_request \<Rightarrow> fs_provider \<times> 'fs \<Rightarrow>
   unit rpc_result \<times> fs_provider \<times> 'fs" where
  "put_chunk_fs ops clean ctx arg st =
     (if \<not> pc_cancel_and_remove arg then store_chunk ops clean ctx (pc_chunk arg) (pc_stream_id arg) st
      else early (resolve_in_root clean (fst st) ctx
                    (path_join (c_container_id (pc_chunk arg)) (c_object_id (pc_chunk arg)))) st (\<lambda>file_path.
        case fo_remove_file ops file_path (snd st) of
          (Inr _, fs) \<Rightarrow> (Ok (), fst st, fs)
        | (Inl _, fs) \<Rightarrow> (Err (InvalidParameter (''Could not cancel and remove file: '' @ fo_debug ops file_path)), fst st, fs)))"

text \<open>The slice \<open>file[start..end]\<close>, which aborts when the range is not one of the file.\<close>

definition slice :: "bytes \<Rightarrow> nat \<Rightarrow> nat \<Rightarrow> bytes rpc_result" where
  "slice b start end' =
     (if start \<le> end' \<and> end' \<le> length b then Ok (take (end' - start) (drop start b)) else Panic)"

definition get_object_fs ::
  "'fs fs_ops \<Rightarrow> (string \<Rightarrow> string) \<Rightarrow> ctx \<Rightarrow> get_object_request \<Rightarrow> fs_provider \<times> 'fs \<Rightarrow> get_object_response rpc_result" where
  "get_object_fs ops clean ctx req st =
     rbind (resolve_in_root clean (fst st) ctx (path_join (go_container_id req) (go_object_id req))) (\<lambda>file_path.
     rbind (map_err FromIo (fo_read ops file_path (snd st))) (\<lambda>file.
       let start_offset = unwrap_or (go_range_start req) 0;
           end_offset = (case go_range_end req of
                           Some o' \<Rightarrow> min (unat (o' + 1)) (length file)
                         | None \<Rightarrow> length file)
       in rbind (get_actor_id ctx) (\<lambda>_. rbind (slice file (unat start_offset) end_offset) (\<lambda>sl.
            Ok \<lparr>gr_success = True, gr_error = None,
                gr_initial_chunk = Some \<lparr>c_object_id = go_object_id req, c_container_id = go_container_id req,
                  c_bytes = sl, c_offset = start_offset, c_is_last = (end_offset \<ge> length file)\<rparr>,
                gr_content_length = of_nat (length sl), gr_content_type = None, gr_content_encoding = None\<rparr>))))"

section \<open>All calls\<close>

definition fs_call ::
  "'fs fs_ops \<Rightarrow> (string \<Rightarrow> string) \<Rightarrow> ctx \<Rightarrow> blob_call \<Rightarrow> fs_provider \<times> 'fs \<Rightarrow>
   blob_reply rpc_result \<times> fs_provider \<times> 'fs" where
  "fs_call ops clean ctx call st =
     (case call of
        ContainerExists arg \<Rightarrow> (rbind (container_exists_fs ops clean ctx arg st) (\<lambda>x. Ok (RBool x)), st)
      | CreateContainer arg \<Rightarrow>
          (case create_container_fs ops clean ctx arg st of (r, st') \<Rightarrow> (rbind r (\<lambda>_. Ok RUnit), st'))
      | GetContainerInfo arg \<Rightarrow> (rbind (get_container_info_fs ops clean ctx arg st) (\<lambda>x. Ok (RContainer x)), st)
      | ListContainers \<Rightarrow> (rbind (list_containers_fs ops ctx st) (\<lambda>x. Ok (RContainers x)), st)
      | RemoveContainers arg \<Rightarrow>
          (case remove_containers_fs ops ctx arg st of (r, st') \<Rightarrow> (rbind r (\<lambda>x. Ok (RItems x)), st'))
      | ObjectExists arg \<Rightarrow> (rbind (object_exists_fs ops clean ctx arg st) (\<lambda>x. Ok (RBool x)), st)
      | GetObjectInfo arg \<Rightarrow> (rbind (get_object_info_fs ops clean ctx arg st) (\<lambda>x. Ok (RObject x)), st)
      | ListObjects arg \<Rightarrow> (rbind (list_objects_fs ops clean ctx arg st) (\<lambda>x. Ok (RList x)), st)
      | RemoveObjects arg \<Rightarrow>
          (case remove_objects_fs ops clean ctx arg st of (r, st') \<Rightarrow> (rbind r (\<lambda>x. Ok (RItems x)), st'))
      | PutObject arg \<Rightarrow>
          (case put_object_fs ops clean ctx arg st of (r, st') \<Rightarrow> (rbind r (\<lambda>x. Ok (RPut x)), st'))
      | PutChunk arg \<Rightarrow>
          (case put_chunk_fs ops clean ctx arg st of (r, st') \<Rightarrow> (rbind r (\<lambda>_. Ok RUnit), st'))
      | GetObject arg \<Rightarrow> (rbind (get_object_fs ops clean ctx arg st) (\<lambda>x. Ok (RGet x)), st))"

section \<open>Links\<close>

text \<open>A link is in the table from put-link on, even when put-link reports an error.\<close>

definition fs_link_of :: "fs_provider \<times> 'fs \<Rightarrow> string \<Rightarrow> link_definition option" where
  "fs_link_of st a = map_option fc_ld (fs_config (fst st) a)"

interpretation fs: link_table fs_link_of "\<lambda>ld st. snd (put_link_fs ops clean ld st)" Some for ops clean
proof unfold_locales
  fix ld st a
  show "fs_link_of (snd (put_link_fs ops clean ld st)) a =
      (if a = ld_actor_id ld then or_else (Some ld) (fs_link_of st a) else fs_link_of st a)"
    unfolding put_link_fs_def Let_def
    by (rule early_state) (auto simp: fs_link_of_def split: prod.splits sum.splits)
qed

section \<open>Confinement\<close>

text \<open>A path lies below a directory: its components start with the directory's and never go up.\<close>

definition below :: "string \<Rightarrow> string \<Rightarrow> bool" where
  "below root p \<longleftrightarrow> prefix (components root) (components p) \<and> ParentDir \<notin> set (components p)"

text \<open>What the code relies on of the path normalisation: an absolute path becomes one without
  parent components.\<close>

definition clean_law :: "(string \<Rightarrow> string) \<Rightarrow> bool" where
  "clean_law clean \<longleftrightarrow> (\<forall>p. is_absolute p \<longrightarrow> is_absolute (clean p) \<and> ParentDir \<notin> set (components (clean p)))"

lemma matches_root_prefix: "matches_root rs js \<longleftrightarrow> prefix rs js"
  by (induction rs js rule: matches_root.induct) auto

lemma is_absolute_join: "is_absolute p \<Longrightarrow> is_absolute (path_join p q)"
  by (auto simp: path_join_def is_absolute_def)

lemma resolve_subpath_Ok:
  assumes "resolve_subpath clean root path = Ok q"
  shows "q = clean (path_join root path)" "prefix (components root) (components q)"
  using assms by (auto simp: resolve_subpath_def matches_root_prefix Let_def split: if_splits)

lemma resolve_subpath_not_Panic [simp]: "resolve_subpath clean root path \<noteq> Panic"
  by (simp add: resolve_subpath_def Let_def)

lemma resolve_subpath_below:
  assumes "clean_law clean" "is_absolute root" "resolve_subpath clean root path = Ok q"
  shows "below root q" "is_absolute q"
  using assms is_absolute_join [of root path] resolve_subpath_Ok [OF assms(3)]
  by (auto simp: below_def clean_law_def)

lemma below_trans: "below root p \<Longrightarrow> below p q \<Longrightarrow> below root q"
  by (auto simp: below_def)

text \<open>
  \<open>obs\<close> observes what lies outside a directory: a change to a path below the directory does not
  show in it. Calls into the actor do not touch the file system.
\<close>

definition outside_view :: "'fs fs_ops \<Rightarrow> string \<Rightarrow> ('fs \<Rightarrow> 'o) \<Rightarrow> bool" where
  "outside_view ops root obs \<longleftrightarrow>
     (\<forall>p fs. below root p \<longrightarrow>
        obs (snd (fo_create ops p fs)) = obs fs \<and>
        (\<forall>b. obs (snd (fo_write ops p b fs)) = obs fs) \<and>
        obs (snd (fo_create_dir_all ops p fs)) = obs fs \<and>
        obs (snd (fo_remove_file ops p fs)) = obs fs)"

lemma outside_viewD:
  assumes "outside_view ops root obs" "below root p"
  shows "fo_create ops p fs = (r1, fs1) \<Longrightarrow> obs fs1 = obs fs"
    and "fo_write ops p b fs = (r2, fs1) \<Longrightarrow> obs fs1 = obs fs"
    and "fo_create_dir_all ops p fs = (r1, fs1) \<Longrightarrow> obs fs1 = obs fs"
    and "fo_remove_file ops p fs = (r1, fs1) \<Longrightarrow> obs fs1 = obs fs"
  using assms unfolding outside_view_def by (metis snd_conv)+

lemma open_upload_view:
  "outside_view ops root obs \<Longrightarrow> below root f \<Longrightarrow> obs (snd (snd (open_upload ops f c sid st))) = obs (snd st)"
  by (auto simp: open_upload_def split: prod.splits sum.splits option.splits dest: outside_viewD)

lemma advance_upload_fs [simp]: "snd (snd (advance_upload c sid st)) = snd st"
  by (cases sid; cases "upload_chunks (fst st) (the sid)") (auto simp: advance_upload_def)

lemma append_chunk_view:
  "outside_view ops root obs \<Longrightarrow> below root f \<Longrightarrow> obs (snd (snd (append_chunk ops f c st))) = obs (snd st)"
  unfolding append_chunk_def
  by (rule early_state) (auto split: prod.splits sum.splits dest: outside_viewD)

lemma early_view:
  "(\<And>x. r = Ok x \<Longrightarrow> obs (snd (snd (f x))) = v) \<Longrightarrow> obs (snd s) = v \<Longrightarrow> obs (snd (snd (early r s f))) = v"
  by (rule early_state)

lemma store_chunk_view:
  assumes "clean_law clean" "is_absolute root" "outside_view ops root obs" "get_root (fst st) ctx = Ok root"
  shows "obs (snd (snd (store_chunk ops clean ctx c sid st))) = obs (snd st)"
  unfolding store_chunk_def assms(4) early.simps
proof (rule early_view [where obs = obs], rule early_view [where obs = obs])
  fix d f
  assume d: "resolve_subpath clean root (c_container_id c) = Ok d"
    and f: "resolve_subpath clean d (c_object_id c) = Ok f"
  obtain r1 st1 where 1: "open_upload ops f c sid st = (r1, st1)" by (cases "open_upload ops f c sid st")
  obtain r2 st2 where 2: "advance_upload c sid st1 = (r2, st2)" by (cases "advance_upload c sid st1")
  note below = resolve_subpath_below [OF assms(1,2)]
  have "below root f" using below [OF d] resolve_subpath_below [OF assms(1) _ f] below_trans by blast
  from open_upload_view [OF assms(3) this, of c sid st] 1 have o1: "obs (snd st1) = obs (snd st)" by simp
  have o2: "obs (snd st2) = obs (snd st)" using advance_upload_fs [of c sid st1] 2 o1 by simp
  show "obs (snd (snd (case open_upload ops f c sid st of (r1, st1) \<Rightarrow> early r1 st1 (\<lambda>_.
      case advance_upload c sid st1 of (r2, st2) \<Rightarrow> early r2 st2 (\<lambda>_.
      early (resolve_subpath clean root (path_join (c_container_id c) (c_object_id c))) st2 (\<lambda>path.
        append_chunk ops path c st2))))) ) = obs (snd st)"
    unfolding 1 prod.case
  proof (rule early_view [where obs = obs], unfold 2 prod.case, rule early_view [where obs = obs],
      rule early_view [where obs = obs])
    fix path
    assume "resolve_subpath clean root (path_join (c_container_id c) (c_object_id c)) = Ok path"
    from append_chunk_view [OF assms(3) below(1) [OF this], of c st2] o2
    show "obs (snd (snd (append_chunk ops path c st2))) = obs (snd st)" by simp
  qed (rule o1 o2)+
qed simp_all

lemma remove_objects_loop_view:
  assumes "clean_law clean" "is_absolute root" "outside_view ops root obs"
  shows "obs (snd (remove_objects_loop ops clean root cid objs errors fs)) = obs fs"
proof (induction objs arbitrary: errors fs)
  case (Cons obj objs)
  show ?case
    unfolding remove_objects_loop.simps
    by (rule early_state)
      (auto simp: Cons split: prod.splits sum.splits
        dest!: resolve_subpath_below(1) [OF assms(1,2)] dest: outside_viewD(4) [OF assms(3)])
qed simp

lemma resolve_in_root_eq:
  "get_root p ctx = Ok root \<Longrightarrow> resolve_in_root clean p ctx path = resolve_subpath clean root path"
  by (simp add: resolve_in_root_def)

lemma fs_call_view:
  assumes "clean_law clean" "is_absolute root" "outside_view ops root obs"
    and root: "get_root (fst st) ctx = Ok root" and "\<forall>cids. call \<noteq> RemoveContainers cids"
  shows "obs (snd (snd (fs_call ops clean ctx call st))) = obs (snd st)"
proof (cases call)
  case (CreateContainer arg)
  have "obs (snd (snd (create_container_fs ops clean ctx arg st))) = obs (snd st)"
    unfolding create_container_fs_def resolve_in_root_eq [OF root]
    by (rule early_view [where obs = obs])
      (auto split: prod.splits sum.splits
        dest!: resolve_subpath_below(1) [OF assms(1,2)] dest: outside_viewD(3) [OF assms(3)])
  with CreateContainer show ?thesis by (auto simp: fs_call_def split: prod.splits)
next
  case (RemoveObjects arg)
  have "obs (snd (snd (remove_objects_fs ops clean ctx arg st))) = obs (snd st)"
    using remove_objects_loop_view [OF assms(1-3), of "ro_container_id arg" "ro_objects arg" "[]" "snd st"]
    by (auto simp: remove_objects_fs_def root split: prod.splits)
  with RemoveObjects show ?thesis by (auto simp: fs_call_def split: prod.splits)
next
  case (PutObject c)
  have "obs (snd (snd (put_object_fs ops clean ctx c st))) = obs (snd st)"
    unfolding put_object_fs_def
    by (auto intro!: early_view [where obs = obs] split: prod.splits)
      (metis store_chunk_view [OF assms(1-3) root] snd_conv)+
  with PutObject show ?thesis by (auto simp: fs_call_def split: prod.splits)
next
  case (PutChunk arg)
  have "obs (snd (snd (put_chunk_fs ops clean ctx arg st))) = obs (snd st)"
  proof (cases "pc_cancel_and_remove arg")
    case True
    show ?thesis
      unfolding put_chunk_fs_def resolve_in_root_eq [OF root] using True
      by (auto intro!: early_view [where obs = obs] split: prod.splits sum.splits
          dest!: resolve_subpath_below(1) [OF assms(1,2)] dest: outside_viewD(4) [OF assms(3)])
  qed (simp add: put_chunk_fs_def store_chunk_view [OF assms(1-3) root])
  with PutChunk show ?thesis by (auto simp: fs_call_def split: prod.splits)
qed (use assms(5) in \<open>auto simp: fs_call_def\<close>)

section \<open>Uploads and downloads\<close>

text \<open>
  What the code relies on of the file system for the file at a path: creating empties it, an
  append after that succeeds, writes everything and adds at the end, and nothing else in
  between changes it.
\<close>

definition file_law :: "'fs fs_ops \<Rightarrow> string \<Rightarrow> bool" where
  "file_law ops f \<longleftrightarrow>
     (\<forall>fs. \<exists>fs'. fo_create ops f fs = (Inr (), fs') \<and> fo_read ops f fs' = Inr []) \<and>
     (\<forall>fs b c. fo_read ops f fs = Inr b \<longrightarrow> fo_open_append ops f fs = Inr () \<and>
        (\<exists>fs'. fo_write ops f c fs = (Inr (length c), fs') \<and> fo_read ops f fs' = Inr (b @ c)))"

text \<open>The file of an object: the two ways \<open>store_chunk\<close> resolves it agree.\<close>

definition object_file :: "(string \<Rightarrow> string) \<Rightarrow> string \<Rightarrow> string \<Rightarrow> string \<Rightarrow> string \<Rightarrow> bool" where
  "object_file clean root cid oid f \<longleftrightarrow>
     (\<exists>d. resolve_subpath clean root cid = Ok d \<and> resolve_subpath clean d oid = Ok f) \<and>
     resolve_subpath clean root (path_join cid oid) = Ok f"

lemma store_chunk_resolved:
  assumes "get_root (fst st) ctx = Ok root" "object_file clean root (c_container_id c) (c_object_id c) f"
  shows "store_chunk ops clean ctx c sid st =
     (case open_upload ops f c sid st of (r1, st1) \<Rightarrow> early r1 st1 (\<lambda>_.
      case advance_upload c sid st1 of (r2, st2) \<Rightarrow> early r2 st2 (\<lambda>_. append_chunk ops f c st2)))"
  using assms by (auto simp: store_chunk_def object_file_def split: prod.splits)

lemma append_chunk_appends:
  assumes "file_law ops f" "fo_read ops f (snd st) = Inr b"
  obtains fs where "append_chunk ops f c st = (Ok (), fst st, fs)" "fo_read ops f fs = Inr (b @ c_bytes c)"
proof -
  obtain fs' where "fo_open_append ops f (snd st) = Inr ()"
    "fo_write ops f (c_bytes c) (snd st) = (Inr (length (c_bytes c)), fs')"
    "fo_read ops f fs' = Inr (b @ c_bytes c)"
    using assms unfolding file_law_def by blast
  then show thesis by (intro that) (simp_all add: append_chunk_def)
qed

text \<open>A chunk of an upload, at the offset that is expected, is appended.\<close>

lemma store_chunk_in_order:
  assumes "file_law ops f" "get_root (fst st) ctx = Ok root"
    and "object_file clean root (c_container_id c) (c_object_id c) f"
    and "c_offset c = 0 \<and> b = [] \<or> c_offset c \<noteq> 0 \<and> upload_chunks (fst st) sid = Some (c_offset c) \<and>
       fo_read ops f (snd st) = Inr b"
  obtains st' where "store_chunk ops clean ctx c (Some sid) st = (Ok (), st')"
    "fs_config (fst st') = fs_config (fst st)"
    "upload_chunks (fst st') sid = Some (if c_is_last c then 0 else c_offset c + of_nat (length (c_bytes c)))"
    "fo_read ops f (snd st') = Inr (b @ c_bytes c)"
proof -
  obtain st1 where 1: "open_upload ops f c (Some sid) st = (Ok (), st1)"
    "upload_chunks (fst st1) sid = Some (c_offset c)" "fo_read ops f (snd st1) = Inr b"
    "fs_config (fst st1) = fs_config (fst st)"
  proof (cases "c_offset c = 0")
    case True
    obtain fs' where "fo_create ops f (snd st) = (Inr (), fs')" "fo_read ops f fs' = Inr []"
      using assms(1) unfolding file_law_def by blast
    then show ?thesis using True assms(4)
      by (intro that [of "((fst st)\<lparr>upload_chunks := (upload_chunks (fst st))(sid \<mapsto> 0)\<rparr>, fs')"])
        (auto simp: open_upload_def)
  next
    case False
    then show ?thesis using assms(4) by (intro that [of st]) (auto simp: open_upload_def)
  qed
  define p2 where "p2 = (fst st1)\<lparr>upload_chunks := (upload_chunks (fst st1))
     (sid \<mapsto> (if c_is_last c then 0 else c_offset c + of_nat (length (c_bytes c))))\<rparr>"
  have 2: "advance_upload c (Some sid) st1 = (Ok (), p2, snd st1)"
    using 1(2) by (simp add: advance_upload_def p2_def)
  obtain fs where "append_chunk ops f c (p2, snd st1) = (Ok (), p2, fs)" "fo_read ops f fs = Inr (b @ c_bytes c)"
    using append_chunk_appends [OF assms(1), of "(p2, snd st1)"] 1(3) by auto
  then show thesis
    using store_chunk_resolved [OF assms(2,3), of ops "Some sid"] 1(1,4) 2
    by (intro that [of "(p2, fs)"]) (simp_all add: p2_def)
qed

text \<open>An upload: chunks of one object sent one after the other under one stream id.\<close>

fun store_chunks ::
  "'fs fs_ops \<Rightarrow> (string \<Rightarrow> string) \<Rightarrow> ctx \<Rightarrow> chunk list \<Rightarrow> string \<Rightarrow> fs_provider \<times> 'fs \<Rightarrow>
   unit rpc_result \<times> fs_provider \<times> 'fs" where
  "store_chunks ops clean ctx [] sid st = (Ok (), st)"
| "store_chunks ops clean ctx (c # cs) sid st =
     (case store_chunk ops clean ctx c (Some sid) st of (r, st') \<Rightarrow>
        early r st' (\<lambda>_. store_chunks ops clean ctx cs sid st'))"

lemma store_chunks_in_order:
  assumes "file_law ops f"
    and "get_root (fst st) ctx = Ok root"
    and "\<forall>c\<in>set cs. object_file clean root (c_container_id c) (c_object_id c) f \<and> c_bytes c \<noteq> []"
    and "contiguous (of_nat (length b)) cs" and "length b + length (total_bytes cs) < 2 ^ 64"
    and "list_all (\<lambda>c. \<not> c_is_last c) (butlast cs)"
    and "b = [] \<or> upload_chunks (fst st) sid = Some (of_nat (length b)) \<and> fo_read ops f (snd st) = Inr b"
    and "cs \<noteq> []"
  shows "\<exists>st'. store_chunks ops clean ctx cs sid st = (Ok (), st') \<and>
     fo_read ops f (snd st') = Inr (b @ total_bytes cs)"
  using assms
proof (induction cs arbitrary: b st)
  case (Cons c cs)
  have off: "c_offset c = of_nat (length b)" using Cons.prems by simp
  have lb: "length b < 2 ^ 64" using Cons.prems by simp
  have z: "c_offset c = 0 \<longleftrightarrow> b = []"
    using unat_of_nat_u64 [OF lb] by (simp add: off unat_eq_0 [symmetric])
  have ready: "c_offset c = 0 \<and> b = [] \<or> c_offset c \<noteq> 0 \<and> upload_chunks (fst st) sid = Some (c_offset c) \<and>
       fo_read ops f (snd st) = Inr b"
    using z Cons.prems(7) off by auto
  have objf: "object_file clean root (c_container_id c) (c_object_id c) f" using Cons.prems(3) by simp
  obtain st1 where 1: "store_chunk ops clean ctx c (Some sid) st = (Ok (), st1)"
    "fs_config (fst st1) = fs_config (fst st)"
    "upload_chunks (fst st1) sid = Some (if c_is_last c then 0 else c_offset c + of_nat (length (c_bytes c)))"
    "fo_read ops f (snd st1) = Inr (b @ c_bytes c)"
    by (rule store_chunk_in_order [OF Cons.prems(1,2) objf ready])
  show ?case
  proof (cases "cs = []")
    case True
    with 1 show ?thesis by simp
  next
    case False
    then have nl: "\<not> c_is_last c" "list_all (\<lambda>c. \<not> c_is_last c) (butlast cs)"
      using Cons.prems(6) by auto
    have root: "get_root (fst st1) ctx = Ok root" using Cons.prems(2) 1(2) by (simp add: get_root_def)
    have "\<exists>st'. store_chunks ops clean ctx cs sid st1 = (Ok (), st') \<and>
       fo_read ops f (snd st') = Inr ((b @ c_bytes c) @ total_bytes cs)"
      using Cons.prems(1,3,4,5) root nl False 1(3,4) off
      by (intro Cons.IH) (auto simp: add.assoc)
    with 1(1) show ?thesis by simp
  qed
qed simp

lemma store_chunk_out_of_order:
  assumes "get_root (fst st) ctx = Ok root" "object_file clean root (c_container_id c) (c_object_id c) f"
    and "c_offset c \<noteq> 0"
  shows "upload_chunks (fst st) sid = None \<Longrightarrow> store_chunk ops clean ctx c (Some sid) st = (Panic, st)"
    and "upload_chunks (fst st) sid = Some e \<Longrightarrow> e \<noteq> c_offset c \<Longrightarrow>
      \<exists>msg. store_chunk ops clean ctx c (Some sid) st = (Err (InvalidParameter msg), st)"
  using assms(3) store_chunk_resolved [OF assms(1,2), of ops "Some sid"]
  by (simp_all add: open_upload_def advance_upload_def)

text \<open>The answer to a request for an inclusive range of an object with bytes \<open>b\<close>.\<close>

definition range_stop :: "u64 option \<Rightarrow> nat \<Rightarrow> nat" where
  "range_stop re n = (case re of Some e \<Rightarrow> min (unat e + 1) n | None \<Rightarrow> n)"

definition returns_range :: "bytes \<Rightarrow> u64 option \<Rightarrow> u64 option \<Rightarrow> get_object_response rpc_result \<Rightarrow> bool" where
  "returns_range b rs re r \<longleftrightarrow>
     (let start = unat (unwrap_or rs 0); stop = range_stop re (length b) in
      if start \<le> stop
      then (\<exists>resp c. r = Ok resp \<and> gr_initial_chunk resp = Some c \<and> c_offset c = unwrap_or rs 0 \<and>
              c_bytes c = map (\<lambda>i. b ! i) [start..<stop] \<and> (c_is_last c \<longleftrightarrow> stop = length b))
      else r = Panic)"

lemma slice_nth: "start \<le> stop \<Longrightarrow> stop \<le> length b \<Longrightarrow> slice b start stop = Ok (map (\<lambda>i. b ! i) [start..<stop])"
  by (auto simp: slice_def intro!: nth_equalityI)

lemma unat_succ_le: "e \<noteq> - 1 \<Longrightarrow> unat (e + 1 :: u64) = unat e + 1"
  using unatSuc [of e] by (simp add: add.commute add_eq_0_iff)

lemma get_object_fs_range:
  assumes "get_root (fst st) ctx = Ok root"
    and "resolve_subpath clean root (path_join cid oid) = Ok f" and "fo_read ops f (snd st) = Inr b"
    and "re \<noteq> Some (- 1)"
  shows "returns_range b rs re (get_object_fs ops clean ctx
     \<lparr>go_container_id = cid, go_object_id = oid, go_range_start = rs, go_range_end = re\<rparr> st)"
proof -
  have stop: "(case re of Some o' \<Rightarrow> min (unat (o' + 1)) (length b) | None \<Rightarrow> length b) = range_stop re (length b)"
    using assms(4) unat_succ_le by (cases re) (auto simp: range_stop_def)
  have le: "range_stop re (length b) \<le> length b" by (simp add: range_stop_def split: option.splits)
  have "get_actor_id ctx = Ok a" if "ctx_actor ctx = Some a" for a using that by (simp add: get_actor_id_def)
  moreover obtain a where "ctx_actor ctx = Some a"
    using assms(1) by (auto simp: get_root_def get_actor_id_def rbind_Ok_iff)
  ultimately have a: "get_actor_id ctx = Ok a" by blast
  show ?thesis
    using le assms(1-3) a
    by (auto simp: returns_range_def get_object_fs_def resolve_in_root_def stop slice_nth Let_def)
      (simp add: slice_def)
qed

section \<open>A file system in memory\<close>

text \<open>Files by path, and lexical normalisation of absolute paths: the instances of the witnesses.\<close>

definition norm_step :: "string list \<Rightarrow> string \<Rightarrow> string list" where
  "norm_step st w = (if w = [] \<or> w = ''.'' then st else if w = ''..'' then tl st else w # st)"

definition lexical_clean :: "string \<Rightarrow> string" where
  "lexical_clean p =
     (if is_absolute p then ''/'' @ join_with ''/'' (rev (foldl norm_step [] (split_on (CHR ''/'') p))) else p)"

lemma split_on_join_with:
  "list_all (\<lambda>w. sep \<notin> set w) ws \<Longrightarrow> ws \<noteq> [] \<Longrightarrow> split_on sep (join_with [sep] ws) = ws"
proof (induction ws)
  case (Cons w ws)
  have w: "sep \<notin> set w \<Longrightarrow> split_on sep w = [w]" by (induction w) auto
  show ?case
  proof (cases ws)
    case Nil
    with Cons.prems w show ?thesis by simp
  next
    case (Cons v vs)
    with Cons.prems Cons.IH w show ?thesis by (simp add: split_on_append_sep)
  qed
qed simp

lemma clean_law_lexical: "clean_law lexical_clean"
proof -
  have "is_absolute (lexical_clean p) \<and> ParentDir \<notin> set (components (lexical_clean p))" if "is_absolute p" for p
  proof -
    let ?ok = "\<lambda>w. CHR ''/'' \<notin> set w \<and> w \<noteq> ''..''"
    have step: "list_all ?ok st \<Longrightarrow> CHR ''/'' \<notin> set w \<Longrightarrow> list_all ?ok (norm_step st w)" for st w
      by (cases st) (auto simp: norm_step_def)
    have fold: "list_all ?ok st \<Longrightarrow> list_all (\<lambda>w. CHR ''/'' \<notin> set w) ws \<Longrightarrow> list_all ?ok (foldl norm_step st ws)" for st ws
      by (induction ws arbitrary: st) (auto simp: step)
    have "list_all (\<lambda>w. CHR ''/'' \<notin> set w) (split_on (CHR ''/'') p)"
      unfolding list_all_iff using split_on_no_sep by blast
    with fold [of "[]"] have ok: "list_all ?ok (rev (foldl norm_step [] (split_on (CHR ''/'') p)))" (is "list_all ?ok ?ws")
      by (simp only: list_all_rev list.pred_inject)
    have "list_all (\<lambda>w. CHR ''/'' \<notin> set w) ?ws" using ok by (auto simp: list_all_iff)
    then have sp: "split_on (CHR ''/'') (lexical_clean p) = [] # (if ?ws = [] then [[]] else ?ws)"
      using that split_on_join_with [of "CHR ''/''" ?ws] by (cases "?ws = []") (simp_all add: lexical_clean_def)
    have np: "list_all ?ok ws \<Longrightarrow> ParentDir \<notin> set (piece_component ws)" for ws
      by (induction ws) auto
    have "is_absolute (lexical_clean p)" using that by (simp add: lexical_clean_def is_absolute_def)
    moreover have "ParentDir \<notin> set (piece_component (split_on (CHR ''/'') (lexical_clean p)))"
      unfolding sp using np [OF ok] by simp
    ultimately show ?thesis by (simp add: components_def Let_def)
  qed
  then show ?thesis by (simp add: clean_law_def)
qed

type_synonym mem_fs = "string \<rightharpoonup> bytes"

definition mem_fs_ops :: "mem_fs fs_ops" where
  "mem_fs_ops = \<lparr>
     fo_create = (\<lambda>p fs. (Inr (), fs(p \<mapsto> []))),
     fo_open_append = (\<lambda>p fs. if fs p = None then Inl ''not found'' else Inr ()),
     fo_write = (\<lambda>p b fs. case fs p of Some b0 \<Rightarrow> (Inr (length b), fs(p \<mapsto> b0 @ b)) | None \<Rightarrow> (Inl ''not found'', fs)),
     fo_open = (\<lambda>p fs. if fs p = None then Inl ''not found'' else Inr ()),
     fo_read = (\<lambda>p fs. case fs p of Some b \<Rightarrow> Inr b | None \<Rightarrow> Inl ''not found''),
     fo_metadata = (\<lambda>p fs. Inl ''unsupported''),
     fo_read_dir = (\<lambda>p fs. Inl ''not found''),
     fo_create_dir_all = (\<lambda>p fs. (Inr (), fs)),
     fo_remove_dir_all = (\<lambda>p fs. (Inr (), (\<lambda>q. if prefix (components p) (components q) then None else fs q))),
     fo_remove_file = (\<lambda>p fs. if fs p = None then (Inl ''not found'', fs) else (Inr (), fs(p := None))),
     fo_receive_chunk = (\<lambda>ld c fs. (Inr False, fs)),
     fo_debug = id\<rparr>"

lemma mem_file_law: "file_law mem_fs_ops f"
  by (auto simp: file_law_def mem_fs_ops_def split: option.splits)

lemma mem_read: "fo_read mem_fs_ops f fs = Inr b \<longleftrightarrow> fs f = Some b"
  by (simp add: mem_fs_ops_def split: option.splits)

lemma mem_outside_view: "\<not> below root q \<Longrightarrow> outside_view mem_fs_ops root (\<lambda>fs. fs q)"
  by (auto simp: outside_view_def mem_fs_ops_def split: option.splits)

definition sample_fs_ld :: link_definition where
  "sample_fs_ld = \<lparr>ld_actor_id = ''A'', ld_provider_id = ''P'', ld_link_name = ''default'',
     ld_contract_id = ''wasmcloud:blobstore'', ld_values = []\<rparr>"

definition sample_fs_provider :: fs_provider where
  "sample_fs_provider = default_fs_provider\<lparr>fs_config := [''A'' \<mapsto> \<lparr>fc_ld = sample_fs_ld, fc_root = ''/tmp''\<rparr>]\<rparr>"

definition actor_A :: ctx where
  "actor_A = \<lparr>ctx_actor = Some ''A''\<rparr>"

lemma sample_root: "get_root sample_fs_provider actor_A = Ok ''/tmp/A''"
  by (simp add: get_root_def get_actor_id_def actor_A_def sample_fs_provider_def path_join_def is_absolute_def)

lemma sample_object_file: "object_file lexical_clean ''/tmp/A'' ''c'' ''o'' ''/tmp/A/c/o''"
  by (simp add: object_file_def resolve_subpath_def lexical_clean_def path_join_def is_absolute_def
      norm_step_def components_def)

section \<open>Properties\<close>

text \<open>C0: whatever call an actor makes, except \<open>remove_containers\<close>, and whatever container and object
  names it sends, nothing outside the actor's own directory below the root of its link changes:
  names with parent components or absolute names are refused before the file system is touched.\<close>
theorem fs_calls_confined:
  assumes "clean_law clean"
    and "ctx_actor ctx = Some a" and "fs_config (fst st) a = Some cfg" and "is_absolute (fc_root cfg)"
    and "outside_view ops (path_join (fc_root cfg) a) obs"
    and "\<forall>cids. call \<noteq> RemoveContainers cids"
  shows "obs (snd (snd (fs_call ops clean ctx call st))) = obs (snd st)"
proof -
  have "get_root (fst st) ctx = Ok (path_join (fc_root cfg) a)"
    using assms(2,3) by (simp add: get_root_def get_actor_id_def)
  from fs_call_view [OF assms(1) is_absolute_join [OF assms(4)] assms(5) this assms(6)] show ?thesis .
qed

theorem fs_calls_confined_witness:
  "snd (snd (fs_call mem_fs_ops lexical_clean actor_A
     (RemoveObjects \<lparr>ro_container_id = ''c'', ro_objects = [''../../../etc/passwd'', ''/etc/passwd'']\<rparr>)
     (sample_fs_provider, [''/etc/passwd'' \<mapsto> [1]]))) ''/etc/passwd'' = Some [1]"
proof -
  let ?cfg = "\<lparr>fc_ld = sample_fs_ld, fc_root = ''/tmp''\<rparr>"
  have 1: "ctx_actor actor_A = Some ''A''" "fs_config (fst (sample_fs_provider, [''/etc/passwd'' \<mapsto> [1]])) ''A'' = Some ?cfg"
    "is_absolute (fc_root ?cfg)"
    by (simp_all add: actor_A_def sample_fs_provider_def is_absolute_def)
  have "\<not> below (path_join (fc_root ?cfg) ''A'') ''/etc/passwd''"
    by (simp add: below_def path_join_def is_absolute_def components_def)
  from fs_calls_confined [OF clean_law_lexical 1 mem_outside_view [OF this],
    of "RemoveObjects \<lparr>ro_container_id = ''c'', ro_objects = [''../../../etc/passwd'', ''/etc/passwd'']\<rparr>"]
  show ?thesis by simp
qed

text \<open>C0: \<open>remove_containers\<close> has no such protection: a container id that is an absolute path is
  removed as it is, whatever the root of the link. In this example an actor confined to
  \<open>/tmp/A\<close> deletes another directory, and no error is reported.\<close>
theorem remove_containers_escapes_root:
  assumes "get_root (fst st) ctx = Ok root" and "is_absolute cid"
    and "fo_remove_dir_all ops cid (snd st) = (Inr (), fs')"
  shows "remove_containers_fs ops ctx [cid] st = (Ok [], fst st, fs')"
  using assms by (simp add: remove_containers_fs_def path_join_def)

theorem remove_containers_escapes_root_witness:
  "\<exists>fs'. remove_containers_fs mem_fs_ops actor_A [''/etc''] (sample_fs_provider, [''/etc/passwd'' \<mapsto> [1]])
      = (Ok [], sample_fs_provider, fs') \<and> fs' ''/etc/passwd'' = None"
proof -
  let ?st = "(sample_fs_provider, [''/etc/passwd'' \<mapsto> [1]])"
  have r: "get_root (fst ?st) actor_A = Ok ''/tmp/A''" by (simp add: sample_root)
  have a: "is_absolute ''/etc''" by (simp add: is_absolute_def)
  obtain fs' where f: "fo_remove_dir_all mem_fs_ops ''/etc'' (snd ?st) = (Inr (), fs')"
    and n: "fs' ''/etc/passwd'' = None"
    by (simp add: mem_fs_ops_def components_def is_absolute_def)
  from remove_containers_escapes_root [OF r a f] n show ?thesis by auto
qed

text \<open>An upload in order is complete: when the chunks of an object, not empty, arrive under one
  stream id at consecutive offsets from 0, only the final one marked last, every one is accepted
  and the file then holds exactly their bytes, one after the other.\<close>

theorem upload_in_order:
  assumes "file_law ops f" and "get_root (fst st) ctx = Ok root"
    and "\<forall>c\<in>set cs. object_file clean root (c_container_id c) (c_object_id c) f \<and> c_bytes c \<noteq> []"
    and "contiguous 0 cs" and "length (total_bytes cs) < 2 ^ 64"
    and "list_all (\<lambda>c. \<not> c_is_last c) (butlast cs)" and "cs \<noteq> []"
  shows "\<exists>st'. store_chunks ops clean ctx cs sid st = (Ok (), st') \<and>
     fo_read ops f (snd st') = Inr (total_bytes cs)"
  using store_chunks_in_order [OF assms(1-3), of "[]"] assms(4-7) by simp

definition chunk_of :: "bytes \<Rightarrow> u64 \<Rightarrow> bool \<Rightarrow> chunk" where
  "chunk_of b off l = \<lparr>c_object_id = ''o'', c_container_id = ''c'', c_bytes = b, c_offset = off, c_is_last = l\<rparr>"

theorem upload_in_order_witness:
  "\<exists>st'. store_chunks mem_fs_ops lexical_clean actor_A [chunk_of [1, 2] 0 False, chunk_of [3] 2 True] ''s''
      (sample_fs_provider, Map.empty) = (Ok (), st') \<and> snd st' ''/tmp/A/c/o'' = Some [1, 2, 3]"
proof -
  let ?cs = "[chunk_of [1, 2] 0 False, chunk_of [3] 2 True]" and ?st = "(sample_fs_provider, Map.empty)"
  have r: "get_root (fst ?st) actor_A = Ok ''/tmp/A''" by (simp add: sample_root)
  have c: "\<forall>c\<in>set ?cs. object_file lexical_clean ''/tmp/A'' (c_container_id c) (c_object_id c) ''/tmp/A/c/o'' \<and>
      c_bytes c \<noteq> []"
    by (simp add: chunk_of_def sample_object_file)
  have "contiguous 0 ?cs" "length (total_bytes ?cs) < 2 ^ 64" "list_all (\<lambda>c. \<not> c_is_last c) (butlast ?cs)" "?cs \<noteq> []"
    by (simp_all add: chunk_of_def)
  from upload_in_order [OF mem_file_law r c this, of "''s''"] show ?thesis
    by (simp add: mem_read chunk_of_def)
qed

lemma upload_out_of_order_facts:
  assumes "get_root (fst st) ctx = Ok root" and "object_file clean root (c_container_id c) (c_object_id c) f"
    and "c_offset c \<noteq> 0" and "upload_chunks (fst st) sid \<noteq> Some (c_offset c)"
  shows "snd (store_chunk ops clean ctx c (Some sid) st) = st"
    and "fst (store_chunk ops clean ctx c (Some sid) st) = Panic \<longleftrightarrow> upload_chunks (fst st) sid = None"
    and "\<not> is_ok (fst (store_chunk ops clean ctx c (Some sid) st))"
proof -
  let ?r = "store_chunk ops clean ctx c (Some sid) st"
  note out = store_chunk_out_of_order [OF assms(1-3)]
  have "snd ?r = st \<and> (fst ?r = Panic \<longleftrightarrow> upload_chunks (fst st) sid = None) \<and> \<not> is_ok (fst ?r)"
  proof (cases "upload_chunks (fst st) sid")
    case None
    then show ?thesis using out(1) [OF None, of ops] by simp
  next
    case (Some e)
    then obtain msg where "?r = (Err (InvalidParameter msg), st)" using out(2) [OF Some, of ops] assms(4) by auto
    then show ?thesis using Some by simp
  qed
  then show "snd ?r = st" "fst ?r = Panic \<longleftrightarrow> upload_chunks (fst st) sid = None" "\<not> is_ok (fst ?r)" by blast+
qed

text \<open>A chunk that is not the first of its object and does not arrive at the offset its stream
  expects is refused with the file and the stream unchanged; for a stream that was never opened
  the provider's task aborts.\<close>

theorem upload_out_of_order:
  assumes "get_root (fst st) ctx = Ok root" and "object_file clean root (c_container_id c) (c_object_id c) f"
    and "c_offset c \<noteq> 0" and "upload_chunks (fst st) sid \<noteq> Some (c_offset c)"
  shows "(snd (store_chunk ops clean ctx c (Some sid) st) = st) \<and>
     (fst (store_chunk ops clean ctx c (Some sid) st) = Panic \<longleftrightarrow> upload_chunks (fst st) sid = None) \<and>
     (\<not> is_ok (fst (store_chunk ops clean ctx c (Some sid) st)))"
  using upload_out_of_order_facts [OF assms] by blast

theorem upload_out_of_order_witness:
  "fst (store_chunk mem_fs_ops lexical_clean actor_A (chunk_of [3] 2 True) (Some ''s'')
     (sample_fs_provider, Map.empty)) = Panic"
  using upload_out_of_order [of "(sample_fs_provider, Map.empty)" actor_A "''/tmp/A''" lexical_clean
      "chunk_of [3] 2 True" "''/tmp/A/c/o''" "''s''" mem_fs_ops] sample_root sample_object_file
  by (simp add: chunk_of_def sample_fs_provider_def default_fs_provider_def)



end
