(* ===== verification/Blobstore_FS_Store.thy ===== *)
theory Blobstore_FS_Store
  imports Blobstore_FS Object_Store
begin

text \<open>
  The file system provider refines the abstract object store: the objects of an actor are the files
  its names resolve to.
\<close>

text \<open>
  What is relied on of the file system for the files of a set of names: besides \<open>file_law\<close>, that a
  loc can be opened when it can be read, that removing works on the files there are, and that an
  operation on one loc leaves what is read from the others as it is.
\<close>

definition others_kept :: "'fs fs_ops \<Rightarrow> string set \<Rightarrow> string \<Rightarrow> 'fs \<Rightarrow> 'fs \<Rightarrow> bool" where
  "others_kept ops F f fs fs' \<longleftrightarrow> (\<forall>g\<in>F. g \<noteq> f \<longrightarrow> fo_read ops g fs' = fo_read ops g fs)"

definition files_law :: "'fs fs_ops \<Rightarrow> string set \<Rightarrow> bool" where
  "files_law ops F \<longleftrightarrow>
     (\<forall>f\<in>F. file_law ops f \<and>
        (\<forall>fs. (\<exists>u. fo_open ops f fs = Inr u) \<longleftrightarrow> (\<exists>b. fo_read ops f fs = Inr b)) \<and>
        (\<forall>fs. others_kept ops F f fs (snd (fo_create ops f fs))) \<and>
        (\<forall>b fs. others_kept ops F f fs (snd (fo_write ops f b fs))) \<and>
        (\<forall>fs. others_kept ops F f fs (snd (fo_remove_file ops f fs)) \<and>
           (\<exists>e. fo_read ops f (snd (fo_remove_file ops f fs)) = Inl e)))"

definition fs_step ::
  "'fs fs_ops \<Rightarrow> (string \<Rightarrow> string) \<Rightarrow> ctx \<Rightarrow> store_op \<Rightarrow> fs_provider \<times> 'fs \<Rightarrow> store_reply \<times> fs_provider \<times> 'fs" where
  "fs_step ops clean ctx x st = (case fs_call ops clean ctx (call_of x) st of (r, st') \<Rightarrow> (reply_of r [], st'))"

definition fs_objs ::
  "'fs fs_ops \<Rightarrow> (string \<times> string \<Rightarrow> string) \<Rightarrow> (string \<times> string) set \<Rightarrow> fs_provider \<times> 'fs \<Rightarrow> obj_store" where
  "fs_objs ops loc N st = (\<lambda>n. if n \<in> N then (case fo_read ops (loc n) (snd st) of Inr b \<Rightarrow> Some b | Inl _ \<Rightarrow> None) else None)"

definition fs_ready ::
  "'fs fs_ops \<Rightarrow> (string \<Rightarrow> string) \<Rightarrow> ctx \<Rightarrow> (string \<times> string \<Rightarrow> string) \<Rightarrow> (string \<times> string) set \<Rightarrow>
   fs_provider \<times> 'fs \<Rightarrow> bool" where
  "fs_ready ops clean ctx loc N st \<longleftrightarrow>
     files_law ops (loc ` N) \<and> inj_on loc N \<and>
     (\<exists>root. get_root (fst st) ctx = Ok root \<and> (\<forall>(c, ob)\<in>N. object_file clean root c ob (loc (c, ob))))"

lemma fs_readyD:
  assumes "fs_ready ops clean ctx loc N st" "(c, ob) \<in> N"
  obtains root where "get_root (fst st) ctx = Ok root" "object_file clean root c ob (loc (c, ob))"
    "resolve_in_root clean (fst st) ctx (path_join c ob) = Ok (loc (c, ob))"
  using assms by (auto simp: fs_ready_def resolve_in_root_def object_file_def)

lemma files_lawD:
  assumes "files_law ops F" "f \<in> F"
  shows "file_law ops f"
    and "(\<exists>u. fo_open ops f fs = Inr u) \<longleftrightarrow> (\<exists>b. fo_read ops f fs = Inr b)"
    and "others_kept ops F f fs (snd (fo_create ops f fs))"
    and "others_kept ops F f fs (snd (fo_write ops f b fs))"
    and "others_kept ops F f fs (snd (fo_remove_file ops f fs))"
    and "\<exists>e. fo_read ops f (snd (fo_remove_file ops f fs)) = Inl e"
  using assms unfolding files_law_def by blast+

text \<open>A change to the file of one object is the same change to the abstract store.\<close>

lemma fs_objs_update:
  assumes "others_kept ops (loc ` N) (loc n) (snd st) fs'" "inj_on loc N" "n \<in> N"
    and "v = (case fo_read ops (loc n) fs' of Inr b \<Rightarrow> Some b | Inl _ \<Rightarrow> None)"
  shows "fs_objs ops loc N (p, fs') = (fs_objs ops loc N st)(n := v)"
  using assms by (auto simp: fs_objs_def others_kept_def fun_eq_iff inj_on_eq_iff)

lemma fs_ready_same:
  "fs_ready ops clean ctx loc N st \<Longrightarrow> get_root p' ctx = get_root (fst st) ctx \<Longrightarrow>
     fs_ready ops clean ctx loc N (p', fs')"
  by (simp add: fs_ready_def)

lemma fs_put_step:
  assumes "fs_ready ops clean ctx loc N st" "(c, ob) \<in> N" "b \<noteq> []"
  obtains fs' where "fs_step ops clean ctx (StorePut c ob b) st = (Stored, fst st, fs')"
    "fs_objs ops loc N (fst st, fs') = (fs_objs ops loc N st)((c, ob) \<mapsto> b)"
proof -
  let ?f = "loc (c, ob)" and ?c = "\<lparr>c_object_id = ob, c_container_id = c, c_bytes = b, c_offset = 0, c_is_last = True\<rparr>"
  obtain root where root: "get_root (fst st) ctx = Ok root" "object_file clean root c ob ?f"
    using fs_readyD [OF assms(1,2)] by blast
  have F: "files_law ops (loc ` N)" "inj_on loc N" "?f \<in> loc ` N"
    using assms(1,2) by (auto simp: fs_ready_def)
  note law = files_lawD [OF F(1,3)]
  obtain fs1 where fs1: "fo_create ops ?f (snd st) = (Inr (), fs1)" "fo_read ops ?f fs1 = Inr []"
    using law(1) unfolding file_law_def by blast
  obtain fs2 where fs2: "fo_open_append ops ?f fs1 = Inr ()" "fo_write ops ?f b fs1 = (Inr (length b), fs2)"
      "fo_read ops ?f fs2 = Inr b"
    using law(1) fs1(2) unfolding file_law_def by (metis append_Nil)
  have "append_chunk ops ?f ?c (fst st, fs1) = (Ok (), fst st, fs2)"
    using fs2 by (simp add: append_chunk_def)
  then have "put_object_fs ops clean ctx ?c st = (Ok \<lparr>pr_stream_id = None\<rparr>, fst st, fs2)"
    using store_chunk_resolved [OF root(1), of clean ?c ?f ops None] root(2) fs1(1) assms(3)
    by (simp add: put_object_fs_def open_upload_def advance_upload_def)
  moreover have "others_kept ops (loc ` N) ?f (snd st) fs2"
    using law(3) [of "snd st"] law(4) [of fs1 b] fs1(1) fs2(2) by (simp add: others_kept_def)
  ultimately show thesis
    using fs_objs_update [OF _ F(2) assms(2), where st = st and fs' = fs2 and p = "fst st" and ops = ops, OF _ refl] fs2(3)
    by (intro that [of fs2]) (simp_all add: fs_step_def fs_call_def reply_of_def)
qed

lemma fs_remove_step:
  assumes "fs_ready ops clean ctx loc N st" "(c, ob) \<in> N"
  obtains fs' where "fs_step ops clean ctx (StoreRemove c ob) st = (Removed, fst st, fs')"
    "fs_objs ops loc N (fst st, fs') = (fs_objs ops loc N st)((c, ob) := None)"
proof -
  let ?f = "loc (c, ob)"
  obtain root where root: "get_root (fst st) ctx = Ok root" "object_file clean root c ob ?f"
    using fs_readyD [OF assms] by blast
  have F: "files_law ops (loc ` N)" "inj_on loc N" "?f \<in> loc ` N"
    using assms by (auto simp: fs_ready_def)
  note law = files_lawD [OF F(1,3)]
  obtain r fs' where rm: "fo_remove_file ops ?f (snd st) = (r, fs')" by (cases "fo_remove_file ops ?f (snd st)")
  have "resolve_subpath clean root (path_join c ob) = Ok ?f" using root(2) by (simp add: object_file_def)
  then have "fs_step ops clean ctx (StoreRemove c ob) st = (Removed, fst st, fs')"
    using rm root(1) by (cases r) (simp_all add: fs_step_def fs_call_def remove_objects_fs_def reply_of_def)
  moreover have "others_kept ops (loc ` N) ?f (snd st) fs'" "\<exists>e. fo_read ops ?f fs' = Inl e"
    using law(5,6) [of "snd st"] rm by simp_all
  ultimately show thesis
    using fs_objs_update [OF _ F(2) assms(2), where st = st and fs' = fs' and p = "fst st"]
    by (intro that [of fs']) auto
qed

lemma fs_get_step:
  assumes "fs_ready ops clean ctx loc N st" "(c, ob) \<in> N"
  shows "fs_step ops clean ctx (StoreGet c ob) st =
     ((case fs_objs ops loc N st (c, ob) of Some b \<Rightarrow> Data b | None \<Rightarrow> Refused), st)"
proof -
  obtain root where root: "get_root (fst st) ctx = Ok root"
      "resolve_in_root clean (fst st) ctx (path_join c ob) = Ok (loc (c, ob))"
    using fs_readyD [OF assms] by blast
  then obtain a where "get_actor_id ctx = Ok a" by (auto simp: get_root_def rbind_Ok_iff)
  with root(2) assms(2) show ?thesis
    by (cases "fo_read ops (loc (c, ob)) (snd st)")
      (simp_all add: fs_step_def fs_call_def get_object_fs_def fs_objs_def reply_of_def slice_def Let_def)
qed

lemma fs_has_step:
  assumes "fs_ready ops clean ctx loc N st" "(c, ob) \<in> N"
  shows "fs_step ops clean ctx (StoreHas c ob) st = (Present (fs_objs ops loc N st (c, ob) \<noteq> None), st)"
proof -
  obtain root where root: "resolve_in_root clean (fst st) ctx (path_join c ob) = Ok (loc (c, ob))"
    using fs_readyD [OF assms] by blast
  have "files_law ops (loc ` N)" "loc (c, ob) \<in> loc ` N" using assms by (auto simp: fs_ready_def)
  from files_lawD(2) [OF this, of "snd st"] root assms(2) show ?thesis
    by (cases "fo_open ops (loc (c, ob)) (snd st)"; cases "fo_read ops (loc (c, ob)) (snd st)")
      (auto simp: fs_step_def fs_call_def object_exists_fs_def fs_objs_def reply_of_def)
qed

interpretation fsb: object_store "fs_step ops clean ctx" "fs_objs ops loc N" "fs_ready ops clean ctx loc N" N
  for ops clean ctx loc N
proof unfold_locales
  fix st x
  assume ready: "fs_ready ops clean ctx loc N st" and sup: "supported N x"
  show "fs_ready ops clean ctx loc N (snd (fs_step ops clean ctx x st)) \<and>
     spec_step x (fs_objs ops loc N st) =
       (fst (fs_step ops clean ctx x st), fs_objs ops loc N (snd (fs_step ops clean ctx x st)))"
  proof (cases x)
    case (StorePut c ob b)
    then obtain fs' where "fs_step ops clean ctx x st = (Stored, fst st, fs')"
      "fs_objs ops loc N (fst st, fs') = (fs_objs ops loc N st)((c, ob) \<mapsto> b)"
      using fs_put_step [OF ready, of c ob b] sup by auto
    with StorePut ready show ?thesis by (simp add: fs_ready_same)
  next
    case (StoreRemove c ob)
    then obtain fs' where "fs_step ops clean ctx x st = (Removed, fst st, fs')"
      "fs_objs ops loc N (fst st, fs') = (fs_objs ops loc N st)((c, ob) := None)"
      using fs_remove_step [OF ready, of c ob] sup by auto
    with StoreRemove ready show ?thesis by (simp add: fs_ready_same)
  qed (use ready sup in \<open>simp_all add: fs_get_step fs_has_step\<close>)
qed


lemma mem_files_law: "files_law mem_fs_ops F"
  by (auto simp: files_law_def mem_file_law)
    (auto simp: mem_fs_ops_def others_kept_def split: option.splits if_splits)

lemma sample_fs_ready:
  "fs_ready mem_fs_ops lexical_clean actor_A (\<lambda>_. ''/tmp/A/c/o'') {(''c'', ''o'')} (sample_fs_provider, fs)"
  by (simp add: fs_ready_def mem_files_law sample_root sample_object_file)

definition sample_store_ops :: "store_op list" where
  "sample_store_ops = [StoreHas ''c'' ''o'', StorePut ''c'' ''o'' [1, 2, 3, 4, 5], StoreGet ''c'' ''o'',
     StoreRemove ''c'' ''o'', StoreGet ''c'' ''o'']"

lemma sample_store_supported: "list_all (supported {(''c'', ''o'')}) sample_store_ops"
  by (simp add: sample_store_ops_def)

lemma sample_store_replies:
  "fst (run_store spec_step sample_store_ops Map.empty) = [Present False, Stored, Data [1, 2, 3, 4, 5], Removed, Refused]"
  by (simp add: sample_store_ops_def)

lemma sample_fs_objs: "fs_objs mem_fs_ops (\<lambda>_. ''/tmp/A/c/o'') {(''c'', ''o'')} (sample_fs_provider, Map.empty) = Map.empty"
  by (simp add: fs_objs_def mem_fs_ops_def fun_eq_iff)


end
