(* ===== verification/Blobstore_FS_Dirs.thy ===== *)
theory Blobstore_FS_Dirs
  imports Blobstore_FS
begin

text \<open>
  What the recursive listing of directories returns: exactly the directories below the root, each
  once, by their names relative to it, down to the depth at which the recursion stops.
\<close>

definition good_name :: "string \<Rightarrow> bool" where
  "good_name w \<longleftrightarrow> w \<noteq> [] \<and> w \<noteq> ''.'' \<and> w \<noteq> ''..'' \<and> CHR ''/'' \<notin> set w"

text \<open>The path the listing uses for a directory given by the names that lead to it.\<close>

definition subpath :: "string \<Rightarrow> string list \<Rightarrow> string" where
  "subpath root ws = (if ws = [] then root else path_join root (join_with ''/'' ws))"

definition subdir_names :: "'fs fs_ops \<Rightarrow> 'fs \<Rightarrow> string \<Rightarrow> string list" where
  "subdir_names ops fs p = (case fo_read_dir ops p fs of Inr rd \<Rightarrow> map entry_name (filter is_subdir rd) | Inl _ \<Rightarrow> [])"

definition dir_below :: "'fs fs_ops \<Rightarrow> 'fs \<Rightarrow> string \<Rightarrow> string list \<Rightarrow> bool" where
  "dir_below ops fs root ws \<longleftrightarrow> (\<forall>i<length ws. ws ! i \<in> set (subdir_names ops fs (subpath root (take i ws))))"

text \<open>
  The directories that are visited can be read, and the entries of a directory have different names,
  none of which is a dot, two dots or has a separator in it.
\<close>

definition tree_ok :: "'fs fs_ops \<Rightarrow> 'fs \<Rightarrow> string \<Rightarrow> bool" where
  "tree_ok ops fs root \<longleftrightarrow> (\<forall>ws. dir_below ops fs root ws \<longrightarrow> length ws \<le> 1000 \<longrightarrow>
     (\<exists>rd. fo_read_dir ops (subpath root ws) fs = Inr rd) \<and>
     list_all good_name (subdir_names ops fs (subpath root ws)) \<and> distinct (subdir_names ops fs (subpath root ws)))"

lemma dir_below_Nil [simp]: "dir_below ops fs root []"
  by (simp add: dir_below_def)

lemma dir_below_snoc:
  "dir_below ops fs root (ws @ [w]) \<longleftrightarrow> dir_below ops fs root ws \<and> w \<in> set (subdir_names ops fs (subpath root ws))"
  by (auto simp: dir_below_def nth_append less_Suc_eq)

lemma dir_below_append: "dir_below ops fs root (ws @ vs) \<Longrightarrow> dir_below ops fs root ws"
  by (induction vs rule: rev_induct) (simp_all add: dir_below_snoc flip: append_assoc)

lemma dir_below_good:
  assumes "tree_ok ops fs root"
  shows "dir_below ops fs root ws \<Longrightarrow> length ws \<le> 1001 \<Longrightarrow> list_all good_name ws"
proof (induction ws rule: rev_induct)
  case (snoc w ws)
  then have "dir_below ops fs root ws" "w \<in> set (subdir_names ops fs (subpath root ws))" by (simp_all add: dir_below_snoc)
  with assms snoc show ?case unfolding tree_ok_def by (auto simp: list_all_iff)
qed simp

subsection \<open>Paths of names\<close>

lemma split_join_good: "list_all good_name ws \<Longrightarrow> ws \<noteq> [] \<Longrightarrow> split_on (CHR ''/'') (join_with ''/'' ws) = ws"
  using split_on_join_with [of "CHR ''/''" ws] by (simp add: good_name_def list_all_iff)

lemma join_inj: "inj_on (join_with ''/'') {ws. list_all good_name ws \<and> ws \<noteq> []}"
  by (rule inj_on_inverseI [of _ "split_on (CHR ''/'')"]) (simp add: split_join_good)

lemma piece_component_good: "list_all good_name ws \<Longrightarrow> piece_component ws = map Normal ws"
  by (induction ws) (auto simp: good_name_def)

lemma join_relative: "list_all good_name ws \<Longrightarrow> ws \<noteq> [] \<Longrightarrow> \<not> is_absolute (join_with ''/'' ws)"
  by (cases ws; cases "tl ws"; cases "hd ws") (auto simp: is_absolute_def good_name_def)

lemma components_subpath:
  assumes "root \<noteq> []" "list_all good_name ws"
  shows "components (subpath root ws) = components root @ map Normal ws"
  using assms components_join [OF assms(1) join_relative, of ws]
  by (simp add: subpath_def split_join_good piece_component_good)

lemma subpath_not_Nil: "root \<noteq> [] \<Longrightarrow> subpath root ws \<noteq> []"
  by (auto simp: subpath_def path_join_def is_absolute_def)

lemma strip_entry:
  assumes "root \<noteq> []" "list_all good_name (ws @ [n])"
  shows "path_strip_prefix root (path_join (subpath root ws) n) = Some (join_with ''/'' (ws @ [n]))"
proof -
  have "components (path_join (subpath root ws) n) = components (subpath root ws) @ [Normal n]"
    using components_join [OF subpath_not_Nil [OF assms(1)], of n ws] assms(2)
      join_relative [of "[n]"] split_join_good [of "[n]"] piece_component_good [of "[n]"] by simp
  then have c: "components (path_join (subpath root ws) n) = components root @ map Normal (ws @ [n])"
    using components_subpath [OF assms(1), of ws] assms(2) by simp
  have "map (component_text \<circ> Normal) vs = vs" for vs by (induction vs) (simp_all add: component_text_def)
  moreover have "matches_root cs (cs @ ds)" for cs ds by (induction cs) simp_all
  ultimately show ?thesis by (simp add: path_strip_prefix_def c) (simp add: component_text_def)
qed

subsection \<open>The listing\<close>

lemma traverse_Ok: "(\<And>x. x \<in> set xs \<Longrightarrow> f x = Ok (g x)) \<Longrightarrow> traverse f xs = Ok (map g xs)"
  by (induction xs) simp_all

lemma traverse_map: "traverse f (map h xs) = traverse (\<lambda>x. f (h x)) xs"
  by (induction xs) simp_all

lemma own_dirs_names:
  assumes "root \<noteq> []" "fo_read_dir ops (subpath root ws) fs = Inr rd"
    and "list_all good_name ws" "list_all good_name (subdir_names ops fs (subpath root ws))"
  shows "own_dirs ops fs (subpath root ws) root =
     Ok (map (\<lambda>n. join_with ''/'' (ws @ [n])) (subdir_names ops fs (subpath root ws)))"
proof -
  have names: "subdir_names ops fs (subpath root ws) = map entry_name (filter is_subdir rd)"
    by (simp add: subdir_names_def assms(2))
  have "unwrap (path_strip_prefix root (path_join (subpath root ws) (entry_name e))) =
      Ok (join_with ''/'' (ws @ [entry_name e]))" if "e \<in> set (filter is_subdir rd)" for e
    using strip_entry [OF assms(1), of ws "entry_name e"] assms(3,4) that by (auto simp: names list_all_iff)
  then have "traverse (\<lambda>e. unwrap (path_strip_prefix root (path_join (subpath root ws) (entry_name e)))) (filter is_subdir rd) =
      Ok (map (\<lambda>e. join_with ''/'' (ws @ [entry_name e])) (filter is_subdir rd))"
    by (rule traverse_Ok)
  then show ?thesis by (simp add: own_dirs_def assms(2) names comp_def)
qed

lemma distinct_concat_map:
  assumes "distinct xs" "\<And>x. x \<in> set xs \<Longrightarrow> distinct (g x)"
    and "\<And>x y. x \<noteq> y \<Longrightarrow> x \<in> set xs \<Longrightarrow> y \<in> set xs \<Longrightarrow> set (g x) \<inter> set (g y) = {}"
  shows "distinct (concat (map g xs))"
  using assms
proof (induction xs)
  case (Cons x xs)
  have "set (g x) \<inter> set (g y) = {}" if "y \<in> set xs" for y
    using Cons.prems(1,3) that by (metis distinct.simps(2) list.set_intros)
  then have "set (g x) \<inter> set (concat (map g xs)) = {}" by auto
  with Cons show ?case by simp
qed simp

text \<open>The directories below the one that \<open>ws\<close> leads to, down to the depth limit.\<close>

definition below_set :: "'fs fs_ops \<Rightarrow> 'fs \<Rightarrow> string \<Rightarrow> string list \<Rightarrow> string list set" where
  "below_set ops fs root ws = {ws @ vs |vs. vs \<noteq> [] \<and> length (ws @ vs) \<le> 1001 \<and> dir_below ops fs root (ws @ vs)}"

lemma below_set_step:
  assumes "dir_below ops fs root ws" "length ws \<le> 1000"
  shows "below_set ops fs root ws = (\<Union>n\<in>set (subdir_names ops fs (subpath root ws)).
     insert (ws @ [n]) (below_set ops fs root (ws @ [n])))" (is "?l = ?r")
proof
  show "?l \<subseteq> ?r"
  proof
    fix us
    assume "us \<in> ?l"
    then obtain n vs where us: "us = (ws @ [n]) @ vs" "length us \<le> 1001" "dir_below ops fs root us"
      by (auto simp: below_set_def neq_Nil_conv)
    then have "n \<in> set (subdir_names ops fs (subpath root ws))"
      using dir_below_append [of ops fs root "ws @ [n]" vs] by (simp add: dir_below_snoc)
    moreover have "us \<in> insert (ws @ [n]) (below_set ops fs root (ws @ [n]))"
      using us by (cases "vs = []") (auto simp: below_set_def)
    ultimately show "us \<in> ?r" by blast
  qed
  show "?r \<subseteq> ?l" using assms by (auto simp: below_set_def dir_below_snoc)
qed

lemma all_dirs_below:
  assumes "root \<noteq> []" "tree_ok ops fs root"
  shows "dir_below ops fs root ws \<Longrightarrow> length ws \<le> 1001 \<Longrightarrow>
     \<exists>wss. all_dirs ops fs (subpath root ws) root (length ws) = Ok (map (join_with ''/'') wss) \<and>
       distinct wss \<and> set wss = below_set ops fs root ws"
proof (induction "1001 - length ws" arbitrary: ws)
  case 0
  then have "all_dirs ops fs (subpath root ws) root (length ws) = Ok []" "below_set ops fs root ws = {}"
    by (auto simp: all_dirs.simps [of ops fs "subpath root ws"] below_set_def)
  then show ?case by (intro exI [of _ "[]"]) simp
next
  case (Suc k)
  let ?ns = "subdir_names ops fs (subpath root ws)"
  have len: "length ws \<le> 1000" using Suc.hyps(2) by simp
  obtain rd where rd: "fo_read_dir ops (subpath root ws) fs = Inr rd" and ns: "list_all good_name ?ns" "distinct ?ns"
    using assms(2) Suc.prems(1) len unfolding tree_ok_def by blast
  have good: "list_all good_name ws" using dir_below_good [OF assms(2) Suc.prems] .
  have "\<exists>wss. all_dirs ops fs (path_join root (join_with ''/'' (ws @ [n]))) root (length ws + 1) = Ok (map (join_with ''/'') wss) \<and>
      distinct wss \<and> set wss = below_set ops fs root (ws @ [n])" if "n \<in> set ?ns" for n
    using Suc.hyps(1) [of "ws @ [n]"] Suc.hyps(2) Suc.prems(1) that len by (simp add: dir_below_snoc subpath_def)
  then obtain g where g: "all_dirs ops fs (path_join root (join_with ''/'' (ws @ [n]))) root (length ws + 1) =
      Ok (map (join_with ''/'') (g n))" "distinct (g n)" "set (g n) = below_set ops fs root (ws @ [n])"
    if "n \<in> set ?ns" for n by metis
  let ?wss = "map (\<lambda>n. ws @ [n]) ?ns @ concat (map g ?ns)"
  have "traverse (\<lambda>dir. all_dirs ops fs (path_join root dir) root (length ws + 1)) (map (\<lambda>n. join_with ''/'' (ws @ [n])) ?ns) =
      Ok (map (\<lambda>n. map (join_with ''/'') (g n)) ?ns)"
    unfolding traverse_map by (rule traverse_Ok) (rule g(1))
  then have "all_dirs ops fs (subpath root ws) root (length ws) = Ok (map (join_with ''/'') ?wss)"
    using own_dirs_names [OF assms(1) rd good ns(1)] len
    by (simp add: all_dirs.simps [of ops fs "subpath root ws"] map_concat comp_def)
  moreover have "distinct ?wss"
  proof -
    have "set (g n) \<inter> set (g m) = {}" if "n \<noteq> m" "n \<in> set ?ns" "m \<in> set ?ns" for n m
      using that g(3) by (auto simp: below_set_def)
    then have "distinct (concat (map g ?ns))" using g(2) ns(2) by (intro distinct_concat_map) auto
    moreover have "inj_on (\<lambda>n. ws @ [n]) (set ?ns)" by (simp add: inj_on_def)
    moreover have "set (map (\<lambda>n. ws @ [n]) ?ns) \<inter> set (concat (map g ?ns)) = {}"
      using g(3) by (auto simp: below_set_def)
    ultimately show ?thesis using ns(2) by (simp add: distinct_map)
  qed
  moreover have "set ?wss = below_set ops fs root ws"
    using g(3) by (auto simp: below_set_step [OF Suc.prems(1) len])
  ultimately show ?case by blast
qed

section \<open>Property\<close>


text \<open>A tree with a directory and one in it.\<close>

definition dir_entry_of :: "string \<Rightarrow> bool \<Rightarrow> string + dir_entry" where
  "dir_entry_of n d = Inr \<lparr>fe_name = n, fe_is_unicode = True, fe_file_type = Inr d, fe_is_dir = d, fe_metadata = Inl []\<rparr>"

definition tree_fs_ops :: "mem_fs fs_ops" where
  "tree_fs_ops = mem_fs_ops\<lparr>fo_read_dir := (\<lambda>p fs.
     Inr (if p = ''/tmp/A'' then [dir_entry_of ''d'' True, dir_entry_of ''f'' False]
          else if p = ''/tmp/A/d'' then [dir_entry_of ''e'' True] else []))\<rparr>"


end
