(* ===== verification/Blobstore_FS_Uploads.thy ===== *)
theory Blobstore_FS_Uploads
  imports Blobstore_FS_Store
begin

text \<open>
  Chunked uploads of the file system provider that overlap: the chunks of several uploads, of one or
  of several actors, arrive interleaved. The provider keeps one expected offset per stream in a table
  that all actors share; \<open>put_object\<close> names the stream after the actor, the container and the object.
\<close>

section \<open>Messages\<close>

text \<open>
  An actor sends the first chunk of an object with \<open>put_object\<close> and the others with \<open>put_chunk\<close>, under the
  stream id that \<open>put_object\<close> returned.
\<close>

type_synonym upload_msg = "ctx \<times> chunk"

definition stream_of :: "upload_msg \<Rightarrow> string" where
  "stream_of m = upload_stream_id (unwrap_or (ctx_actor (fst m)) []) (snd m)"

definition send_upload ::
  "'fs fs_ops \<Rightarrow> (string \<Rightarrow> string) \<Rightarrow> upload_msg \<Rightarrow> fs_provider \<times> 'fs \<Rightarrow> unit rpc_result \<times> fs_provider \<times> 'fs" where
  "send_upload ops clean m st =
     (if c_offset (snd m) = 0
      then (case put_object_fs ops clean (fst m) (snd m) st of (r, st') \<Rightarrow> (rbind r (\<lambda>_. Ok ()), st'))
      else put_chunk_fs ops clean (fst m)
        \<lparr>pc_chunk = snd m, pc_stream_id = Some (stream_of m), pc_cancel_and_remove = False\<rparr> st)"

fun send_all ::
  "'fs fs_ops \<Rightarrow> (string \<Rightarrow> string) \<Rightarrow> upload_msg list \<Rightarrow> fs_provider \<times> 'fs \<Rightarrow> unit rpc_result list \<times> fs_provider \<times> 'fs" where
  "send_all ops clean [] st = ([], st)"
| "send_all ops clean (m # ms) st =
     (case send_upload ops clean m st of (r, st') \<Rightarrow>
        (case send_all ops clean ms st' of (rs, st'') \<Rightarrow> (r # rs, st'')))"

definition chunks_of :: "string \<Rightarrow> upload_msg list \<Rightarrow> chunk list" where
  "chunks_of sid ms = map snd (filter (\<lambda>m. stream_of m = sid) ms)"

lemma chunks_of_simps [simp]:
  "chunks_of sid [] = []"
  "chunks_of sid (m # ms) = (if stream_of m = sid then snd m # chunks_of sid ms else chunks_of sid ms)"
  by (simp_all add: chunks_of_def)

lemma get_rootD: "get_root p ctx = Ok root \<Longrightarrow> \<exists>a. ctx_actor ctx = Some a \<and> get_actor_id ctx = Ok a"
  by (cases "ctx_actor ctx") (auto simp: get_root_def get_actor_id_def rbind_Ok_iff ok_or_def)

lemma send_upload_store:
  assumes "get_root (fst st) (fst m) = Ok root" "c_bytes (snd m) \<noteq> []"
  shows "send_upload ops clean m st =
     store_chunk ops clean (fst m) (snd m) (if c_offset (snd m) = 0 \<and> c_is_last (snd m) then None else Some (stream_of m)) st"
proof (cases "c_offset (snd m) = 0")
  case True
  obtain a where a: "ctx_actor (fst m) = Some a" "get_actor_id (fst m) = Ok a" using get_rootD [OF assms(1)] by blast
  let ?sid = "if c_is_last (snd m) then None else Some (stream_of m)"
  obtain r st' where "store_chunk ops clean (fst m) (snd m) ?sid st = (r, st')" by (cases "store_chunk ops clean (fst m) (snd m) ?sid st")
  with True a assms(2) show ?thesis
    by (cases r) (auto simp: send_upload_def put_object_fs_def stream_of_def)
qed (simp add: send_upload_def put_chunk_fs_def)

section \<open>One chunk\<close>

text \<open>A chunk leaves every other file and every other stream as it is.\<close>

lemma store_chunk_frame:
  assumes "files_law ops F" "f \<in> F" "get_root (fst st) ctx = Ok root"
    and "object_file clean root (c_container_id c) (c_object_id c) f"
    and "store_chunk ops clean ctx c sid st = (r, st')"
  shows "fs_config (fst st') = fs_config (fst st)"
    and "sid \<noteq> Some sid' \<Longrightarrow> upload_chunks (fst st') sid' = upload_chunks (fst st) sid'"
    and "others_kept ops F f (snd st) (snd st')"
proof -
  define K where "K = (\<lambda>(s :: fs_provider \<times> 'a) (s' :: fs_provider \<times> 'a). fs_config (fst s') = fs_config (fst s) \<and>
      (\<forall>sid'. sid \<noteq> Some sid' \<longrightarrow> upload_chunks (fst s') sid' = upload_chunks (fst s) sid') \<and>
      others_kept ops F f (snd s) (snd s'))"
  have trans: "K s s'' " if "K s s'" "K s' s''" for s s' s''
    using that by (simp add: K_def others_kept_def)
  have refl: "K s s" for s by (simp add: K_def others_kept_def)
  note law = files_lawD [OF assms(1,2)]
  have o: "K s (snd (open_upload ops f c sid s))" for s
    using law(3) [of "snd s"]
    by (auto simp: K_def open_upload_def others_kept_def split: prod.splits sum.splits option.splits if_splits)
  have a: "K s (snd (advance_upload c sid s))" for s
    by (cases sid; cases "upload_chunks (fst s) (the sid)") (auto simp: K_def advance_upload_def others_kept_def)
  have w: "K s (snd (append_chunk ops f c s))" for s
    using law(4) [of "snd s" "c_bytes c"]
    by (cases "fo_open_append ops f (snd s)")
      (auto simp: K_def append_chunk_def others_kept_def split: prod.splits sum.splits if_splits)
  have e: "K s (snd (early r s' g))" if "K s s'" "\<And>x. K s (snd (g x))" for s s' and r :: "unit rpc_result" and g :: "unit \<Rightarrow> unit rpc_result \<times> fs_provider \<times> 'a"
    using that by (cases r) simp_all
  have "K st (snd (store_chunk ops clean ctx c sid st))"
    unfolding store_chunk_resolved [OF assms(3,4), of ops sid] case_prod_unfold
    using o a w trans by (intro e) blast+
  with assms(5) show "fs_config (fst st') = fs_config (fst st)"
    "sid \<noteq> Some sid' \<Longrightarrow> upload_chunks (fst st') sid' = upload_chunks (fst st) sid'" "others_kept ops F f (snd st) (snd st')"
    by (simp_all add: K_def)
qed

text \<open>An object in a single chunk, for which there is no stream.\<close>

lemma store_chunk_whole:
  assumes "file_law ops f" "get_root (fst st) ctx = Ok root"
    and "object_file clean root (c_container_id c) (c_object_id c) f" "c_offset c = 0" "c_is_last c"
  obtains st' where "store_chunk ops clean ctx c None st = (Ok (), st')" "fo_read ops f (snd st') = Inr (c_bytes c)"
proof -
  obtain fs1 where fs1: "fo_create ops f (snd st) = (Inr (), fs1)" "fo_read ops f fs1 = Inr []"
    using assms(1) unfolding file_law_def by blast
  obtain fs2 where fs2: "append_chunk ops f c (fst st, fs1) = (Ok (), fst st, fs2)" "fo_read ops f fs2 = Inr ([] @ c_bytes c)"
    using append_chunk_appends [OF assms(1), of "(fst st, fs1)"] fs1(2) by auto
  show thesis
    using store_chunk_resolved [OF assms(2,3), of ops None] fs1 fs2 assms(4,5)
    by (intro that [of "(fst st, fs2)"]) (simp_all add: open_upload_def advance_upload_def)
qed

section \<open>An upload under way\<close>

text \<open>\<open>b\<close> has been received of an object in the file \<open>f\<close>, and the chunks \<open>cs\<close> are still to come.\<close>

definition upload_ready :: "'fs fs_ops \<Rightarrow> string \<Rightarrow> string \<Rightarrow> fs_provider \<times> 'fs \<Rightarrow> bytes \<Rightarrow> chunk list \<Rightarrow> bool" where
  "upload_ready ops f sid st b cs \<longleftrightarrow>
     (b \<noteq> [] \<longrightarrow> fo_read ops f (snd st) = Inr b \<and> (cs \<noteq> [] \<longrightarrow> upload_chunks (fst st) sid = Some (of_nat (length b)))) \<and>
     contiguous (of_nat (length b)) cs \<and> length b + length (total_bytes cs) < 2 ^ 64 \<and>
     list_all (\<lambda>c. \<not> c_is_last c) (butlast cs) \<and> list_all (\<lambda>c. c_bytes c \<noteq> []) cs"

lemma upload_ready_other:
  assumes "upload_ready ops g sid st b cs" "upload_chunks (fst st') sid = upload_chunks (fst st) sid"
    and "fo_read ops g (snd st') = fo_read ops g (snd st)"
  shows "upload_ready ops g sid st' b cs"
  using assms by (simp add: upload_ready_def)

lemma upload_ready_step:
  assumes "upload_ready ops f (stream_of m) st b (snd m # cs)" and "file_law ops f"
    and "get_root (fst st) (fst m) = Ok root"
    and "object_file clean root (c_container_id (snd m)) (c_object_id (snd m)) f"
  obtains st' where "send_upload ops clean m st = (Ok (), st')" "upload_ready ops f (stream_of m) st' (b @ c_bytes (snd m)) cs"
proof -
  let ?c = "snd m" and ?sid = "stream_of m"
  have ne: "c_bytes ?c \<noteq> []" and off: "c_offset ?c = of_nat (length b)" and lb: "length b < 2 ^ 64"
    using assms(1) by (simp_all add: upload_ready_def)
  have z: "c_offset ?c = 0 \<longleftrightarrow> b = []"
    using unat_of_nat_u64 [OF lb] by (simp add: off unat_eq_0 [symmetric])
  obtain st' where st': "send_upload ops clean m st = (Ok (), st')" "fo_read ops f (snd st') = Inr (b @ c_bytes ?c)"
    "\<not> c_is_last ?c \<Longrightarrow> upload_chunks (fst st') ?sid = Some (of_nat (length (b @ c_bytes ?c)))"
  proof (cases "c_offset ?c = 0 \<and> c_is_last ?c")
    case True
    then obtain st' where "store_chunk ops clean (fst m) ?c None st = (Ok (), st')" "fo_read ops f (snd st') = Inr (c_bytes ?c)"
      using store_chunk_whole [OF assms(2-4)] by blast
    with True z show thesis by (intro that [of st']) (simp_all add: send_upload_store [OF assms(3) ne])
  next
    case False
    have "c_offset ?c = 0 \<and> b = [] \<or> c_offset ?c \<noteq> 0 \<and> upload_chunks (fst st) ?sid = Some (c_offset ?c) \<and>
       fo_read ops f (snd st) = Inr b"
      using z off assms(1) by (auto simp: upload_ready_def)
    from store_chunk_in_order [OF assms(2-4) this]
    obtain st' where "store_chunk ops clean (fst m) ?c (Some ?sid) st = (Ok (), st')"
      "upload_chunks (fst st') ?sid = Some (if c_is_last ?c then 0 else c_offset ?c + of_nat (length (c_bytes ?c)))"
      "fo_read ops f (snd st') = Inr (b @ c_bytes ?c)" .
    with False off show thesis by (intro that [of st']) (auto simp: send_upload_store [OF assms(3) ne])
  qed
  moreover have "\<not> c_is_last ?c" if "cs \<noteq> []" using that assms(1) by (simp add: upload_ready_def)
  moreover have "list_all (\<lambda>c. \<not> c_is_last c) (butlast cs)" using assms(1) by (cases cs) (simp_all add: upload_ready_def)
  ultimately have "upload_ready ops f ?sid st' (b @ c_bytes ?c) cs"
    using assms(1) off by (auto simp: upload_ready_def add.assoc)
  with st'(1) show thesis by (rule that)
qed

section \<open>Uploads side by side\<close>

definition upload_place ::
  "(string \<Rightarrow> string) \<Rightarrow> (string \<Rightarrow> string) \<Rightarrow> fs_provider \<Rightarrow> upload_msg \<Rightarrow> bool" where
  "upload_place clean loc p m \<longleftrightarrow>
     (\<exists>root. get_root p (fst m) = Ok root \<and>
        object_file clean root (c_container_id (snd m)) (c_object_id (snd m)) (loc (stream_of m)))"

lemma send_all_ready:
  assumes "files_law ops (loc ` S)" "inj_on loc S"
    and "\<forall>m\<in>set ms. stream_of m \<in> S \<and> upload_place clean loc (fst st) m"
    and "\<forall>sid\<in>S. upload_ready ops (loc sid) sid st (D sid) (chunks_of sid ms)"
  shows "list_all (\<lambda>r. r = Ok ()) (fst (send_all ops clean ms st)) \<and>
    (\<forall>sid\<in>S. upload_ready ops (loc sid) sid (snd (send_all ops clean ms st)) (D sid @ total_bytes (chunks_of sid ms)) [])"
  using assms(3,4)
proof (induction ms arbitrary: st D)
  case (Cons m ms)
  let ?sid = "stream_of m" and ?c = "snd m"
  have S: "?sid \<in> S" "loc ?sid \<in> loc ` S" using Cons.prems(1) by auto
  obtain root where root: "get_root (fst st) (fst m) = Ok root"
    "object_file clean root (c_container_id ?c) (c_object_id ?c) (loc ?sid)"
    using Cons.prems(1) by (auto simp: upload_place_def)
  have ready: "upload_ready ops (loc ?sid) ?sid st (D ?sid) (?c # chunks_of ?sid ms)"
    using Cons.prems(2) S(1) by (metis chunks_of_simps(2))
  obtain st' where st': "send_upload ops clean m st = (Ok (), st')"
    "upload_ready ops (loc ?sid) ?sid st' (D ?sid @ c_bytes ?c) (chunks_of ?sid ms)"
    using upload_ready_step [OF ready files_lawD(1) [OF assms(1) S(2)] root] .
  have "c_bytes ?c \<noteq> []" using ready by (simp add: upload_ready_def)
  note frame = store_chunk_frame [OF assms(1) S(2) root st'(1) [unfolded send_upload_store [OF root(1) this]]]
  have "upload_ready ops (loc sid) sid st' (D sid) (chunks_of sid ms)" if "sid \<in> S" "sid \<noteq> ?sid" for sid
  proof (rule upload_ready_other)
    show "upload_ready ops (loc sid) sid st (D sid) (chunks_of sid ms)" using Cons.prems(2) that by fastforce
    show "upload_chunks (fst st') sid = upload_chunks (fst st) sid" using frame(2) that by simp
    have "loc sid \<noteq> loc ?sid" using assms(2) S(1) that by (simp add: inj_on_eq_iff)
    then show "fo_read ops (loc sid) (snd st') = fo_read ops (loc sid) (snd st)"
      using frame(3) that by (simp add: others_kept_def)
  qed
  then have ready': "\<forall>sid\<in>S. upload_ready ops (loc sid) sid st' ((D(?sid := D ?sid @ c_bytes ?c)) sid) (chunks_of sid ms)"
    using st'(2) by simp
  have place': "\<forall>m\<in>set ms. stream_of m \<in> S \<and> upload_place clean loc (fst st') m"
    using Cons.prems(1) frame(1) by (simp add: upload_place_def get_root_def)
  from Cons.IH [OF place' ready'] st'(1) show ?case
    by (auto simp: case_prod_unfold)
qed simp

section \<open>Properties\<close>


definition sample_upload :: "string \<Rightarrow> bytes \<Rightarrow> u64 \<Rightarrow> bool \<Rightarrow> upload_msg" where
  "sample_upload ob b off l = (actor_A, \<lparr>c_object_id = ob, c_container_id = ''c'', c_bytes = b, c_offset = off, c_is_last = l\<rparr>)"

definition sample_uploads :: "upload_msg list" where
  "sample_uploads = [sample_upload ''o'' [1, 2] 0 False, sample_upload ''p'' [7] 0 False, sample_upload ''p'' [8] 1 True,
     sample_upload ''o'' [3] 2 True]"

definition sample_loc :: "string \<Rightarrow> string" where
  "sample_loc sid = (if sid = ''A+c+o'' then ''/tmp/A/c/o'' else ''/tmp/A/c/p'')"

lemma sample_stream: "stream_of (sample_upload ob b off l) = ''A+c+'' @ ob"
  by (simp add: sample_upload_def stream_of_def upload_stream_id_def actor_A_def)

lemma sample_place: "ob = ''o'' \<or> ob = ''p'' \<Longrightarrow> upload_place lexical_clean sample_loc sample_fs_provider (sample_upload ob b off l)"
  unfolding upload_place_def sample_stream
  by (intro exI [of _ "''/tmp/A''"])
    (auto simp: sample_upload_def sample_root sample_loc_def object_file_def resolve_subpath_def lexical_clean_def path_join_def
      is_absolute_def norm_step_def components_def)


text \<open>The stream ids of different uploads differ when no actor or container name has a plus sign.\<close>

lemma append_sep_eq: "x \<notin> set as \<Longrightarrow> x \<notin> set bs \<Longrightarrow> as @ x # ys = bs @ x # zs \<longleftrightarrow> as = bs \<and> ys = zs"
  by (auto simp: append_eq_append_conv2 append_eq_Cons_conv Cons_eq_append_conv)

lemma upload_stream_id_inj:
  assumes "CHR ''+'' \<notin> set a" "CHR ''+'' \<notin> set a'" "CHR ''+'' \<notin> set (c_container_id c)" "CHR ''+'' \<notin> set (c_container_id c')"
  shows "upload_stream_id a c = upload_stream_id a' c' \<longleftrightarrow>
     a = a' \<and> c_container_id c = c_container_id c' \<and> c_object_id c = c_object_id c'"
  using assms by (simp add: upload_stream_id_def append_sep_eq)


text \<open>The offset of a stream is advanced before the chunk is written: when the write cannot be started, the chunk is
  missing from the file, and sending it again is refused.\<close>

theorem failed_write_not_repeatable:
  assumes "get_root (fst st) ctx = Ok root" and "object_file clean root (c_container_id c) (c_object_id c) f"
    and "c_offset c \<noteq> 0" and "upload_chunks (fst st) sid = Some (c_offset c)"
    and "c_is_last c \<or> of_nat (length (c_bytes c)) \<noteq> (0 :: u64)"
    and "fo_open_append ops f (snd st) = Inl e"
    and "store_chunk ops clean ctx c (Some sid) st = (r, st')"
  shows "r = Err (FromIo e) \<and> snd st' = snd st \<and>
     (\<exists>msg. store_chunk ops clean ctx c (Some sid) st' = (Err (InvalidParameter msg), st'))"
proof -
  let ?n = "if c_is_last c then 0 else c_offset c + of_nat (length (c_bytes c))"
  have st': "r = Err (FromIo e)" "st' = ((fst st)\<lparr>upload_chunks := (upload_chunks (fst st))(sid \<mapsto> ?n)\<rparr>, snd st)"
    using assms(3,4,6,7) store_chunk_resolved [OF assms(1,2), of ops "Some sid"]
    by (simp_all add: open_upload_def advance_upload_def append_chunk_def)
  then have "get_root (fst st') ctx = Ok root" using assms(1) by (simp add: get_root_def)
  moreover have "upload_chunks (fst st') sid = Some ?n" using st' by simp
  moreover have "?n \<noteq> c_offset c" using assms(3,5) by auto
  ultimately have "\<exists>msg. store_chunk ops clean ctx c (Some sid) st' = (Err (InvalidParameter msg), st')"
    by (intro store_chunk_out_of_order(2) [OF _ assms(2,3)])
  then show ?thesis using st' by simp
qed

definition actor_B :: ctx where
  "actor_B = \<lparr>ctx_actor = Some ''B''\<rparr>"

definition two_actors :: fs_provider where
  "two_actors = default_fs_provider\<lparr>fs_config := [''A'' \<mapsto> \<lparr>fc_ld = sample_fs_ld, fc_root = ''/tmp''\<rparr>,
     ''B'' \<mapsto> \<lparr>fc_ld = sample_fs_ld, fc_root = ''/tmp''\<rparr>]\<rparr>"

lemma two_roots: "get_root two_actors actor_A = Ok ''/tmp/A''" "get_root two_actors actor_B = Ok ''/tmp/B''"
  by (simp_all add: get_root_def get_actor_id_def actor_A_def actor_B_def two_actors_def path_join_def is_absolute_def)

lemma two_files: "object_file lexical_clean ''/tmp/B'' ''c'' ''o'' ''/tmp/B/c/o''"
  by (simp add: object_file_def resolve_subpath_def lexical_clean_def path_join_def is_absolute_def norm_step_def components_def)


end
