(* ===== verification/Blobstore_FS_Concurrent.thy ===== *)
theory Blobstore_FS_Concurrent
  imports Blobstore_FS_Uploads
begin

text \<open>
  \<open>store_chunk\<close> at its await points. Every call runs as a task of its own; the lock on the table of offsets is taken
  for single accesses, so other calls run between the creation of the file, the two accesses to the table and the
  write. The tasks of the chunks under way interleave freely; opening the file and writing to it is one step.
\<close>

section \<open>One chunk\<close>

definition create_file :: "'fs fs_ops \<Rightarrow> string \<Rightarrow> fs_provider \<times> 'fs \<Rightarrow> unit rpc_result \<times> fs_provider \<times> 'fs" where
  "create_file ops f st =
     (case fo_create ops f (snd st) of
        (Inl _, fs) \<Rightarrow> (Err (InvalidParameter (''Could not create file: '' @ fo_debug ops f)), fst st, fs)
      | (Inr _, fs) \<Rightarrow> (Ok (), fst st, fs))"

definition insert_stream :: "chunk \<Rightarrow> string option \<Rightarrow> fs_provider \<times> 'fs \<Rightarrow> unit rpc_result \<times> fs_provider \<times> 'fs" where
  "insert_stream c sid st =
     (case sid of
        Some s_id \<Rightarrow> (Ok (), (fst st)\<lparr>upload_chunks := (upload_chunks (fst st))(s_id \<mapsto> 0)\<rparr>, snd st)
      | None \<Rightarrow> (if \<not> c_is_last c then (Err (InvalidParameter ''Chunked storage is missing stream id''), st) else (Ok (), st)))"

datatype stage = AtCreate | AtInsert | AtAdvance | AtAppend | Finished "unit rpc_result"

record chunk_task =
  ct_file :: string
  ct_stream :: "string option"
  ct_chunk :: chunk
  ct_stage :: stage

definition new_task :: "string \<Rightarrow> string option \<Rightarrow> chunk \<Rightarrow> chunk_task" where
  "new_task f sid c = \<lparr>ct_file = f, ct_stream = sid, ct_chunk = c, ct_stage = AtCreate\<rparr>"

text \<open>Where the task goes on after a part of the function has returned.\<close>

definition goto :: "stage \<Rightarrow> unit rpc_result \<Rightarrow> stage" where
  "goto g r = (case r of Ok _ \<Rightarrow> g | _ \<Rightarrow> Finished r)"

fun chunk_part :: "'fs fs_ops \<Rightarrow> chunk_task \<Rightarrow> stage \<Rightarrow> fs_provider \<times> 'fs \<Rightarrow> stage \<times> fs_provider \<times> 'fs" where
  "chunk_part ops t AtCreate st =
     (if c_offset (ct_chunk t) = 0 then apfst (goto AtInsert) (create_file ops (ct_file t) st) else (AtAdvance, st))"
| "chunk_part ops t AtInsert st = apfst (goto AtAdvance) (insert_stream (ct_chunk t) (ct_stream t) st)"
| "chunk_part ops t AtAdvance st = apfst (goto AtAppend) (advance_upload (ct_chunk t) (ct_stream t) st)"
| "chunk_part ops t AtAppend st = apfst Finished (append_chunk ops (ct_file t) (ct_chunk t) st)"
| "chunk_part ops t (Finished r) st = (Finished r, st)"

fun run_parts :: "'fs fs_ops \<Rightarrow> chunk_task \<Rightarrow> nat \<Rightarrow> stage \<Rightarrow> fs_provider \<times> 'fs \<Rightarrow> stage \<times> fs_provider \<times> 'fs" where
  "run_parts ops t 0 g st = (g, st)"
| "run_parts ops t (Suc n) g st = (case chunk_part ops t g st of (g', st') \<Rightarrow> run_parts ops t n g' st')"

text \<open>A task that runs alone does what \<open>store_chunk\<close> does.\<close>

lemma goto_simps [simp]:
  "goto g (Ok x) = g" "goto g (Err e) = Finished (Err e)" "goto g Panic = Finished Panic"
  by (simp_all add: goto_def)

lemma run_parts_finished [simp]: "run_parts ops t n (Finished r) st = (Finished r, st)"
  by (induction n) simp_all

lemma open_upload_parts:
  "c_offset c = 0 \<Longrightarrow> open_upload ops f c sid st =
     (case create_file ops f st of (r, st1) \<Rightarrow> early r st1 (\<lambda>_. insert_stream c sid st1))"
  by (auto simp: open_upload_def create_file_def insert_stream_def split: prod.splits sum.splits option.splits)

lemma run_parts_store_chunk:
  assumes "get_root (fst st) ctx = Ok root" "object_file clean root (c_container_id c) (c_object_id c) f"
  shows "run_parts ops (new_task f sid c) 4 AtCreate st = apfst Finished (store_chunk ops clean ctx c sid st)"
proof -
  have tail: "run_parts ops (new_task f sid c) 2 AtAdvance st1 =
      apfst Finished (case advance_upload c sid st1 of (r2, st2) \<Rightarrow> early r2 st2 (\<lambda>_. append_chunk ops f c st2))" for st1
    by (cases "fst (advance_upload c sid st1)") (simp_all add: numeral_2_eq_2 new_task_def case_prod_unfold apfst_def map_prod_def)
  show ?thesis
  proof (cases "c_offset c = 0")
    case False
    have "run_parts ops (new_task f sid c) 4 AtCreate st = run_parts ops (new_task f sid c) (2 + 1) AtAdvance st"
      using False by (simp add: numeral_eq_Suc new_task_def)
    also have "run_parts ops t (n + 1) AtAdvance st = run_parts ops t n AtAdvance st" if "n = 2" for t n
      using that by (simp add: numeral_eq_Suc case_prod_unfold goto_def apfst_def map_prod_def split: rres.split)
    finally show ?thesis
      using False tail [of st] store_chunk_resolved [OF assms, of ops sid] by (simp add: open_upload_def)
  next
    case True
    have four: "run_parts ops t 4 g st = (case chunk_part ops t g st of (g1, st1) \<Rightarrow>
        case chunk_part ops t g1 st1 of (g2, st2) \<Rightarrow> run_parts ops t 2 g2 st2)" for t g
      by (simp add: numeral_eq_Suc case_prod_unfold)
    have sel: "ct_file (new_task f sid c) = f" "ct_stream (new_task f sid c) = sid" "ct_chunk (new_task f sid c) = c"
      by (simp_all add: new_task_def)
    obtain r1 st1 where 1: "create_file ops f st = (r1, st1)" by (cases "create_file ops f st")
    obtain r2 st2 where 2: "insert_stream c sid st1 = (r2, st2)" by (cases "insert_stream c sid st1")
    show ?thesis
      unfolding four store_chunk_resolved [OF assms] open_upload_parts [OF True]
      by (cases r1; cases r2) (simp_all add: True sel 1 2 tail)
  qed
qed

section \<open>Uploads under way\<close>

text \<open>Each upload sends its next chunk when the one before was answered, so it has one task at a time.\<close>

record upload_proc =
  up_task :: chunk_task
  up_rest :: "chunk list"

definition stream_arg :: "string \<Rightarrow> chunk \<Rightarrow> string option" where
  "stream_arg sid c = (if c_offset c = 0 \<and> c_is_last c then None else Some sid)"

definition start_chunk :: "string \<Rightarrow> string \<Rightarrow> chunk \<Rightarrow> chunk list \<Rightarrow> upload_proc" where
  "start_chunk f sid c cs = \<lparr>up_task = new_task f (stream_arg sid c) c, up_rest = cs\<rparr>"

inductive upload_step ::
  "'fs fs_ops \<Rightarrow> (string \<Rightarrow> string) \<Rightarrow> string set \<Rightarrow> (string \<Rightarrow> upload_proc) \<times> fs_provider \<times> 'fs \<Rightarrow>
   (string \<Rightarrow> upload_proc) \<times> fs_provider \<times> 'fs \<Rightarrow> bool" for ops loc S where
  part: "sid \<in> S \<Longrightarrow> t = up_task (procs sid) \<Longrightarrow> (\<And>r. ct_stage t \<noteq> Finished r) \<Longrightarrow> chunk_part ops t (ct_stage t) st = (g, st') \<Longrightarrow>
    upload_step ops loc S (procs, st) (procs(sid := (procs sid)\<lparr>up_task := t\<lparr>ct_stage := g\<rparr>\<rparr>), st')"
| send: "sid \<in> S \<Longrightarrow> ct_stage (up_task (procs sid)) = Finished (Ok ()) \<Longrightarrow> up_rest (procs sid) = c # cs \<Longrightarrow>
    upload_step ops loc S (procs, st) (procs(sid := start_chunk (loc sid) sid c cs), st)"

definition upload_shape :: "bytes \<Rightarrow> chunk list \<Rightarrow> bool" where
  "upload_shape b cs \<longleftrightarrow>
     contiguous (of_nat (length b)) cs \<and> length b + length (total_bytes cs) < 2 ^ 64 \<and>
     list_all (\<lambda>c. \<not> c_is_last c) (butlast cs) \<and> list_all (\<lambda>c. c_bytes c \<noteq> []) cs"

lemma upload_shape_Cons:
  assumes "upload_shape b (c # cs)"
  shows "c_offset c = of_nat (length b)" "c_bytes c \<noteq> []" "cs \<noteq> [] \<Longrightarrow> \<not> c_is_last c" "upload_shape (b @ c_bytes c) cs"
    and "c_offset c = 0 \<longleftrightarrow> b = []"
proof -
  show off: "c_offset c = of_nat (length b)" "c_bytes c \<noteq> []" and nl: "cs \<noteq> [] \<Longrightarrow> \<not> c_is_last c"
    using assms by (auto simp: upload_shape_def)
  show "upload_shape (b @ c_bytes c) cs" using assms by (cases cs) (simp_all add: upload_shape_def add.assoc)
  have "length b < 2 ^ 64" using assms by (simp add: upload_shape_def)
  then show "c_offset c = 0 \<longleftrightarrow> b = []" using unat_of_nat_u64 [of "length b"] by (simp add: off unat_eq_0 [symmetric])
qed

text \<open>What holds at each await point of a chunk \<open>c\<close> when \<open>b\<close> has been received before it.\<close>

definition stage_ok :: "'fs fs_ops \<Rightarrow> string \<Rightarrow> string \<Rightarrow> fs_provider \<times> 'fs \<Rightarrow> bytes \<Rightarrow> chunk \<Rightarrow> chunk list \<Rightarrow> stage \<Rightarrow> bool" where
  "stage_ok ops f sid st b c cs g =
     (let read = fo_read ops f (snd st); expected = upload_chunks (fst st) sid; after = (cs \<noteq> [] \<longrightarrow> expected = Some (of_nat (length (b @ c_bytes c)))) in
      case g of
        AtCreate \<Rightarrow> b \<noteq> [] \<longrightarrow> read = Inr b \<and> expected = Some (of_nat (length b))
      | AtInsert \<Rightarrow> b = [] \<and> read = Inr []
      | AtAdvance \<Rightarrow> read = Inr b \<and> (stream_arg sid c \<noteq> None \<longrightarrow> expected = Some (of_nat (length b)))
      | AtAppend \<Rightarrow> read = Inr b \<and> after
      | Finished r \<Rightarrow> r = Ok () \<and> read = Inr (b @ c_bytes c) \<and> after)"

definition proc_ok :: "'fs fs_ops \<Rightarrow> string \<Rightarrow> string \<Rightarrow> bytes \<Rightarrow> fs_provider \<times> 'fs \<Rightarrow> upload_proc \<Rightarrow> bool" where
  "proc_ok ops f sid whole st p \<longleftrightarrow>
     (\<exists>b c g. up_task p = \<lparr>ct_file = f, ct_stream = stream_arg sid c, ct_chunk = c, ct_stage = g\<rparr> \<and>
        b @ total_bytes (c # up_rest p) = whole \<and> upload_shape b (c # up_rest p) \<and> stage_ok ops f sid st b c (up_rest p) g)"

lemma stage_ok_part:
  assumes "file_law ops f" "upload_shape b (c # cs)" "stage_ok ops f sid st b c cs (ct_stage t)" "\<And>r. ct_stage t \<noteq> Finished r"
    and t: "ct_file t = f" "ct_stream t = stream_arg sid c" "ct_chunk t = c"
    and "chunk_part ops t (ct_stage t) st = (g, st')"
  shows "stage_ok ops f sid st' b c cs g"
proof -
  note shape = upload_shape_Cons [OF assms(2)]
  show ?thesis
  proof (cases "ct_stage t")
    case AtCreate
    show ?thesis
    proof (cases "b = []")
      case True
      obtain fs where "fo_create ops f (snd st) = (Inr (), fs)" "fo_read ops f fs = Inr []"
        using assms(1) unfolding file_law_def by blast
      with assms(8) AtCreate True shape(5) t show ?thesis by (auto simp: create_file_def stage_ok_def)
    next
      case False
      with assms(3,8) AtCreate shape(5) t show ?thesis by (auto simp: stage_ok_def Let_def)
    qed
  next
    case AtInsert
    with assms(3,8) t shape(5) show ?thesis
      by (auto simp: insert_stream_def stage_ok_def Let_def stream_arg_def split: if_splits)
  next
    case AtAdvance
    show ?thesis
    proof (cases "stream_arg sid c")
      case None
      then have "cs = []" using shape(3) by (auto simp: stream_arg_def split: if_splits)
      with None assms(3,8) AtAdvance t show ?thesis by (auto simp: advance_upload_def stage_ok_def Let_def)
    next
      case (Some s_id)
      then have "s_id = sid" by (simp add: stream_arg_def split: if_splits)
      with Some assms(3,8) AtAdvance t shape(1,3) show ?thesis by (auto simp: advance_upload_def stage_ok_def Let_def)
    qed
  next
    case AtAppend
    then have "fo_read ops f (snd st) = Inr b" using assms(3) by (simp add: stage_ok_def Let_def)
    from append_chunk_appends [OF assms(1) this, of c]
    obtain fs where "append_chunk ops f c st = (Ok (), fst st, fs)" "fo_read ops f fs = Inr (b @ c_bytes c)" .
    with AtAppend assms(3,8) t show ?thesis by (auto simp: stage_ok_def Let_def)
  qed (use assms(4) in simp)
qed

lemma chunk_part_frame:
  assumes "files_law ops F" "ct_file t \<in> F" "chunk_part ops t g st = (g', st')"
  shows "ct_stream t \<noteq> Some sid \<Longrightarrow> upload_chunks (fst st') sid = upload_chunks (fst st) sid"
    and "others_kept ops F (ct_file t) (snd st) (snd st')"
proof -
  note law = files_lawD [OF assms(1,2)]
  have "(ct_stream t \<noteq> Some sid \<longrightarrow> upload_chunks (fst st') sid = upload_chunks (fst st) sid) \<and>
      others_kept ops F (ct_file t) (snd st) (snd st')"
  proof (cases g)
    case AtCreate
    with assms(3) law(3) [of "snd st"] show ?thesis
      by (auto simp: create_file_def others_kept_def split: if_splits prod.splits sum.splits)
  next
    case AtInsert
    with assms(3) show ?thesis
      by (auto simp: insert_stream_def others_kept_def split: option.splits if_splits)
  next
    case AtAdvance
    with assms(3) show ?thesis
      by (cases "ct_stream t"; cases "upload_chunks (fst st) (the (ct_stream t))") (auto simp: advance_upload_def others_kept_def split: if_splits)
  next
    case AtAppend
    with assms(3) law(4) [of "snd st" "c_bytes (ct_chunk t)"] show ?thesis
      by (cases "fo_open_append ops (ct_file t) (snd st)")
        (auto simp: append_chunk_def others_kept_def split: prod.splits sum.splits if_splits)
  qed (use assms(3) in \<open>simp add: others_kept_def\<close>)
  then show "ct_stream t \<noteq> Some sid \<Longrightarrow> upload_chunks (fst st') sid = upload_chunks (fst st) sid"
    "others_kept ops F (ct_file t) (snd st) (snd st')" by blast+
qed

lemma proc_ok_other:
  assumes "proc_ok ops f sid whole st p" "upload_chunks (fst st') sid = upload_chunks (fst st) sid"
    and "fo_read ops f (snd st') = fo_read ops f (snd st)"
  shows "proc_ok ops f sid whole st' p"
  using assms by (auto simp: proc_ok_def stage_ok_def Let_def)


lemma start_proc_ok:
  assumes "upload_shape b (c # cs)" "b \<noteq> [] \<Longrightarrow> fo_read ops f (snd st) = Inr b \<and> upload_chunks (fst st) sid = Some (of_nat (length b))"
    and "whole = b @ total_bytes (c # cs)"
  shows "proc_ok ops f sid whole st (start_chunk f sid c cs)"
  using assms by (auto simp: proc_ok_def start_chunk_def new_task_def stage_ok_def Let_def)

lemma proc_ok_part:
  assumes "file_law ops f" "proc_ok ops f sid whole st p" "\<And>r. ct_stage (up_task p) \<noteq> Finished r"
    and "chunk_part ops (up_task p) (ct_stage (up_task p)) st = (g, st')"
  shows "proc_ok ops f sid whole st' (p\<lparr>up_task := (up_task p)\<lparr>ct_stage := g\<rparr>\<rparr>)"
proof -
  obtain b c h where h: "up_task p = \<lparr>ct_file = f, ct_stream = stream_arg sid c, ct_chunk = c, ct_stage = h\<rparr>"
    "b @ total_bytes (c # up_rest p) = whole" "upload_shape b (c # up_rest p)" "stage_ok ops f sid st b c (up_rest p) h"
    using assms(2) by (auto simp: proc_ok_def)
  from stage_ok_part [OF assms(1) h(3), of sid st "up_task p" g st'] h assms(3,4)
  have "stage_ok ops f sid st' b c (up_rest p) g" by simp
  with h(1-3) show ?thesis by (auto simp: proc_ok_def)
qed

lemma proc_ok_send:
  assumes "proc_ok ops f sid whole st p" "ct_stage (up_task p) = Finished r" "up_rest p = c # cs"
  shows "proc_ok ops f sid whole st (start_chunk f sid c cs)"
proof -
  obtain b d where d: "b @ total_bytes (d # c # cs) = whole" "upload_shape b (d # c # cs)"
    "stage_ok ops f sid st b d (c # cs) (Finished r)"
    using assms by (auto simp: proc_ok_def)
  show ?thesis
  proof (rule start_proc_ok)
    show "upload_shape (b @ c_bytes d) (c # cs)" by (rule upload_shape_Cons(4) [OF d(2)])
    show "whole = (b @ c_bytes d) @ total_bytes (c # cs)" using d(1) by (simp add: total_bytes_def)
  qed (use d(3) in \<open>simp add: stage_ok_def Let_def\<close>)
qed

section \<open>Schedules\<close>

text \<open>The next step of one task, if it has one, and a run of the tasks in a given order.\<close>

definition upload_move ::
  "'fs fs_ops \<Rightarrow> (string \<Rightarrow> string) \<Rightarrow> string \<Rightarrow> (string \<Rightarrow> upload_proc) \<times> fs_provider \<times> 'fs \<Rightarrow>
   ((string \<Rightarrow> upload_proc) \<times> fs_provider \<times> 'fs) option" where
  "upload_move ops loc sid s =
     (case s of (procs, st) \<Rightarrow>
        let t = up_task (procs sid) in
        case ct_stage t of
          Finished r \<Rightarrow> (case (r, up_rest (procs sid)) of
              (Ok _, c # cs) \<Rightarrow> Some (procs(sid := start_chunk (loc sid) sid c cs), st)
            | _ \<Rightarrow> None)
        | g \<Rightarrow> (case chunk_part ops t g st of (g', st') \<Rightarrow> Some (procs(sid := (procs sid)\<lparr>up_task := t\<lparr>ct_stage := g'\<rparr>\<rparr>), st')))"

fun run_schedule ::
  "'fs fs_ops \<Rightarrow> (string \<Rightarrow> string) \<Rightarrow> string list \<Rightarrow> (string \<Rightarrow> upload_proc) \<times> fs_provider \<times> 'fs \<Rightarrow>
   ((string \<Rightarrow> upload_proc) \<times> fs_provider \<times> 'fs) option" where
  "run_schedule ops loc [] s = Some s"
| "run_schedule ops loc (sid # sids) s = Option.bind (upload_move ops loc sid s) (run_schedule ops loc sids)"

lemma upload_step_iff: "upload_step ops loc S s s' \<longleftrightarrow> (\<exists>sid\<in>S. upload_move ops loc sid s = Some s')"
proof
  assume "upload_step ops loc S s s'"
  then show "\<exists>sid\<in>S. upload_move ops loc sid s = Some s'"
  proof cases
    case (part sid t procs st g st')
    then show ?thesis by (intro bexI [of _ sid]) (cases "ct_stage t", simp_all add: upload_move_def Let_def)
  next
    case (send sid procs c cs st)
    then show ?thesis by (intro bexI [of _ sid]) (simp_all add: upload_move_def Let_def)
  qed
next
  assume "\<exists>sid\<in>S. upload_move ops loc sid s = Some s'"
  then obtain sid where sid: "sid \<in> S" "upload_move ops loc sid s = Some s'" by blast
  obtain procs st where s: "s = (procs, st)" by (cases s)
  show "upload_step ops loc S s s'"
  proof (cases "\<exists>r. ct_stage (up_task (procs sid)) = Finished r")
    case True
    with sid(2) show ?thesis
      by (auto simp: s upload_move_def Let_def split: rres.splits list.splits intro!: upload_step.send [OF sid(1)])
  next
    case False
    obtain g st' where g: "chunk_part ops (up_task (procs sid)) (ct_stage (up_task (procs sid))) st = (g, st')" by (meson surj_pair)
    with False sid(2) have "s' = (procs(sid := (procs sid)\<lparr>up_task := (up_task (procs sid))\<lparr>ct_stage := g\<rparr>\<rparr>), st')"
      by (cases "ct_stage (up_task (procs sid))") (simp_all add: s upload_move_def Let_def)
    with False g show ?thesis by (auto simp: s intro!: upload_step.part [OF sid(1)])
  qed
qed

lemma run_schedule_steps:
  "set sids \<subseteq> S \<Longrightarrow> run_schedule ops loc sids s = Some s' \<Longrightarrow> (upload_step ops loc S ^^ length sids) s s'"
proof (induction sids arbitrary: s)
  case (Cons sid sids)
  then obtain s1 where "upload_move ops loc sid s = Some s1" "run_schedule ops loc sids s1 = Some s'"
    by (auto simp: bind_eq_Some_conv)
  moreover from this Cons.prems have "upload_step ops loc S s s1" by (auto simp: upload_step_iff)
  ultimately show ?case using Cons by (simp add: relpowp_Suc_I2 del: relpowp.simps)
qed simp

text \<open>Every step brings the uploads nearer to their end.\<close>

fun stage_left :: "stage \<Rightarrow> nat" where
  "stage_left AtCreate = 4" | "stage_left AtInsert = 3" | "stage_left AtAdvance = 2" | "stage_left AtAppend = 1"
| "stage_left (Finished _) = 0"

definition proc_left :: "upload_proc \<Rightarrow> nat" where
  "proc_left p = stage_left (ct_stage (up_task p)) + 5 * length (up_rest p)"

lemma stage_left_goto: "stage_left (goto g r) \<le> stage_left g"
  by (cases r) (simp_all add: goto_def)

lemma stage_left_part:
  assumes "\<And>r. g \<noteq> Finished r" "chunk_part ops t g st = (g', st')"
  shows "stage_left g' < stage_left g"
  using assms
proof (cases g)
  case AtCreate
  with assms(2) stage_left_goto [of AtInsert "fst (create_file ops (ct_file t) st)"] show ?thesis by (auto simp: apfst_def map_prod_def split: if_splits prod.splits)
next
  case AtInsert
  with assms(2) stage_left_goto [of AtAdvance "fst (insert_stream (ct_chunk t) (ct_stream t) st)"] show ?thesis
    by (auto simp: apfst_def map_prod_def split: prod.splits)
next
  case AtAdvance
  with assms(2) stage_left_goto [of AtAppend "fst (advance_upload (ct_chunk t) (ct_stream t) st)"] show ?thesis
    by (auto simp: apfst_def map_prod_def split: prod.splits)
qed (auto simp: apfst_def map_prod_def split: prod.splits)

text \<open>The invariant of the uploads that run side by side.\<close>

definition uploads_ok ::
  "'fs fs_ops \<Rightarrow> (string \<Rightarrow> string) \<Rightarrow> string set \<Rightarrow> (string \<Rightarrow> chunk list) \<Rightarrow> (string \<Rightarrow> upload_proc) \<times> fs_provider \<times> 'fs \<Rightarrow> bool" where
  "uploads_ok ops loc S ups s \<longleftrightarrow> (\<forall>sid\<in>S. proc_ok ops (loc sid) sid (total_bytes (ups sid)) (snd s) (fst s sid))"

lemma upload_step_ok:
  assumes "files_law ops (loc ` S)" "inj_on loc S" "uploads_ok ops loc S ups s" "upload_step ops loc S s s'"
  shows "uploads_ok ops loc S ups s'"
  using assms(4,3)
proof (cases rule: upload_step.cases)
  case (part sid t procs st g st')
  have sid: "proc_ok ops (loc sid) sid (total_bytes (ups sid)) st (procs sid)" using assms(3) part(1,3) by (simp add: uploads_ok_def)
  then have t: "ct_file t = loc sid" "\<And>a. a \<noteq> sid \<Longrightarrow> ct_stream t \<noteq> Some a"
    by (auto simp: part(4) proc_ok_def stream_arg_def split: if_splits)
  have F: "ct_file t \<in> loc ` S" using part(3) t(1) by simp
  note frame = chunk_part_frame [OF assms(1) F part(6)]
  show ?thesis unfolding uploads_ok_def part(2)
  proof
    fix a assume a: "a \<in> S"
    show "proc_ok ops (loc a) a (total_bytes (ups a)) (snd (procs(sid := (procs sid)\<lparr>up_task := t\<lparr>ct_stage := g\<rparr>\<rparr>), st'))
      (fst (procs(sid := (procs sid)\<lparr>up_task := t\<lparr>ct_stage := g\<rparr>\<rparr>), st') a)"
    proof (cases "a = sid")
      case True
      with proc_ok_part [OF files_lawD(1) [OF assms(1), of "loc sid"] sid] part show ?thesis by auto
    next
      case False
      then have "loc a \<noteq> loc sid" using assms(2) a part(3) by (simp add: inj_on_eq_iff)
      with frame(2) a t(1) have "fo_read ops (loc a) (snd st') = fo_read ops (loc a) (snd st)" by (simp add: others_kept_def)
      moreover have "proc_ok ops (loc a) a (total_bytes (ups a)) st (procs a)" using assms(3) a part(1) by (simp add: uploads_ok_def)
      ultimately show ?thesis using False frame(1) [OF t(2) [OF False]] by (auto intro: proc_ok_other)
    qed
  qed
next
  case (send sid procs c cs st)
  then have "proc_ok ops (loc sid) sid (total_bytes (ups sid)) st (start_chunk (loc sid) sid c cs)"
    using assms(3) by (auto simp: uploads_ok_def intro: proc_ok_send)
  with assms(3) send(1,2) show ?thesis by (auto simp: uploads_ok_def)
qed

lemma upload_step_left:
  assumes "finite S" "upload_step ops loc S s s'"
  shows "(\<Sum>sid\<in>S. proc_left (fst s' sid)) < (\<Sum>sid\<in>S. proc_left (fst s sid))"
proof -
  have "\<exists>sid\<in>S. proc_left (fst s' sid) < proc_left (fst s sid) \<and> (\<forall>a. a \<noteq> sid \<longrightarrow> fst s' a = fst s a)"
    using assms(2)
  proof cases
    case (part sid t procs st g st')
    then show ?thesis using stage_left_part [OF part(5,6)] by (intro bexI [of _ sid]) (auto simp: proc_left_def)
  next
    case (send sid procs c cs st)
    then show ?thesis by (intro bexI [of _ sid]) (auto simp: proc_left_def start_chunk_def new_task_def)
  qed
  then obtain sid where sid: "sid \<in> S" "proc_left (fst s' sid) < proc_left (fst s sid)" "\<And>a. a \<noteq> sid \<Longrightarrow> fst s' a = fst s a" by blast
  show ?thesis
  proof (rule sum_strict_mono_ex1 [OF assms(1)])
    show "\<forall>x\<in>S. proc_left (fst s' x) \<le> proc_left (fst s x)" using sid by (metis le_refl less_imp_le)
  qed (use sid in blast)
qed

lemma upload_run:
  assumes "files_law ops (loc ` S)" "inj_on loc S" "finite S" "uploads_ok ops loc S ups s" "(upload_step ops loc S ^^ n) s s'"
  shows "uploads_ok ops loc S ups s' \<and> n + (\<Sum>sid\<in>S. proc_left (fst s' sid)) \<le> (\<Sum>sid\<in>S. proc_left (fst s sid))"
  using assms(5)
proof (induction n arbitrary: s')
  case (Suc n)
  then obtain t where t: "(upload_step ops loc S ^^ n) s t" "upload_step ops loc S t s'" by auto
  from upload_step_ok [OF assms(1,2) _ t(2)] upload_step_left [OF assms(3) t(2)] Suc.IH [OF t(1)] show ?case by auto
qed (use assms(4) in simp)

text \<open>When no task can go on, every upload has answered its last chunk.\<close>

lemma uploads_stuck:
  assumes "uploads_ok ops loc S ups (procs, st)" "\<nexists>s. upload_step ops loc S (procs, st) s" "sid \<in> S"
  shows "fo_read ops (loc sid) (snd st) = Inr (total_bytes (ups sid))"
proof -
  let ?p = "procs sid"
  have ok: "proc_ok ops (loc sid) sid (total_bytes (ups sid)) st ?p" using assms(1,3) by (simp add: uploads_ok_def)
  have "\<exists>r. ct_stage (up_task ?p) = Finished r"
    using assms(2) upload_step.part [OF assms(3) refl] by (metis surj_pair)
  then obtain r where r: "ct_stage (up_task ?p) = Finished r" ..
  with ok have "r = Ok ()" by (auto simp: proc_ok_def stage_ok_def Let_def)
  with r have "up_rest ?p = []" using assms(2) upload_step.send [OF assms(3)] by (metis list.exhaust)
  with ok r show ?thesis by (auto simp: proc_ok_def stage_ok_def Let_def total_bytes_def)
qed

section \<open>Properties\<close>

definition start_uploads :: "(string \<Rightarrow> string) \<Rightarrow> (string \<Rightarrow> chunk list) \<Rightarrow> string \<Rightarrow> upload_proc" where
  "start_uploads loc ups sid = start_chunk (loc sid) sid (hd (ups sid)) (tl (ups sid))"

lemma start_uploads_ok:
  assumes "\<forall>sid\<in>S. ups sid \<noteq> [] \<and> upload_shape [] (ups sid)"
  shows "uploads_ok ops loc S ups (start_uploads loc ups, st)"
proof -
  have "proc_ok ops (loc sid) sid (total_bytes (ups sid)) st (start_uploads loc ups sid)" if "sid \<in> S" for sid
  proof (cases "ups sid")
    case (Cons c cs)
    then have "upload_shape [] (c # cs)" using assms that by metis
    then show ?thesis by (simp add: Cons start_uploads_def start_proc_ok)
  qed (use assms that in blast)
  then show ?thesis by (simp add: uploads_ok_def)
qed

lemma start_uploads_left: "ups sid \<noteq> [] \<Longrightarrow> proc_left (start_uploads loc ups sid) \<le> 5 * length (ups sid)"
  by (cases "ups sid") (simp_all add: proc_left_def start_uploads_def start_chunk_def new_task_def)


definition part_chunk :: "bytes \<Rightarrow> u64 \<Rightarrow> bool \<Rightarrow> chunk" where
  "part_chunk b off l = \<lparr>c_object_id = ''o'', c_container_id = ''c'', c_bytes = b, c_offset = off, c_is_last = l\<rparr>"

definition part_uploads :: "string \<Rightarrow> chunk list" where
  "part_uploads sid = (if sid = ''x'' then [part_chunk [1, 2] 0 False, part_chunk [3] 2 True] else [part_chunk [7] 0 True])"

definition part_schedule :: "string list" where
  "part_schedule = [''x'', ''y'', ''x'', ''y'', ''y'', ''x'', ''x'', ''x'', ''x'', ''y'', ''x'', ''x'']"

definition part_end :: "(string \<Rightarrow> upload_proc) \<times> fs_provider \<times> mem_fs" where
  "part_end = the (run_schedule mem_fs_ops id part_schedule (start_uploads id part_uploads, sample_fs_provider, Map.empty))"

lemma part_run: "run_schedule mem_fs_ops id part_schedule (start_uploads id part_uploads, sample_fs_provider, Map.empty) = Some part_end"
proof -
  have "\<not> Option.is_none (run_schedule mem_fs_ops id part_schedule (start_uploads id part_uploads, sample_fs_provider, Map.empty))"
    by code_simp
  then show ?thesis by (simp add: part_end_def Option.is_none_def option.collapse)
qed

lemma part_done:
  "Option.is_none (upload_move mem_fs_ops id ''x'' part_end)" "Option.is_none (upload_move mem_fs_ops id ''y'' part_end)"
  by code_simp+


text \<open>Two parts of one upload that are under way at the same time can be stored in the wrong order. The check of the
  offset and the write are separate steps: when the second chunk passes the check and is written before the first, which
  passed it earlier, both are answered with success and the file holds their bytes swapped.\<close>

theorem chunk_parts_race:
  assumes "file_law ops f" and "fo_read ops f (snd st) = Inr b" and "upload_chunks (fst st) sid = Some (c_offset c)"
    and "c_offset c \<noteq> 0" and "\<not> c_is_last c" and "c_offset d = c_offset c + of_nat (length (c_bytes c))" and "c_offset d \<noteq> 0"
  shows "\<exists>procs fs p. run_schedule ops (\<lambda>_. f) [''one'', ''one'', ''two'', ''two'', ''two'', ''one'']
      ((\<lambda>x. \<lparr>up_task = new_task f (Some sid) (if x = ''one'' then c else d), up_rest = []\<rparr>), st) = Some (procs, p, fs) \<and>
    ct_stage (up_task (procs ''one'')) = Finished (Ok ()) \<and> ct_stage (up_task (procs ''two'')) = Finished (Ok ()) \<and>
    fo_read ops f fs = Inr (b @ c_bytes d @ c_bytes c)"
proof -
  define st1 where "st1 = ((fst st)\<lparr>upload_chunks := (upload_chunks (fst st))(sid \<mapsto> c_offset d)\<rparr>, snd st)"
  define st2 where "st2 = ((fst st1)\<lparr>upload_chunks := (upload_chunks (fst st1))
      (sid \<mapsto> if c_is_last d then 0 else c_offset d + of_nat (length (c_bytes d)))\<rparr>, snd st1)"
  have 1: "advance_upload c (Some sid) st = (Ok (), st1)" using assms(3,5,6) by (simp add: advance_upload_def st1_def)
  have 2: "advance_upload d (Some sid) st1 = (Ok (), st2)" by (simp add: advance_upload_def st1_def st2_def)
  have "fo_read ops f (snd st2) = Inr b" using assms(2) by (simp add: st1_def st2_def)
  from append_chunk_appends [OF assms(1) this, of d]
  obtain fs3 where 3: "append_chunk ops f d st2 = (Ok (), fst st2, fs3)" "fo_read ops f fs3 = Inr (b @ c_bytes d)" .
  from append_chunk_appends [OF assms(1), of "(fst st2, fs3)" "b @ c_bytes d" c] 3(2)
  obtain fs4 where 4: "append_chunk ops f c (fst st2, fs3) = (Ok (), fst st2, fs4)" "fo_read ops f fs4 = Inr (b @ c_bytes d @ c_bytes c)"
    by auto
  show ?thesis using assms(4,7) 1 2 3(1) 4 by (simp add: upload_move_def Let_def new_task_def)
qed

lemma chunk_parts_race_witness:
  "\<exists>procs fs p. run_schedule mem_fs_ops (\<lambda>_. ''f'') [''one'', ''one'', ''two'', ''two'', ''two'', ''one'']
      ((\<lambda>x. \<lparr>up_task = new_task ''f'' (Some ''s'') (if x = ''one'' then part_chunk [2] 1 False else part_chunk [3] 2 True), up_rest = []\<rparr>),
       (\<lparr>fs_config = Map.empty, upload_chunks = [''s'' \<mapsto> 1]\<rparr>, [''f'' \<mapsto> [1]])) = Some (procs, p, fs) \<and>
    ct_stage (up_task (procs ''one'')) = Finished (Ok ()) \<and> ct_stage (up_task (procs ''two'')) = Finished (Ok ()) \<and>
    fo_read mem_fs_ops ''f'' fs = Inr ([1] @ [3] @ [2])"
  using chunk_parts_race [OF mem_file_law, where f = "''f''" and c = "part_chunk [2] 1 False" and d = "part_chunk [3] 2 True"
      and sid = "''s''" and b = "[1]" and st = "(\<lparr>fs_config = Map.empty, upload_chunks = [''s'' \<mapsto> 1]\<rparr>, [''f'' \<mapsto> [1]])"]
  by (simp add: part_chunk_def mem_fs_ops_def)

end
