(* ===== verification/Messaging_Interface.thy ===== *)
theory Messaging_Interface
  imports Prelude
begin

text \<open>The messages of the messaging interface, shared by the NATS and the Kafka provider.\<close>

record pub_message =
  pm_subject :: string
  pm_reply_to :: "string option"
  pm_body :: bytes

record request_message =
  rm_subject :: string
  rm_body :: bytes
  rm_timeout_ms :: u32

record sub_message =
  sm_subject :: string
  sm_reply_to :: "string option"
  sm_body :: bytes

end
