(* ===== verification/Nats.thy ===== *)
theory Nats
  imports Task_Table Messaging_Interface
begin

text \<open>
  \<open>nats/src/main.rs\<close>: the messaging provider over NATS. Each link has a client connection and one
  listening task per subscription; the tasks are what delivers messages to actors. Tasks carry on
  after their handle is dropped and stop only when they are aborted, so the table of running tasks
  is part of the state.

  The NATS client, the key and certificate readers and the decoders of the configuration are the
  fields of \<open>nats_env\<close>; \<open>'c\<close> is the type of client connections. The span headers that tracing
  attaches are a fixed value of the environment.
\<close>

section \<open>Configuration\<close>

definition DEFAULT_NATS_URI :: string where
  "DEFAULT_NATS_URI = ''0.0.0.0:4222''"

record connection_config =
  subscriptions :: "string list"
  cluster_uris :: "string list"
  auth_jwt :: "string option"
  auth_seed :: "string option"
  tls_ca :: "string option"
  tls_ca_file :: "string option"
  ping_interval_sec :: "u16 option"

definition default_connection_config :: connection_config where
  "default_connection_config = \<lparr>subscriptions = [], cluster_uris = [DEFAULT_NATS_URI], auth_jwt = None,
     auth_seed = None, tls_ca = None, tls_ca_file = None, ping_interval_sec = None\<rparr>"

definition merge_config :: "connection_config \<Rightarrow> connection_config \<Rightarrow> connection_config" where
  "merge_config self extra =
     \<lparr>subscriptions = (if subscriptions extra \<noteq> [] then subscriptions extra else subscriptions self),
      cluster_uris = (if cluster_uris extra \<noteq> [] then cluster_uris extra else cluster_uris self),
      auth_jwt = or_else (auth_jwt extra) (auth_jwt self),
      auth_seed = or_else (auth_seed extra) (auth_seed self),
      tls_ca = or_else (tls_ca extra) (tls_ca self),
      tls_ca_file = or_else (tls_ca_file extra) (tls_ca_file self),
      ping_interval_sec = or_else (ping_interval_sec extra) (ping_interval_sec self)\<rparr>"

datatype pem_item = X509Certificate bytes | OtherItem

record connect_options =
  co_jwt :: "(string \<times> string) option"
  co_root_cert :: "bytes option"
  co_require_tls :: bool
  co_name :: string

record nats_message =
  nm_subject :: string
  nm_reply :: "string option"
  nm_headers :: "string option"
  nm_payload :: bytes

text \<open>A request can time out (\<open>None\<close>), fail to be sent, or be answered.\<close>

record 'c nats_env =
  ne_b64_decode :: "string \<Rightarrow> string + bytes"
  ne_from_slice :: "bytes \<Rightarrow> string + connection_config"
  ne_from_str :: "string \<Rightarrow> string + connection_config"
  ne_from_seed :: "string \<Rightarrow> string + unit"
  ne_read_to_string :: "string \<Rightarrow> string + string"
  ne_read_pem :: "string \<Rightarrow> string + pem_item option"
  ne_connect :: "connect_options \<Rightarrow> string \<Rightarrow> string + 'c"
  ne_subscribe :: "'c \<Rightarrow> string \<Rightarrow> string option \<Rightarrow> string + unit"
  ne_publish :: "'c \<Rightarrow> nats_message \<Rightarrow> string + unit"
  ne_request :: "'c \<Rightarrow> nats_message \<Rightarrow> u32 \<Rightarrow> (string + nats_message) option"
  ne_otel_headers :: string

definition base_nats_config :: "'c nats_env \<Rightarrow> link_values \<Rightarrow> connection_config rpc_result" where
  "base_nats_config env values =
     (case hm_get values ''config_b64'' of
        Some b64 \<Rightarrow>
          rbind (map_err (\<lambda>e. InvalidParameter (''invalid base64 encoding: '' @ e)) (ne_b64_decode env b64))
            (\<lambda>bytes. map_err (\<lambda>e. InvalidParameter (''corrupt config_b64: '' @ e)) (ne_from_slice env bytes))
      | None \<Rightarrow> (case hm_get values ''config_json'' of
          Some cfg \<Rightarrow> map_err (\<lambda>e. InvalidParameter (''corrupt config_json: '' @ e)) (ne_from_str env cfg)
        | None \<Rightarrow> Ok default_connection_config))"

definition new_from :: "'c nats_env \<Rightarrow> link_values \<Rightarrow> connection_config rpc_result" where
  "new_from env values =
     rbind (base_nats_config env values) (\<lambda>base.
       let subs = (case hm_get values ''SUBSCRIPTION'' of
                     Some sub \<Rightarrow> subscriptions base @ split_on (CHR '','') sub
                   | None \<Rightarrow> subscriptions base);
           uris = (case hm_get values ''URI'' of
                     Some url \<Rightarrow> split_on (CHR '','') url
                   | None \<Rightarrow> cluster_uris base);
           jwt = or_else (hm_get values ''CLIENT_JWT'') (auth_jwt base);
           seed = or_else (hm_get values ''CLIENT_SEED'') (auth_seed base)
       in if jwt \<noteq> None \<and> seed = None
          then Err (InvalidParameter ''if you specify jwt, you must also specify a seed'')
          else Ok \<lparr>subscriptions = subs,
                   cluster_uris = (if uris = [] then [DEFAULT_NATS_URI] else uris),
                   auth_jwt = jwt, auth_seed = seed,
                   tls_ca = or_else (hm_get values ''TLS_CA'') (tls_ca base),
                   tls_ca_file = or_else (hm_get values ''TLS_CA_FILE'') (tls_ca_file base),
                   ping_interval_sec = ping_interval_sec base\<rparr>)"

section \<open>Connecting\<close>

definition add_tls_ca :: "'c nats_env \<Rightarrow> string \<Rightarrow> connect_options \<Rightarrow> connect_options rpc_result" where
  "add_tls_ca env ca opts =
     rbind (map_err (\<lambda>e. ProviderInit (''tls ca: '' @ e)) (ne_read_pem env ca)) (\<lambda>parsed_ca.
       case parsed_ca of
         Some (X509Certificate cert) \<Rightarrow> Ok (opts\<lparr>co_root_cert := Some cert, co_require_tls := True\<rparr>)
       | _ \<Rightarrow> Err (ProviderInit ''tls ca: invalid certificate type, must be a DER encoded PEM file''))"

definition build_connect_options :: "'c nats_env \<Rightarrow> connection_config \<Rightarrow> connect_options rpc_result" where
  "build_connect_options env cfg =
     rbind (case (auth_jwt cfg, auth_seed cfg) of
              (Some jwt, Some seed) \<Rightarrow>
                rbind (map_err (\<lambda>e. ProviderInit (''key init: '' @ e)) (ne_from_seed env seed)) (\<lambda>_.
                  Ok \<lparr>co_jwt = Some (jwt, seed), co_root_cert = None, co_require_tls = False, co_name = []\<rparr>)
            | (None, None) \<Rightarrow> Ok \<lparr>co_jwt = None, co_root_cert = None, co_require_tls = False, co_name = []\<rparr>
            | _ \<Rightarrow> Err (InvalidParameter ''must provide both jwt and seed for jwt authentication''))
       (\<lambda>opts. case tls_ca cfg of
          Some ca \<Rightarrow> add_tls_ca env ca opts
        | None \<Rightarrow> (case tls_ca_file cfg of
            Some f \<Rightarrow> rbind (map_err (\<lambda>e. ProviderInit (''tls ca file: '' @ e)) (ne_read_to_string env f))
                        (\<lambda>ca. add_tls_ca env ca opts)
          | None \<Rightarrow> Ok opts))"

record nats_task =
  nt_subject :: string
  nt_queue :: "string option"
  nt_ld :: link_definition

record 'c nats_bundle =
  nb_client :: 'c
  nb_sub_handles :: "(string \<times> nat) list"

record nats_settings =
  default_config :: connection_config
  host_id :: string

record 'c nats_provider =
  np_actors :: "string \<rightharpoonup> 'c nats_bundle"
  np_tasks :: "nat \<rightharpoonup> nats_task"
  np_next :: nat

definition init_nats :: "'c nats_provider" where
  "init_nats = \<lparr>np_actors = Map.empty, np_tasks = Map.empty, np_next = 0\<rparr>"

text \<open>\<open>generate_provider\<close>: the default configuration comes from the host data, if it has any.\<close>

definition generate_provider :: "'c nats_env \<Rightarrow> string option \<Rightarrow> string \<Rightarrow> nats_settings rpc_result" where
  "generate_provider env config_json host =
     (case config_json of
        None \<Rightarrow> Ok \<lparr>default_config = default_connection_config, host_id = host\<rparr>
      | Some c \<Rightarrow>
          (if trim c = [] then Ok \<lparr>default_config = default_connection_config, host_id = host\<rparr>
           else (case ne_from_str env c of
                   Inr config \<Rightarrow> Ok \<lparr>default_config = config, host_id = host\<rparr>
                 | Inl _ \<Rightarrow> Panic)))"

text \<open>A subscription names a subject and, after a bar, a queue group.\<close>

definition sub_queue :: "string \<Rightarrow> string \<times> string option" where
  "sub_queue sub = (case split_once (CHR ''|'') sub of Some (s, q) \<Rightarrow> (s, Some q) | None \<Rightarrow> (sub, None))"

definition spawn_task :: "nats_task \<Rightarrow> 'c nats_provider \<Rightarrow> nat \<times> 'c nats_provider" where
  "spawn_task t p = (np_next p, p\<lparr>np_tasks := (np_tasks p)(np_next p \<mapsto> t), np_next := np_next p + 1\<rparr>)"

definition nats_subscribe ::
  "'c nats_env \<Rightarrow> 'c \<Rightarrow> link_definition \<Rightarrow> string \<Rightarrow> string option \<Rightarrow> 'c nats_provider \<Rightarrow>
   nat rpc_result \<times> 'c nats_provider" where
  "nats_subscribe env client ld sub queue p =
     early (map_err (\<lambda>e. Nats (''subscription to '' @ sub @ '': '' @ e)) (ne_subscribe env client sub queue)) p
       (\<lambda>_. case spawn_task \<lparr>nt_subject = sub, nt_queue = queue, nt_ld = ld\<rparr> p of (h, p') \<Rightarrow> (Ok h, p'))"

text \<open>The loop over the subscriptions: an error leaves, with the handles so far dropped.\<close>

fun subscribe_all ::
  "'c nats_env \<Rightarrow> 'c \<Rightarrow> link_definition \<Rightarrow> string list \<Rightarrow> (string \<times> nat) list \<Rightarrow> 'c nats_provider \<Rightarrow>
   (string \<times> nat) list rpc_result \<times> 'c nats_provider" where
  "subscribe_all env client ld [] handles p = (Ok handles, p)"
| "subscribe_all env client ld (s # ss) handles p =
     (case sub_queue s of (sub, queue) \<Rightarrow>
      case nats_subscribe env client ld sub queue p of (r, p') \<Rightarrow>
        early r p' (\<lambda>h. subscribe_all env client ld ss (handles @ [(sub, h)]) p'))"

definition nats_connect ::
  "'c nats_env \<Rightarrow> nats_settings \<Rightarrow> connection_config \<Rightarrow> link_definition \<Rightarrow> 'c nats_provider \<Rightarrow>
   'c nats_bundle rpc_result \<times> 'c nats_provider" where
  "nats_connect env settings cfg ld p =
     early (build_connect_options env cfg) p (\<lambda>opts.
     early (unwrap (case cluster_uris cfg of u # _ \<Rightarrow> Some u | [] \<Rightarrow> None)) p (\<lambda>url.
       let client_name = ''NATS Messaging Provider - '' @ host_id settings @ '' - '' @ ld_actor_id ld @ '' - '' @ ld_link_name ld
       in early (map_err (\<lambda>e. ProviderInit (''NATS connection to '' @ url @ '': '' @ e))
                   (ne_connect env (opts\<lparr>co_name := client_name\<rparr>) url)) p (\<lambda>client.
          case subscribe_all env client ld (filter (\<lambda>s. s \<noteq> []) (subscriptions cfg)) [] p of (r, p') \<Rightarrow>
            early r p' (\<lambda>handles. (Ok \<lparr>nb_client = client, nb_sub_handles = handles\<rparr>, p')))))"

section \<open>Links\<close>

text \<open>Dropping a bundle aborts its tasks.\<close>

definition drop_bundle :: "'c nats_bundle option \<Rightarrow> 'c nats_provider \<Rightarrow> 'c nats_provider" where
  "drop_bundle b p =
     (case b of None \<Rightarrow> p
      | Some b \<Rightarrow> p\<lparr>np_tasks := (\<lambda>i. if i \<in> set (map snd (nb_sub_handles b)) then None else np_tasks p i)\<rparr>)"

definition link_config :: "'c nats_env \<Rightarrow> nats_settings \<Rightarrow> link_definition \<Rightarrow> connection_config rpc_result" where
  "link_config env settings ld =
     (if ld_values ld = [] then Ok (default_config settings)
      else rbind (new_from env (ld_values ld)) (\<lambda>cc. Ok (merge_config (default_config settings) cc)))"

definition put_link_nats ::
  "'c nats_env \<Rightarrow> nats_settings \<Rightarrow> link_definition \<Rightarrow> 'c nats_provider \<Rightarrow> bool rpc_result \<times> 'c nats_provider" where
  "put_link_nats env settings ld p =
     (case link_config env settings ld of
        Err _ \<Rightarrow> (Ok False, p)
      | Panic \<Rightarrow> (Panic, p)
      | Ok config \<Rightarrow>
          (case nats_connect env settings config ld p of (r, p') \<Rightarrow>
             early r p' (\<lambda>bundle.
               (Ok True, drop_bundle (np_actors p' (ld_actor_id ld))
                           (p'\<lparr>np_actors := (np_actors p')(ld_actor_id ld \<mapsto> bundle)\<rparr>)))))"

definition delete_link_nats :: "string \<Rightarrow> 'c nats_provider \<Rightarrow> 'c nats_provider" where
  "delete_link_nats actor p = drop_bundle (np_actors p actor) (p\<lparr>np_actors := (np_actors p)(actor := None)\<rparr>)"

definition shutdown_nats :: "'c nats_provider \<Rightarrow> 'c nats_provider" where
  "shutdown_nats p = p\<lparr>np_actors := Map.empty,
     np_tasks := (\<lambda>i. if \<exists>b\<in>ran (np_actors p). i \<in> set (map snd (nb_sub_handles b)) then None else np_tasks p i)\<rparr>"

section \<open>Messages\<close>

definition should_strip_headers :: "string \<Rightarrow> bool" where
  "should_strip_headers topic \<longleftrightarrow> starts_with topic ''$SYS''"

definition nats_bundle_of :: "'c nats_provider \<Rightarrow> ctx \<Rightarrow> 'c nats_bundle rpc_result" where
  "nats_bundle_of p ctx =
     rbind (ok_or (InvalidParameter ''no actor in request'') (ctx_actor ctx)) (\<lambda>actor_id.
       ok_or (InvalidParameter (''actor not linked:'' @ actor_id)) (np_actors p actor_id))"

definition publish_nats ::
  "'c nats_env \<Rightarrow> 'c nats_provider \<Rightarrow> ctx \<Rightarrow> pub_message \<Rightarrow> unit rpc_result \<times> ('c \<times> nats_message) list" where
  "publish_nats env p ctx msg =
     (case nats_bundle_of p ctx of
        Ok b \<Rightarrow>
          (let headers = ne_otel_headers env;
               out = (case pm_reply_to msg of
                 Some reply_to \<Rightarrow>
                   (if should_strip_headers (pm_subject msg)
                    then \<lparr>nm_subject = pm_subject msg, nm_reply = Some reply_to, nm_headers = None, nm_payload = pm_body msg\<rparr>
                    else \<lparr>nm_subject = pm_subject msg, nm_reply = Some reply_to, nm_headers = Some headers, nm_payload = pm_body msg\<rparr>)
               | None \<Rightarrow> \<lparr>nm_subject = pm_subject msg, nm_reply = None, nm_headers = Some headers, nm_payload = pm_body msg\<rparr>)
           in (map_err Nats (ne_publish env (nb_client b) out), [(nb_client b, out)]))
      | Err e \<Rightarrow> (Err e, [])
      | Panic \<Rightarrow> (Panic, []))"

definition request_nats ::
  "'c nats_env \<Rightarrow> 'c nats_provider \<Rightarrow> ctx \<Rightarrow> request_message \<Rightarrow> sub_message rpc_result" where
  "request_nats env p ctx msg =
     rbind (nats_bundle_of p ctx) (\<lambda>b.
       let out = \<lparr>nm_subject = rm_subject msg, nm_reply = None,
                  nm_headers = (if should_strip_headers (rm_subject msg) then None else Some (ne_otel_headers env)),
                  nm_payload = rm_body msg\<rparr>
       in case ne_request env (nb_client b) out (rm_timeout_ms msg) of
            None \<Rightarrow> Err (Timeout ''nats request timed out'')
          | Some (Inl e) \<Rightarrow> Err (Nats (''nats send error: '' @ e))
          | Some (Inr resp) \<Rightarrow> Ok \<lparr>sm_subject = nm_subject resp, sm_reply_to = nm_reply resp, sm_body = nm_payload resp\<rparr>)"

text \<open>A message that arrives for a running task becomes a call of the actor of the task's link.\<close>

definition dispatch_msg :: "link_definition \<Rightarrow> nats_message \<Rightarrow> link_definition \<times> sub_message" where
  "dispatch_msg ld m = (ld, \<lparr>sm_subject = nm_subject m, sm_reply_to = nm_reply m, sm_body = nm_payload m\<rparr>)"

definition deliver_nats :: "'c nats_provider \<Rightarrow> nat \<Rightarrow> nats_message \<Rightarrow> (link_definition \<times> sub_message) option" where
  "deliver_nats p i m = map_option (\<lambda>t. dispatch_msg (nt_ld t) m) (np_tasks p i)"

section \<open>Lemmas\<close>

subsection \<open>Configuration\<close>

lemma base_nats_config_not_Panic [simp]: "base_nats_config env v \<noteq> Panic"
  by (auto simp: base_nats_config_def rbind_Panic_iff split: option.splits)

lemma new_from_not_Panic [simp]: "new_from env v \<noteq> Panic"
  by (auto simp: new_from_def rbind_Panic_iff Let_def)

lemma link_config_not_Panic [simp]: "link_config env settings ld \<noteq> Panic"
  by (auto simp: link_config_def rbind_Panic_iff)

lemma new_from_Ok:
  assumes "new_from env v = Ok cfg"
  shows "cluster_uris cfg \<noteq> []" "auth_jwt cfg \<noteq> None \<Longrightarrow> auth_seed cfg \<noteq> None"
  using assms by (auto simp: new_from_def rbind_Ok_iff Let_def simp del: not_None_eq split: if_splits)

lemma link_config_uris:
  "link_config env settings ld = Ok cfg \<Longrightarrow> ld_values ld \<noteq> [] \<Longrightarrow> cluster_uris cfg \<noteq> []"
  by (auto simp: link_config_def rbind_Ok_iff merge_config_def dest: new_from_Ok(1))

lemma add_tls_ca_not_Panic [simp]: "add_tls_ca env ca opts \<noteq> Panic"
  by (auto simp: add_tls_ca_def rbind_Panic_iff split: option.splits pem_item.splits)

lemma build_connect_options_not_Panic [simp]: "build_connect_options env cfg \<noteq> Panic"
  by (auto simp: build_connect_options_def rbind_Panic_iff split: option.splits)

subsection \<open>Tasks\<close>

text \<open>The server accepts every subscription of the list.\<close>

definition subs_ok :: "'c nats_env \<Rightarrow> 'c \<Rightarrow> string list \<Rightarrow> bool" where
  "subs_ok env c ss \<longleftrightarrow> list_all (\<lambda>s. ne_subscribe env c (fst (sub_queue s)) (snd (sub_queue s)) = Inr ()) ss"

lemma subs_ok_simps [simp]:
  "subs_ok env c []"
  "subs_ok env c (s # ss) \<longleftrightarrow> ne_subscribe env c (fst (sub_queue s)) (snd (sub_queue s)) = Inr () \<and> subs_ok env c ss"
  by (simp_all add: subs_ok_def)

lemma nats_subscribe_cases:
  obtains (ok) p' where "nats_subscribe env c ld sub q p = (Ok (np_next p), p')"
      "p' = p\<lparr>np_tasks := (np_tasks p)(np_next p \<mapsto> \<lparr>nt_subject = sub, nt_queue = q, nt_ld = ld\<rparr>), np_next := np_next p + 1\<rparr>"
      "ne_subscribe env c sub q = Inr ()"
    | (fail) e where "nats_subscribe env c ld sub q p = (Err e, p)" "ne_subscribe env c sub q \<noteq> Inr ()"
  by (cases "ne_subscribe env c sub q") (auto simp: nats_subscribe_def spawn_task_def)

text \<open>What the subscription loop adds, whether it ends well or not: tasks of the link, fresh ids.\<close>

definition fresh_tasks :: "link_definition \<Rightarrow> 'c nats_provider \<Rightarrow> 'c nats_provider \<Rightarrow> bool" where
  "fresh_tasks ld p p' \<longleftrightarrow> np_actors p' = np_actors p \<and> np_next p \<le> np_next p' \<and>
     (\<forall>i. i < np_next p \<or> np_next p' \<le> i \<longrightarrow> np_tasks p' i = np_tasks p i) \<and>
     (\<forall>i\<in>{np_next p..<np_next p'}. \<exists>t. np_tasks p' i = Some t \<and> nt_ld t = ld)"

lemma fresh_tasks_refl [simp]: "fresh_tasks ld p p"
  by (simp add: fresh_tasks_def)

lemma fresh_tasks_trans:
  "fresh_tasks ld p p1 \<Longrightarrow> fresh_tasks ld p1 p2 \<Longrightarrow> fresh_tasks ld p p2"
proof -
  assume 1: "fresh_tasks ld p p1" and 2: "fresh_tasks ld p1 p2"
  have "\<exists>t. np_tasks p2 i = Some t \<and> nt_ld t = ld" if "i \<in> {np_next p..<np_next p2}" for i
    using 1 2 that by (cases "i < np_next p1") (simp_all add: fresh_tasks_def)
  with 1 2 show ?thesis by (simp add: fresh_tasks_def)
qed

lemma subscribe_all_fresh: "fresh_tasks ld p (snd (subscribe_all env c ld ss hs p))"
proof (induction ss arbitrary: hs p)
  case (Cons s ss)
  obtain sub q where sq: "sub_queue s = (sub, q)" by (cases "sub_queue s")
  show ?case
  proof (cases rule: nats_subscribe_cases [where env = env and c = c and ld = ld and sub = sub and q = q and p = p])
    case (ok p')
    have "fresh_tasks ld p p'" by (auto simp: ok(2) fresh_tasks_def)
    with ok(1) sq Cons [of p' "hs @ [(sub, np_next p)]"] fresh_tasks_trans show ?thesis by fastforce
  next
    case (fail e)
    with sq show ?thesis by simp
  qed
qed simp

lemma subscribe_all_Ok:
  assumes "subscribe_all env c ld ss hs p = (Ok hs', p')"
  shows "map fst hs' = map fst hs @ map (fst \<circ> sub_queue) ss"
    and "set (map snd hs') = set (map snd hs) \<union> {np_next p..<np_next p'}"
    and "subs_ok env c ss"
proof -
  have "map fst hs' = map fst hs @ map (fst \<circ> sub_queue) ss \<and>
    set (map snd hs') = set (map snd hs) \<union> {np_next p..<np_next p'} \<and>
    subs_ok env c ss"
    using assms
  proof (induction ss arbitrary: hs p)
    case (Cons s ss)
    obtain sub q where sq: "sub_queue s = (sub, q)" by (cases "sub_queue s")
    show ?case
    proof (cases rule: nats_subscribe_cases [where env = env and c = c and ld = ld and sub = sub and q = q and p = p])
      case (ok p1)
      have rest: "subscribe_all env c ld ss (hs @ [(sub, np_next p)]) p1 = (Ok hs', p')"
        using Cons.prems ok(1) sq by simp
      have "np_next p1 \<le> np_next p'"
        using subscribe_all_fresh [where p = p1 and ld = ld and env = env and c = c and ss = ss and hs = "hs @ [(sub, np_next p)]"] rest by (simp add: fresh_tasks_def)
      then have "{np_next p..<np_next p'} = insert (np_next p) {np_next p1..<np_next p'}" by (auto simp: ok(2))
      with Cons.IH [OF rest] sq ok(3) show ?thesis by auto
    next
      case (fail e)
      with Cons.prems sq show ?thesis by simp
    qed
  qed auto
  then show "map fst hs' = map fst hs @ map (fst \<circ> sub_queue) ss"
    "set (map snd hs') = set (map snd hs) \<union> {np_next p..<np_next p'}"
    "subs_ok env c ss" by blast+
qed

text \<open>The handles are those of one task for each subscription, in their order.\<close>

definition task_for :: "link_definition \<Rightarrow> string \<Rightarrow> nats_task" where
  "task_for ld s = \<lparr>nt_subject = fst (sub_queue s), nt_queue = snd (sub_queue s), nt_ld = ld\<rparr>"

lemma subscribe_all_tasks:
  assumes "subscribe_all env c ld ss hs p = (Ok hs', p')"
  shows "map snd hs' = map snd hs @ [np_next p..<np_next p']"
    and "map (np_tasks p') [np_next p..<np_next p'] = map (Some \<circ> task_for ld) ss"
proof -
  have "map snd hs' = map snd hs @ [np_next p..<np_next p'] \<and>
    map (np_tasks p') [np_next p..<np_next p'] = map (Some \<circ> task_for ld) ss"
    using assms
  proof (induction ss arbitrary: hs p)
    case (Cons s ss)
    obtain sub q where sq: "sub_queue s = (sub, q)" by (cases "sub_queue s")
    show ?case
    proof (cases rule: nats_subscribe_cases [where env = env and c = c and ld = ld and sub = sub and q = q and p = p])
      case (ok p1)
      have rest: "subscribe_all env c ld ss (hs @ [(sub, np_next p)]) p1 = (Ok hs', p')"
        using Cons.prems ok(1) sq by simp
      have fresh: "fresh_tasks ld p1 p'"
        using subscribe_all_fresh [where p = p1 and ld = ld and env = env and c = c and ss = ss and hs = "hs @ [(sub, np_next p)]"]
          rest by simp
      then have "np_next p < np_next p'" and t: "np_tasks p' (np_next p) = np_tasks p1 (np_next p)"
        by (auto simp: fresh_tasks_def ok(2))
      then have "[np_next p..<np_next p'] = np_next p # [np_next p1..<np_next p']"
        by (simp add: ok(2) upt_conv_Cons)
      with Cons.IH [OF rest] t sq show ?thesis by (simp add: ok(2) task_for_def)
    next
      case (fail e)
      with Cons.prems sq show ?thesis by simp
    qed
  qed auto
  then show "map snd hs' = map snd hs @ [np_next p..<np_next p']"
    "map (np_tasks p') [np_next p..<np_next p'] = map (Some \<circ> task_for ld) ss" by blast+
qed

lemma subscribe_all_total:
  "subs_ok env c ss \<Longrightarrow>
     \<exists>hs' p'. subscribe_all env c ld ss hs p = (Ok hs', p')"
proof (induction ss arbitrary: hs p)
  case (Cons s ss)
  obtain sub q where sq: "sub_queue s = (sub, q)" by (cases "sub_queue s")
  show ?case
  proof (cases rule: nats_subscribe_cases [where env = env and c = c and ld = ld and sub = sub and q = q and p = p])
    case (ok p1)
    with Cons.IH [of "hs @ [(sub, np_next p)]" p1] Cons.prems sq show ?thesis by simp
  next
    case (fail e)
    with Cons.prems sq show ?thesis by simp
  qed
qed simp

lemma subscribe_all_not_Panic: "fst (subscribe_all env c ld ss hs p) \<noteq> Panic"
proof (induction ss arbitrary: hs p)
  case (Cons s ss)
  obtain sub q where sq: "sub_queue s = (sub, q)" by (cases "sub_queue s")
  with Cons show ?case
    by (cases rule: nats_subscribe_cases [where env = env and c = c and ld = ld and sub = sub and q = q and p = p]) simp_all
qed simp

subsection \<open>Links\<close>

abbreviation topics :: "connection_config \<Rightarrow> string list" where
  "topics cfg \<equiv> filter (\<lambda>s. s \<noteq> []) (subscriptions cfg)"

text \<open>The connection a configuration leads to, before any subscription.\<close>

definition nats_client_for ::
  "'c nats_env \<Rightarrow> nats_settings \<Rightarrow> connection_config \<Rightarrow> link_definition \<Rightarrow> 'c option" where
  "nats_client_for env settings cfg ld =
     (case build_connect_options env cfg of
        Ok opts \<Rightarrow> (case cluster_uris cfg of
            u # _ \<Rightarrow> (case ne_connect env (opts\<lparr>co_name := ''NATS Messaging Provider - '' @ host_id settings @ '' - '' @
                            ld_actor_id ld @ '' - '' @ ld_link_name ld\<rparr>) u of
                Inr c \<Rightarrow> Some c | Inl _ \<Rightarrow> None)
          | [] \<Rightarrow> None)
      | _ \<Rightarrow> None)"

lemma nats_connect_client:
  "nats_client_for env settings cfg ld = Some c \<Longrightarrow> nats_connect env settings cfg ld p =
     (case subscribe_all env c ld (topics cfg) [] p of (r, p') \<Rightarrow>
        early r p' (\<lambda>handles. (Ok \<lparr>nb_client = c, nb_sub_handles = handles\<rparr>, p')))"
  by (auto simp: nats_client_for_def nats_connect_def Let_def split: rres.splits list.splits sum.splits)

lemma nats_connect_no_client:
  "nats_client_for env settings cfg ld = None \<Longrightarrow>
     snd (nats_connect env settings cfg ld p) = p \<and> \<not> is_ok (fst (nats_connect env settings cfg ld p))"
  by (auto simp: nats_client_for_def nats_connect_def Let_def split: rres.splits list.splits sum.splits)

definition nats_accept ::
  "'c nats_env \<Rightarrow> nats_settings \<Rightarrow> link_definition \<Rightarrow> ('c \<times> string list) option" where
  "nats_accept env settings ld =
     (case link_config env settings ld of
        Ok cfg \<Rightarrow> (case nats_client_for env settings cfg ld of
            Some c \<Rightarrow>
              (if subs_ok env c (topics cfg)
               then Some (c, map (fst \<circ> sub_queue) (topics cfg)) else None)
          | None \<Rightarrow> None)
      | _ \<Rightarrow> None)"

definition nats_link_of :: "'c nats_provider \<Rightarrow> string \<Rightarrow> ('c \<times> string list) option" where
  "nats_link_of p a = map_option (\<lambda>b. (nb_client b, map fst (nb_sub_handles b))) (np_actors p a)"

lemma drop_bundle_actors [simp]: "np_actors (drop_bundle b p) = np_actors p"
  by (cases b) (simp_all add: drop_bundle_def)

text \<open>The two outcomes of put-link: the new bundle replaces the old one, or the table stays.\<close>

lemma put_link_nats_cases:
  obtains (linked) c hs p' where "nats_accept env settings ld = Some (c, map fst hs)"
      "set (map snd hs) = {np_next p..<np_next p'}" "fresh_tasks ld p p'"
      "put_link_nats env settings ld p = (Ok True, drop_bundle (np_actors p (ld_actor_id ld))
         (p'\<lparr>np_actors := (np_actors p)(ld_actor_id ld \<mapsto> \<lparr>nb_client = c, nb_sub_handles = hs\<rparr>)\<rparr>))"
      "map snd hs = [np_next p..<np_next p']"
      "\<forall>cfg. link_config env settings ld = Ok cfg \<longrightarrow>
         map (np_tasks p') [np_next p..<np_next p'] = map (Some \<circ> task_for ld) (topics cfg)"
    | (failed) "nats_accept env settings ld = None" "fresh_tasks ld p (snd (put_link_nats env settings ld p))"
      "(\<forall>c s q. ne_subscribe env c s q = Inr ()) \<Longrightarrow> snd (put_link_nats env settings ld p) = p"
      "fst (put_link_nats env settings ld p) \<noteq> Ok True"
proof (cases "link_config env settings ld")
  case (Ok cfg)
  show thesis
  proof (cases "nats_client_for env settings cfg ld")
    case None
    note n = nats_connect_no_client [OF None, of p]
    then have "snd (put_link_nats env settings ld p) = p \<and> fst (put_link_nats env settings ld p) \<noteq> Ok True"
      using Ok by (cases "nats_connect env settings cfg ld p"; cases "fst (nats_connect env settings cfg ld p)")
        (auto simp: put_link_nats_def)
    then show thesis using failed Ok None by (simp add: nats_accept_def)
  next
    case (Some c)
    obtain r p' where sub: "subscribe_all env c ld (topics cfg) [] p = (r, p')" by fastforce
    have fresh: "fresh_tasks ld p p'"
      using subscribe_all_fresh [where p = p and ld = ld and env = env and c = c and ss = "topics cfg" and hs = "[]"] sub
      by simp
    show thesis
    proof (cases r)
      case (Ok hs)
      note 1 = subscribe_all_Ok [OF sub [unfolded Ok]] subscribe_all_tasks [OF sub [unfolded Ok]]
      show thesis
        by (rule linked [of c hs p'])
          (use 1 fresh sub \<open>link_config env settings ld = Ok cfg\<close> Some Ok nats_connect_client [OF Some, of p] in
            \<open>auto simp: nats_accept_def put_link_nats_def fresh_tasks_def\<close>)
    next
      case (Err e)
      have "\<not> subs_ok env c (topics cfg)"
        using subscribe_all_total [of env c "topics cfg" ld "[]" p] sub Err by auto
      moreover have "put_link_nats env settings ld p = (Err e, p')"
        using sub Err Ok nats_connect_client [OF Some, of p] by (simp add: put_link_nats_def)
      ultimately show thesis
        using failed fresh Ok Some by (simp add: nats_accept_def) (auto simp: subs_ok_def list_all_iff)
    next
      case Panic
      with sub subscribe_all_not_Panic [of env c ld "topics cfg" "[]" p] show thesis by simp
    qed
  qed
next
  case (Err e)
  then show thesis using failed by (simp add: nats_accept_def put_link_nats_def)
next
  case Panic
  then show thesis by simp
qed

interpretation nt: link_service nats_link_of "\<lambda>ld p. snd (put_link_nats env settings ld p)"
  "nats_accept env settings" delete_link_nats shutdown_nats
  "\<lambda>p ctx. rbind (nats_bundle_of p ctx) (\<lambda>b. Ok (nb_client b, map fst (nb_sub_handles b)))" not_linked
  for env settings
proof unfold_locales
  fix ld :: link_definition and p :: "'a nats_provider" and a
  show "nats_link_of (snd (put_link_nats env settings ld p)) a =
      (if a = ld_actor_id ld then or_else (nats_accept env settings ld) (nats_link_of p a) else nats_link_of p a)"
    by (cases rule: put_link_nats_cases [where env = env and settings = settings and ld = ld and p = p])
      (auto simp: nats_link_of_def fresh_tasks_def)
next
  fix p :: "'a nats_provider" and ctx :: ctx
  show "rbind (nats_bundle_of p ctx) (\<lambda>b. Ok (nb_client b, map fst (nb_sub_handles b))) =
      rbind (ok_or no_actor (ctx_actor ctx)) (\<lambda>a. ok_or (not_linked a) (nats_link_of p a))"
    by (auto simp: nats_bundle_of_def no_actor_def not_linked_def nats_link_of_def ok_or_def split: option.splits)
qed (auto simp: nats_link_of_def delete_link_nats_def shutdown_nats_def)

subsection \<open>Reachable states\<close>

inductive nats_reachable :: "'c nats_env \<Rightarrow> nats_settings \<Rightarrow> 'c nats_provider \<Rightarrow> bool"
  for env settings where
  start: "nats_reachable env settings init_nats"
| put: "nats_reachable env settings p \<Longrightarrow> nats_reachable env settings (snd (put_link_nats env settings ld p))"
| del: "nats_reachable env settings p \<Longrightarrow> nats_reachable env settings (delete_link_nats a p)"
| shut: "nats_reachable env settings p \<Longrightarrow> nats_reachable env settings (shutdown_nats p)"

text \<open>
  The tasks of the provider by the contract of \<open>Task_Table\<close>: the handles of an actor are those of its
  bundle, and they are handles of running tasks of links of that actor.
\<close>

definition nats_handles :: "'c nats_provider \<Rightarrow> string \<Rightarrow> nat set" where
  "nats_handles p a = (case np_actors p a of Some b \<Rightarrow> set (map snd (nb_sub_handles b)) | None \<Rightarrow> {})"

abbreviation nats_wf :: "'c nats_provider \<Rightarrow> bool" where
  "nats_wf \<equiv> wf_tasks nats_handles np_tasks np_next"

definition nats_inv :: "'c nats_provider \<Rightarrow> bool" where
  "nats_inv p \<longleftrightarrow> nats_wf p \<and> fits nats_handles np_tasks (\<lambda>a t. ld_actor_id (nt_ld t) = a) p"

lemma nats_handlesI: "np_actors p a = Some b \<Longrightarrow> nats_handles p a = set (map snd (nb_sub_handles b))"
  by (simp add: nats_handles_def)

text \<open>What put-link does to the tasks.\<close>

lemma put_link_nats_tasks:
  obtains (linked) "nats_accept env settings ld \<noteq> None"
      "nats_handles (snd (put_link_nats env settings ld p)) =
         (nats_handles p)(ld_actor_id ld := {np_next p..<np_next (snd (put_link_nats env settings ld p))})"
      "np_next p \<le> np_next (snd (put_link_nats env settings ld p))"
      "\<forall>i. i \<in> nats_handles p (ld_actor_id ld) \<longrightarrow> np_tasks (snd (put_link_nats env settings ld p)) i = None"
      "\<forall>i. i \<notin> nats_handles p (ld_actor_id ld) \<longrightarrow>
         (if i < np_next p \<or> np_next (snd (put_link_nats env settings ld p)) \<le> i
          then np_tasks (snd (put_link_nats env settings ld p)) i = np_tasks p i
          else \<exists>t. np_tasks (snd (put_link_nats env settings ld p)) i = Some t \<and> nt_ld t = ld)"
  | (failed) "nats_accept env settings ld = None" "fresh_tasks ld p (snd (put_link_nats env settings ld p))"
      "(\<forall>c s q. ne_subscribe env c s q = Inr ()) \<Longrightarrow> snd (put_link_nats env settings ld p) = p"
proof (cases rule: put_link_nats_cases [where env = env and settings = settings and ld = ld and p = p])
  case l: (linked c hs p')
  let ?p = "snd (put_link_nats env settings ld p)"
  have p: "?p = drop_bundle (np_actors p (ld_actor_id ld))
      (p'\<lparr>np_actors := (np_actors p)(ld_actor_id ld \<mapsto> \<lparr>nb_client = c, nb_sub_handles = hs\<rparr>)\<rparr>)"
    by (simp add: l(4))
  have nxt: "np_next ?p = np_next p'" by (simp add: p drop_bundle_def split: option.split)
  have tasks: "np_tasks ?p i = (if i \<in> nats_handles p (ld_actor_id ld) then None else np_tasks p' i)" for i
    by (simp add: p drop_bundle_def nats_handles_def split: option.split)
  have "set (map snd hs) = {np_next p..<np_next p'}" by (simp add: l(5))
  then have "nats_handles ?p a = ((nats_handles p)(ld_actor_id ld := {np_next p..<np_next ?p})) a" for a
    by (simp add: nxt) (simp add: p nats_handles_def)
  then show thesis
    using l(1,3) by (intro linked) (auto simp: fun_eq_iff nxt tasks fresh_tasks_def)
qed (rule failed)

lemma nats_put_changes:
  assumes "nats_wf p"
  shows "changes nats_handles np_tasks np_next (ld_actor_id ld) p (snd (put_link_nats env settings ld p))"
proof (cases rule: put_link_nats_tasks [where env = env and settings = settings and ld = ld and p = p])
  case linked
  let ?p = "snd (put_link_nats env settings ld p)"
  have "i < np_next ?p" if "np_tasks ?p i = Some t" for i t
    using that linked(3,4,5) wf_tasksD(2) [OF assms, of i t]
    by (cases "i \<in> nats_handles p (ld_actor_id ld)"; cases "np_next ?p \<le> i") auto
  with linked show ?thesis by (simp add: changes_def)
next
  case failed
  let ?p = "snd (put_link_nats env settings ld p)"
  have "i < np_next ?p" if "np_tasks ?p i = Some t" for i t
    using that failed(2) wf_tasksD(2) [OF assms, of i t] unfolding fresh_tasks_def by (cases "np_next ?p \<le> i") auto
  moreover have "nats_handles ?p = nats_handles p"
    using failed(2) by (simp add: fresh_tasks_def nats_handles_def fun_eq_iff)
  ultimately show ?thesis using failed(2) by (simp add: changes_def fresh_tasks_def)
qed

lemma delete_link_nats_sel [simp]:
  "np_actors (delete_link_nats a p) = (np_actors p)(a := None)"
  "np_next (delete_link_nats a p) = np_next p"
  "np_tasks (delete_link_nats a p) i = (if i \<in> nats_handles p a then None else np_tasks p i)"
  by (simp_all add: delete_link_nats_def drop_bundle_def nats_handles_def split: option.splits)

interpretation ntt: task_links nats_handles np_tasks np_next "\<lambda>ld p. snd (put_link_nats env settings ld p)"
  delete_link_nats shutdown_nats "nats_accept env settings" for env settings
proof unfold_locales
  fix p :: "'a nats_provider" and i
  show "np_tasks (shutdown_nats p) i = (if \<exists>a. i \<in> nats_handles p a then None else np_tasks p i)"
    by (auto simp: shutdown_nats_def nats_handles_def ran_def split: option.splits if_splits)
next
  fix p :: "'a nats_provider" and ld
  assume wf: "nats_wf p" and no: "nats_accept env settings ld = None"
  show "nats_handles (snd (put_link_nats env settings ld p)) (ld_actor_id ld) = nats_handles p (ld_actor_id ld) \<and>
     (\<forall>i\<in>nats_handles p (ld_actor_id ld). np_tasks (snd (put_link_nats env settings ld p)) i = np_tasks p i)"
    by (cases rule: put_link_nats_tasks [where env = env and settings = settings and ld = ld and p = p])
      (use no wf_tasksD(1) [OF wf] in \<open>auto simp: fresh_tasks_def nats_handles_def\<close>)
qed (auto simp: nats_put_changes nats_handles_def shutdown_nats_def)

lemma nats_inv_put:
  assumes "nats_inv p"
  shows "nats_inv (snd (put_link_nats env settings ld p))"
proof -
  have wf: "nats_wf p" using assms by (simp add: nats_inv_def)
  have "\<exists>t. np_tasks (snd (put_link_nats env settings ld p)) i = Some t \<and> ld_actor_id (nt_ld t) = ld_actor_id ld"
    if "i \<in> nats_handles (snd (put_link_nats env settings ld p)) (ld_actor_id ld)" for i
  proof (cases rule: put_link_nats_tasks [where env = env and settings = settings and ld = ld and p = p])
    case linked
    with that have "np_next p \<le> i" "i < np_next (snd (put_link_nats env settings ld p))" by simp_all
    with linked(5) wf_tasksD(1) [OF wf, of i] show ?thesis by (metis not_less)
  next
    case failed
    with that ntt.put_refused [OF wf failed(1)] assms show ?thesis by (auto simp: nats_inv_def fits_def)
  qed
  then have "fits nats_handles np_tasks (\<lambda>a t. ld_actor_id (nt_ld t) = a) (snd (put_link_nats env settings ld p))"
    using assms changes_fits [OF wf _ nats_put_changes [OF wf]] by (simp add: nats_inv_def)
  with ntt.put_wf [OF wf] show ?thesis by (simp add: nats_inv_def)
qed

lemma nats_inv_init: "nats_inv init_nats"
  by (simp add: nats_inv_def wf_tasks_def fits_def nats_handles_def init_nats_def)

lemma nats_reachable_inv: "nats_reachable env settings p \<Longrightarrow> nats_inv p"
proof (induction rule: nats_reachable.induct)
  case start
  then show ?case by (rule nats_inv_init)
next
  case (put p ld)
  then show ?case by (simp add: nats_inv_put)
next
  case (del p a)
  then show ?case by (simp add: nats_inv_def ntt.del_wf ntt.del_fits)
next
  case (shut p)
  then show ?case by (simp add: nats_inv_def ntt.shut_wf ntt.shut_fits)
qed

text \<open>As long as every subscription is accepted, no task runs without its handle in the table.\<close>

lemma nats_put_tidy:
  assumes "nats_wf p" "tidy nats_handles np_tasks p" "\<forall>c s q. ne_subscribe env c s q = Inr ()"
  shows "tidy nats_handles np_tasks (snd (put_link_nats env settings ld p))"
proof (cases rule: put_link_nats_tasks [where env = env and settings = settings and ld = ld and p = p])
  case linked
  then show ?thesis by (intro changes_tidy [OF assms(2) nats_put_changes [OF assms(1)]]) simp_all
next
  case failed
  with assms show ?thesis by simp
qed

lemma nats_reachable_tidy:
  assumes "nats_reachable env settings p" "\<forall>c s q. ne_subscribe env c s q = Inr ()"
  shows "tidy nats_handles np_tasks p"
  using assms(1)
proof (induction rule: nats_reachable.induct)
  case start
  then show ?case by (simp add: tidy_def init_nats_def)
next
  case (put p ld)
  then have "nats_wf p" using nats_reachable_inv by (auto simp: nats_inv_def)
  from nats_put_tidy [OF this put.IH assms(2)] show ?case .
next
  case (del p a)
  then have "nats_wf p" using nats_reachable_inv by (auto simp: nats_inv_def)
  from ntt.del_tidy [OF this del.IH] show ?case .
next
  case (shut p)
  then show ?case by (simp add: ntt.shut_tidy)
qed

lemma new_bundle_tasks:
  assumes "nats_wf p" "put_link_nats env settings ld p = (Ok True, p')" "link_config env settings ld = Ok cfg"
  obtains b where "np_actors p' (ld_actor_id ld) = Some b" "distinct (map snd (nb_sub_handles b))"
    "map (np_tasks p') (map snd (nb_sub_handles b)) = map (Some \<circ> task_for ld) (topics cfg)"
proof (cases rule: put_link_nats_cases [where env = env and settings = settings and ld = ld and p = p])
  case (linked c hs p1)
  have p': "p' = drop_bundle (np_actors p (ld_actor_id ld))
      (p1\<lparr>np_actors := (np_actors p)(ld_actor_id ld \<mapsto> \<lparr>nb_client = c, nb_sub_handles = hs\<rparr>)\<rparr>)"
    using assms(2) linked(4) by simp
  have "np_tasks p' i = np_tasks p1 i" if "i \<in> set (map snd hs)" for i
    using wf_tasksD(1) [OF assms(1), of i "ld_actor_id ld"] that linked(5)
    by (fastforce simp: p' drop_bundle_def nats_handles_def split: option.splits)
  then have "map (np_tasks p') (map snd hs) = map (np_tasks p1) (map snd hs)" by simp
  then show thesis
    using assms(3) linked(5,6) by (intro that [of "\<lparr>nb_client = c, nb_sub_handles = hs\<rparr>"]) (simp_all add: p')
next
  case failed
  then show thesis
    using assms(2) by simp
qed

section \<open>Properties\<close>

lemma nats_link_config_facts:
  assumes "link_config env settings ld = Ok cfg" and "ld_values ld \<noteq> []"
  shows "cluster_uris cfg \<noteq> []"
    and "\<exists>cc. new_from env (ld_values ld) = Ok cc \<and> cluster_uris cfg = cluster_uris cc \<and>
       auth_jwt cfg = or_else (auth_jwt cc) (auth_jwt (default_config settings)) \<and>
       subscriptions cfg = (if subscriptions cc = [] then subscriptions (default_config settings) else subscriptions cc)"
    and "hm_get (ld_values ld) ''URI'' = None \<Longrightarrow> hm_get (ld_values ld) ''config_b64'' = None \<Longrightarrow>
       hm_get (ld_values ld) ''config_json'' = None \<Longrightarrow> cluster_uris cfg = [DEFAULT_NATS_URI]"
    and "auth_jwt (default_config settings) = None \<Longrightarrow> auth_jwt cfg \<noteq> None \<Longrightarrow> auth_seed cfg \<noteq> None"
proof -
  obtain cc where cc: "new_from env (ld_values ld) = Ok cc" "cfg = merge_config (default_config settings) cc"
    using assms by (auto simp: link_config_def rbind_Ok_iff)
  note ok = new_from_Ok [OF cc(1)]
  show "cluster_uris cfg \<noteq> []" by (rule link_config_uris [OF assms])
  show "\<exists>cc. new_from env (ld_values ld) = Ok cc \<and> cluster_uris cfg = cluster_uris cc \<and>
       auth_jwt cfg = or_else (auth_jwt cc) (auth_jwt (default_config settings)) \<and>
       subscriptions cfg = (if subscriptions cc = [] then subscriptions (default_config settings) else subscriptions cc)"
    using cc ok(1) by (auto simp: merge_config_def)
  show "hm_get (ld_values ld) ''URI'' = None \<Longrightarrow> hm_get (ld_values ld) ''config_b64'' = None \<Longrightarrow>
       hm_get (ld_values ld) ''config_json'' = None \<Longrightarrow> cluster_uris cfg = [DEFAULT_NATS_URI]"
    using cc by (auto simp: merge_config_def new_from_def base_nats_config_def default_connection_config_def
        Let_def split: if_splits)
  show "auth_jwt (default_config settings) = None \<Longrightarrow> auth_jwt cfg \<noteq> None \<Longrightarrow> auth_seed cfg \<noteq> None"
    using ok(2) by (cases "auth_jwt cc") (auto simp: cc(2) merge_config_def simp del: not_None_eq)
qed

text \<open>The configuration a link leads to: a value in the link wins over the provider's default,
  subscriptions and server addresses as whole lists; a link with values always has a server
  address and, if it has a token, a seed; and since a link that names no address gets the built-in
  one, the addresses of the provider's default configuration are never used for it.\<close>

theorem nats_link_config:
  assumes "link_config env settings ld = Ok cfg" and "ld_values ld \<noteq> []"
  shows "(cluster_uris cfg \<noteq> []) \<and>
     (\<exists>cc. new_from env (ld_values ld) = Ok cc \<and> cluster_uris cfg = cluster_uris cc \<and>
       auth_jwt cfg = or_else (auth_jwt cc) (auth_jwt (default_config settings)) \<and>
       subscriptions cfg = (if subscriptions cc = [] then subscriptions (default_config settings) else subscriptions cc)) \<and>
     (hm_get (ld_values ld) ''URI'' = None \<longrightarrow> hm_get (ld_values ld) ''config_b64'' = None \<longrightarrow>
       hm_get (ld_values ld) ''config_json'' = None \<longrightarrow> cluster_uris cfg = [DEFAULT_NATS_URI]) \<and>
     (auth_jwt (default_config settings) = None \<longrightarrow> auth_jwt cfg \<noteq> None \<longrightarrow> auth_seed cfg \<noteq> None)"
  using nats_link_config_facts [OF assms] by blast

definition sample_nats_env :: "nat nats_env" where
  "sample_nats_env = \<lparr>ne_b64_decode = \<lambda>_. Inl [], ne_from_slice = \<lambda>_. Inl [], ne_from_str = \<lambda>_. Inl [],
     ne_from_seed = \<lambda>_. Inr (), ne_read_to_string = \<lambda>_. Inl [], ne_read_pem = \<lambda>_. Inl [],
     ne_connect = \<lambda>_ _. Inr 7, ne_subscribe = \<lambda>_ _ _. Inr (), ne_publish = \<lambda>_ _. Inr (),
     ne_request = \<lambda>_ _ _. None, ne_otel_headers = ''trace''\<rparr>"

definition sample_nats_settings :: nats_settings where
  "sample_nats_settings = \<lparr>default_config = default_connection_config\<lparr>cluster_uris := [''nats.example:4222'']\<rparr>, host_id = ''H''\<rparr>"

definition sample_nats_ld :: link_definition where
  "sample_nats_ld = \<lparr>ld_actor_id = ''A'', ld_provider_id = ''P'', ld_link_name = ''default'',
     ld_contract_id = ''wasmcloud:messaging'', ld_values = [(''SUBSCRIPTION'', ''a,b|q'')]\<rparr>"

definition sample_nats_config :: connection_config where
  "sample_nats_config = default_connection_config\<lparr>subscriptions := [''a'', ''b|q'']\<rparr>"

lemma sample_nats_link_config: "link_config sample_nats_env sample_nats_settings sample_nats_ld = Ok sample_nats_config"
  by (simp add: link_config_def sample_nats_ld_def new_from_def base_nats_config_def default_connection_config_def
      merge_config_def sample_nats_settings_def sample_nats_config_def hm_get_def)

theorem nats_link_config_witness:
  "cluster_uris (default_config sample_nats_settings) = [''nats.example:4222''] \<and>
   (\<exists>cfg. link_config sample_nats_env sample_nats_settings sample_nats_ld = Ok cfg \<and> cluster_uris cfg = [''0.0.0.0:4222''])"
proof -
  have "ld_values sample_nats_ld \<noteq> []" "hm_get (ld_values sample_nats_ld) ''URI'' = None"
    "hm_get (ld_values sample_nats_ld) ''config_b64'' = None" "hm_get (ld_values sample_nats_ld) ''config_json'' = None"
    by (simp_all add: sample_nats_ld_def hm_get_def)
  with nats_link_config [OF sample_nats_link_config]
  have "cluster_uris sample_nats_config = [''0.0.0.0:4222'']" by (simp add: DEFAULT_NATS_URI_def)
  moreover have "cluster_uris (default_config sample_nats_settings) = [''nats.example:4222'']"
    by (simp add: sample_nats_settings_def)
  ultimately show ?thesis using sample_nats_link_config by blast
qed

text \<open>As long as the server accepts the subscriptions it is asked for, a message is only ever
  delivered to an actor that has a link, by a task whose handle is in that link's entry: replacing
  or deleting a link and shutting down stop every task of the old link.\<close>

theorem nats_deliveries_linked:
  assumes "nats_reachable env settings p" and "\<forall>c s q. ne_subscribe env c s q = Inr ()"
    and "deliver_nats p i m = Some (ld, sm)"
  shows "\<exists>b. np_actors p (ld_actor_id ld) = Some b \<and> i \<in> set (map snd (nb_sub_handles b))"
proof -
  obtain t where "np_tasks p i = Some t" "nt_ld t = ld"
    using assms(3) by (auto simp: deliver_nats_def dispatch_msg_def)
  moreover from this obtain a where "i \<in> nats_handles p a"
    using nats_reachable_tidy [OF assms(1,2)] by (auto simp: tidy_def)
  ultimately show ?thesis
    using nats_reachable_inv [OF assms(1)] by (fastforce simp: nats_inv_def fits_def nats_handles_def split: option.splits)
qed

lemma sample_topics: "topics sample_nats_config = [''a'', ''b|q'']"
  by (simp add: sample_nats_config_def)

lemma sample_sub_queues: "sub_queue ''a'' = (''a'', None)" "sub_queue ''b|q'' = (''b'', Some ''q'')"
  by (simp_all add: sub_queue_def)

lemma sample_client_for: "nats_client_for sample_nats_env sample_nats_settings sample_nats_config sample_nats_ld = Some 7"
  by (simp add: nats_client_for_def build_connect_options_def sample_nats_config_def default_connection_config_def
      sample_nats_env_def)

definition sample_nats_state :: "nat nats_provider" where
  "sample_nats_state = snd (put_link_nats sample_nats_env sample_nats_settings sample_nats_ld init_nats)"

lemma sample_nats_linked:
  "nats_reachable sample_nats_env sample_nats_settings sample_nats_state"
  "nats_handles sample_nats_state ''A'' = {0, 1}"
  "np_tasks sample_nats_state 1 = Some \<lparr>nt_subject = ''b'', nt_queue = Some ''q'', nt_ld = sample_nats_ld\<rparr>"
proof -
  show "nats_reachable sample_nats_env sample_nats_settings sample_nats_state"
    unfolding sample_nats_state_def by (intro nats_reachable.put nats_reachable.start)
  have "\<forall>c s q. ne_subscribe sample_nats_env c s q = Inr ()" "ld_actor_id sample_nats_ld = ''A''"
    by (simp_all add: sample_nats_env_def sample_nats_ld_def)
  then show "nats_handles sample_nats_state ''A'' = {0, 1}"
    "np_tasks sample_nats_state 1 = Some \<lparr>nt_subject = ''b'', nt_queue = Some ''q'', nt_ld = sample_nats_ld\<rparr>"
    using nats_connect_client [OF sample_client_for, of init_nats]
    by (simp_all add: sample_nats_state_def put_link_nats_def sample_nats_link_config sample_topics sample_sub_queues
        nats_subscribe_def spawn_task_def init_nats_def drop_bundle_def nats_handles_def)
qed

theorem nats_deliveries_linked_witness:
  "\<exists>b. np_actors sample_nats_state ''A'' = Some b \<and> (1 :: nat) \<in> set (map snd (nb_sub_handles b))"
proof -
  let ?m = "\<lparr>nm_subject = ''b'', nm_reply = None, nm_headers = None, nm_payload = [1]\<rparr>"
  have all: "\<forall>c s q. ne_subscribe sample_nats_env c s q = Inr ()" by (simp add: sample_nats_env_def)
  have "deliver_nats sample_nats_state 1 ?m = Some (dispatch_msg sample_nats_ld ?m)"
    by (simp add: deliver_nats_def sample_nats_linked(3) [simplified])
  from nats_deliveries_linked [OF sample_nats_linked(1) all this [unfolded dispatch_msg_def]] show ?thesis
    by (simp add: sample_nats_ld_def)
qed

text \<open>C10: once put-link has accepted a link, each subscription of its configuration that is not empty has a
  task of its own, on the subject and queue group it names, which calls the actor with every message
  it receives; and this stays so until a control message about the actor replaces the link, deletes
  it or shuts the provider down.\<close>
theorem nats_subscriptions_live:
  assumes "nats_reachable env settings p" and "put_link_nats env settings ld p = (Ok True, p1)"
    and "link_config env settings ld = Ok cfg"
    and "\<forall>e\<in>set evs. \<not> replaces (nats_accept env settings) (ld_actor_id ld) e"
    and "p' = run_links (\<lambda>ld p. snd (put_link_nats env settings ld p)) delete_link_nats shutdown_nats evs p1"
  shows "\<exists>ids. distinct ids \<and>
     map (np_tasks p') ids =
       map (\<lambda>s. Some \<lparr>nt_subject = fst (sub_queue s), nt_queue = snd (sub_queue s), nt_ld = ld\<rparr>) (topics cfg) \<and>
     (\<forall>i\<in>set ids. \<forall>m. deliver_nats p' i m =
        Some (ld, \<lparr>sm_subject = nm_subject m, sm_reply_to = nm_reply m, sm_body = nm_payload m\<rparr>))"
proof -
  have "nats_wf p" using nats_reachable_inv [OF assms(1)] by (simp add: nats_inv_def)
  from new_bundle_tasks [OF this assms(2,3)] obtain b where
    b: "np_actors p1 (ld_actor_id ld) = Some b" "distinct (map snd (nb_sub_handles b))"
      "map (np_tasks p1) (map snd (nb_sub_handles b)) = map (Some \<circ> task_for ld) (topics cfg)" .
  have "nats_wf p1" using ntt.put_wf [OF \<open>nats_wf p\<close>, of env settings ld] assms(2) by simp
  from ntt.run_kept [OF this assms(4)] have "np_tasks p' i = np_tasks p1 i" if "i \<in> set (map snd (nb_sub_handles b))" for i
    using that nats_handlesI [OF b(1)] by (simp only: assms(5))
  then have tasks: "map (np_tasks p') (map snd (nb_sub_handles b)) = map (Some \<circ> task_for ld) (topics cfg)"
    unfolding b(3) [symmetric] by simp
  have "\<exists>s. np_tasks p' i = Some (task_for ld s)" if "i \<in> set (map snd (nb_sub_handles b))" for i
  proof -
    have "np_tasks p' i \<in> set (map (np_tasks p') (map snd (nb_sub_handles b)))" using that by auto
    then show ?thesis unfolding tasks by auto
  qed
  with b(2) tasks show ?thesis
    by (intro exI [of _ "map snd (nb_sub_handles b)"])
      (fastforce simp: deliver_nats_def dispatch_msg_def task_for_def comp_def)
qed

theorem nats_subscriptions_live_witness:
  "\<exists>i. deliver_nats (run_links (\<lambda>ld p. snd (put_link_nats sample_nats_env sample_nats_settings ld p)) delete_link_nats
       shutdown_nats [PutLink sample_nats_ld, DeleteLink ''B''] init_nats) i \<lparr>nm_subject = ''b'', nm_reply = None, nm_headers = None, nm_payload = [1]\<rparr> =
     Some (sample_nats_ld, \<lparr>sm_subject = ''b'', sm_reply_to = None, sm_body = [1]\<rparr>)"
proof -
  let ?p' = "run_links (\<lambda>ld p. snd (put_link_nats sample_nats_env sample_nats_settings ld p)) delete_link_nats shutdown_nats
    [PutLink sample_nats_ld, DeleteLink ''B''] init_nats"
  let ?p1 = "snd (put_link_nats sample_nats_env sample_nats_settings sample_nats_ld init_nats)"
  have "\<forall>c s q. ne_subscribe sample_nats_env c s q = Inr ()" by (simp add: sample_nats_env_def)
  then have put: "put_link_nats sample_nats_env sample_nats_settings sample_nats_ld init_nats = (Ok True, ?p1)"
    using nats_connect_client [OF sample_client_for, of init_nats]
    by (simp add: put_link_nats_def sample_nats_link_config sample_topics sample_sub_queues nats_subscribe_def
        spawn_task_def init_nats_def)
  have evs: "\<forall>e\<in>set [DeleteLink ''B'']. \<not> replaces (nats_accept sample_nats_env sample_nats_settings) (ld_actor_id sample_nats_ld) e"
    by (simp add: sample_nats_ld_def)
  obtain ids where l: "map (np_tasks ?p') ids = map (\<lambda>s. Some \<lparr>nt_subject = fst (sub_queue s),
      nt_queue = snd (sub_queue s), nt_ld = sample_nats_ld\<rparr>) (topics sample_nats_config)"
    "\<forall>i\<in>set ids. \<forall>m. deliver_nats ?p' i m =
        Some (sample_nats_ld, \<lparr>sm_subject = nm_subject m, sm_reply_to = nm_reply m, sm_body = nm_payload m\<rparr>)"
    using nats_subscriptions_live [OF nats_reachable.start put sample_nats_link_config evs refl] by auto
  from l(1) have "ids \<noteq> []" by (auto simp: sample_topics)
  with l(2) show ?thesis by (intro exI [of _ "hd ids"]) simp
qed

text \<open>C29: a link that fails at its second subscription leaves the first one running: put-link returns
  the error and records no link, yet messages for the first subject are delivered to the actor for
  ever, whatever control messages follow: neither deleting the link nor shutting down stops that.\<close>
theorem nats_failed_link_leaks_task:
  assumes "link_config env settings ld = Ok cfg" and "nats_client_for env settings cfg ld = Some c"
    and "topics cfg = [s1, s2]"
    and "sub_queue s1 = (t1, q1)" and "ne_subscribe env c t1 q1 = Inr ()"
    and "sub_queue s2 = (t2, q2)" and "ne_subscribe env c t2 q2 = Inl e"
    and "nats_inv p"
  shows "\<exists>p'. put_link_nats env settings ld p = (Err (Nats (''subscription to '' @ t2 @ '': '' @ e)), p') \<and>
     np_actors p' = np_actors p \<and>
     (\<forall>evs m. deliver_nats (run_links (\<lambda>ld p. snd (put_link_nats env settings ld p)) delete_link_nats shutdown_nats evs p')
        (np_next p) m = Some (dispatch_msg ld m))"
proof -
  define p' where "p' = p\<lparr>np_tasks := (np_tasks p)(np_next p \<mapsto> \<lparr>nt_subject = t1, nt_queue = q1, nt_ld = ld\<rparr>),
    np_next := np_next p + 1\<rparr>"
  have put: "put_link_nats env settings ld p = (Err (Nats (''subscription to '' @ t2 @ '': '' @ e)), p')"
    using assms(1-7) nats_connect_client [OF assms(2), of p]
    by (simp add: put_link_nats_def nats_subscribe_def spawn_task_def p'_def)
  have wf: "nats_wf p" using assms(8) by (simp add: nats_inv_def)
  from ntt.put_wf [OF this, of env settings ld] put have "nats_wf p'" by simp
  moreover have "unowned nats_handles np_next p' (np_next p)"
    using wf_tasksD(1) [OF wf, of "np_next p"] by (auto simp: unowned_def p'_def nats_handles_def)
  ultimately have "np_tasks (run_links (\<lambda>ld p. snd (put_link_nats env settings ld p)) delete_link_nats shutdown_nats evs p')
      (np_next p) = np_tasks p' (np_next p)" for evs
    using ntt.run_unowned by blast
  with put show ?thesis
    by (intro exI [of _ p']) (simp add: deliver_nats_def p'_def)
qed

definition flaky_nats_env :: "nat nats_env" where
  "flaky_nats_env = sample_nats_env\<lparr>ne_subscribe := (\<lambda>c s q. if s = ''b'' then Inl ''denied'' else Inr ())\<rparr>"

theorem nats_failed_link_leaks_task_witness:
  "\<exists>p' m. put_link_nats flaky_nats_env sample_nats_settings sample_nats_ld init_nats =
       (Err (Nats ''subscription to b: denied''), p') \<and>
     deliver_nats (shutdown_nats (delete_link_nats ''A'' p')) 0 m = Some (dispatch_msg sample_nats_ld m)"
proof -
  have cfg: "link_config flaky_nats_env sample_nats_settings sample_nats_ld = Ok sample_nats_config"
    by (simp add: link_config_def sample_nats_ld_def new_from_def base_nats_config_def default_connection_config_def
      merge_config_def sample_nats_settings_def sample_nats_config_def hm_get_def)
  have cl: "nats_client_for flaky_nats_env sample_nats_settings sample_nats_config sample_nats_ld = Some 7"
    by (simp add: nats_client_for_def build_connect_options_def sample_nats_config_def default_connection_config_def
      flaky_nats_env_def sample_nats_env_def)
  have s: "ne_subscribe flaky_nats_env 7 ''a'' None = Inr ()" "ne_subscribe flaky_nats_env 7 ''b'' (Some ''q'') = Inl ''denied''"
    by (simp_all add: flaky_nats_env_def)
  from nats_failed_link_leaks_task [OF cfg cl sample_topics sample_sub_queues(1) s(1) sample_sub_queues(2) s(2) nats_inv_init]
  obtain p' where p': "put_link_nats flaky_nats_env sample_nats_settings sample_nats_ld init_nats =
       (Err (Nats (''subscription to '' @ ''b'' @ '': '' @ ''denied'')), p')"
    "\<forall>evs m. deliver_nats (run_links (\<lambda>ld p. snd (put_link_nats flaky_nats_env sample_nats_settings ld p)) delete_link_nats
       shutdown_nats evs p') (np_next (init_nats :: nat nats_provider)) m = Some (dispatch_msg sample_nats_ld m)"
    by blast
  from p'(2) [THEN spec, of "[DeleteLink ''A'', Shutdown]"] p'(1) show ?thesis by (simp add: init_nats_def)
qed

text \<open>Publishing sends exactly one message, on the caller's own connection, with the subject, body
  and reply subject it was given; the tracing headers are left out exactly for a system subject
  with a reply subject, so a system message without one still carries them.\<close>

theorem publish_nats_sends:
  assumes "nats_bundle_of p ctx = Ok b"
  shows "\<exists>out. publish_nats env p ctx msg = (map_err Nats (ne_publish env (nb_client b) out), [(nb_client b, out)]) \<and>
     nm_subject out = pm_subject msg \<and> nm_payload out = pm_body msg \<and> nm_reply out = pm_reply_to msg \<and>
     (nm_headers out = None \<longleftrightarrow> starts_with (pm_subject msg) ''$SYS'' \<and> pm_reply_to msg \<noteq> None)"
  using assms by (auto simp: publish_nats_def should_strip_headers_def Let_def split: option.splits)

theorem publish_nats_sends_witness:
  "\<exists>p out. publish_nats sample_nats_env p \<lparr>ctx_actor = Some ''A''\<rparr>
     \<lparr>pm_subject = ''$SYS.REQ'', pm_reply_to = None, pm_body = []\<rparr> = (Ok (), [(7, out)]) \<and> nm_headers out \<noteq> None"
proof -
  let ?p = "init_nats\<lparr>np_actors := [''A'' \<mapsto> \<lparr>nb_client = 7, nb_sub_handles = []\<rparr>]\<rparr> :: nat nats_provider"
  let ?b = "\<lparr>nb_client = 7, nb_sub_handles = []\<rparr> :: nat nats_bundle"
  have "nats_bundle_of ?p \<lparr>ctx_actor = Some ''A''\<rparr> = Ok ?b" by (simp add: nats_bundle_of_def)
  from publish_nats_sends [OF this, of sample_nats_env "\<lparr>pm_subject = ''$SYS.REQ'', pm_reply_to = None, pm_body = []\<rparr>"]
  obtain out where "publish_nats sample_nats_env ?p \<lparr>ctx_actor = Some ''A''\<rparr>
      \<lparr>pm_subject = ''$SYS.REQ'', pm_reply_to = None, pm_body = []\<rparr> =
      (map_err Nats (ne_publish sample_nats_env 7 out), [(7, out)])" "nm_headers out \<noteq> None"
    by auto
  then show ?thesis by (intro exI [of _ ?p] exI [of _ out]) (simp add: sample_nats_env_def)
qed

text \<open>After any sequence of control messages an actor can publish and request exactly when its last
  link that connected and subscribed has not been deleted or shut down since, and it then uses that
  link's connection.\<close>

theorem nats_calls_served:
  "rbind (nats_bundle_of (run_links (\<lambda>ld p. snd (put_link_nats env settings ld p)) delete_link_nats shutdown_nats
      evs init_nats) ctx) (\<lambda>b. Ok (nb_client b, map fst (nb_sub_handles b))) = Ok c \<longleftrightarrow>
   (\<exists>a. ctx_actor ctx = Some a \<and> in_force (nats_accept env settings) a evs c)"
  by (rule nt.client_after_run) (simp add: nats_link_of_def init_nats_def)

text \<open>Putting a link aborts the provider's task only in one case: the link has no values and the
  provider's default configuration has an empty list of server addresses.\<close>

theorem put_link_nats_panics_iff:
  "fst (put_link_nats env settings ld p) = Panic \<longleftrightarrow>
     ld_values ld = [] \<and> cluster_uris (default_config settings) = [] \<and>
     is_ok (build_connect_options env (default_config settings))"
proof (cases "link_config env settings ld")
  case (Ok cfg)
  show ?thesis
  proof (cases "nats_client_for env settings cfg ld")
    case None
    have "fst (nats_connect env settings cfg ld p) = Panic \<longleftrightarrow>
        cluster_uris cfg = [] \<and> is_ok (build_connect_options env cfg)"
      using None build_connect_options_not_Panic [of env cfg]
      by (auto simp: nats_client_for_def nats_connect_def Let_def split: rres.splits list.splits sum.splits)
    with Ok nats_connect_no_client [OF None, of p] link_config_uris [OF Ok] show ?thesis
      by (cases "nats_connect env settings cfg ld p"; cases "fst (nats_connect env settings cfg ld p)")
        (auto simp: put_link_nats_def link_config_def split: if_splits)
  next
    case (Some c)
    have "cluster_uris cfg \<noteq> []" using Some by (auto simp: nats_client_for_def split: rres.splits)
    moreover have "fst (put_link_nats env settings ld p) \<noteq> Panic"
      using subscribe_all_not_Panic [of env c ld "topics cfg" "[]" p] Ok nats_connect_client [OF Some, of p]
      by (cases "subscribe_all env c ld (topics cfg) [] p"; cases "fst (subscribe_all env c ld (topics cfg) [] p)")
        (auto simp: put_link_nats_def)
    ultimately show ?thesis using Ok by (auto simp: link_config_def)
  qed
next
  case (Err e)
  then show ?thesis by (auto simp: put_link_nats_def link_config_def)
qed simp

end
