(* ===== verification/Nats_Dispatch.thy ===== *)
theory Nats_Dispatch
  imports Nats
begin

text \<open>
  The work of the subscription tasks of the NATS provider: a task takes the messages of its
  subscription one after the other, waits for one of the permits of its semaphore and starts a call
  of the actor, which gives the permit back when it ends. Control messages, arriving messages and
  the tasks interleave freely; aborting a task drops what it has not started, and a call once
  started runs to its end.
\<close>

section \<open>One task\<close>

definition MAX_CALLS :: nat where
  "MAX_CALLS = 75"

text \<open>
  Of the message stream of a task: what the client has buffered, the message that waits for a permit,
  and the calls that run, each with its permit. \<open>wk_received\<close>, \<open>wk_started\<close> and \<open>wk_finished\<close> record
  what has happened so far.
\<close>

record nats_work =
  wk_received :: "nats_message list"
  wk_pending :: "nats_message list"
  wk_waiting :: "nats_message option"
  wk_started :: "nats_message list"
  wk_running :: "nats_message list"
  wk_finished :: "nats_message list"

definition no_work :: nats_work where
  "no_work = \<lparr>wk_received = [], wk_pending = [], wk_waiting = None, wk_started = [], wk_running = [], wk_finished = []\<rparr>"

definition receive_msg :: "nats_message \<Rightarrow> nats_work \<Rightarrow> nats_work" where
  "receive_msg m w = w\<lparr>wk_received := wk_received w @ [m], wk_pending := wk_pending w @ [m]\<rparr>"

text \<open>The head of the loop: \<open>subscriber.next()\<close>.\<close>

definition next_msg :: "nats_work \<Rightarrow> nats_work option" where
  "next_msg w =
     (case (wk_waiting w, wk_pending w) of
        (None, m # ms) \<Rightarrow> Some (w\<lparr>wk_pending := ms, wk_waiting := Some m\<rparr>)
      | _ \<Rightarrow> None)"

text \<open>The rest of the body: acquire a permit, when there is one, and spawn the call with it.\<close>

definition spawn_call :: "nats_work \<Rightarrow> nats_work option" where
  "spawn_call w =
     (case wk_waiting w of
        Some m \<Rightarrow>
          (if length (wk_running w) < MAX_CALLS
           then Some (w\<lparr>wk_waiting := None, wk_started := wk_started w @ [m], wk_running := wk_running w @ [m]\<rparr>)
           else None)
      | None \<Rightarrow> None)"

text \<open>The end of a call, whatever the actor answers: an error is only logged.\<close>

definition finish_call :: "nat \<Rightarrow> nats_work \<Rightarrow> nats_work option" where
  "finish_call k w =
     (if k < length (wk_running w)
      then Some (w\<lparr>wk_running := take k (wk_running w) @ drop (Suc k) (wk_running w),
                   wk_finished := wk_finished w @ [wk_running w ! k]\<rparr>)
      else None)"

text \<open>An aborted task ends where it waits; the calls it has started are tasks of their own.\<close>

definition abort_work :: "nats_work \<Rightarrow> nats_work" where
  "abort_work w = w\<lparr>wk_pending := [], wk_waiting := None\<rparr>"

section \<open>The system\<close>

record 'c nats_system =
  sy_provider :: "'c nats_provider"
  sy_work :: "nat \<Rightarrow> nats_work"

definition init_system :: "'c nats_system" where
  "init_system = \<lparr>sy_provider = init_nats, sy_work = (\<lambda>_. no_work)\<rparr>"

definition task_runs :: "'c nats_system \<Rightarrow> nat \<Rightarrow> bool" where
  "task_runs s i \<longleftrightarrow> np_tasks (sy_provider s) i \<noteq> None"

definition control :: "'c nats_env \<Rightarrow> nats_settings \<Rightarrow> link_event \<Rightarrow> 'c nats_system \<Rightarrow> 'c nats_system" where
  "control env settings e s =
     (let p = link_step (\<lambda>ld p. snd (put_link_nats env settings ld p)) delete_link_nats shutdown_nats e (sy_provider s)
      in \<lparr>sy_provider = p, sy_work = (\<lambda>i. if np_tasks p i = None then abort_work (sy_work s i) else sy_work s i)\<rparr>)"

definition set_work :: "nat \<Rightarrow> nats_work \<Rightarrow> 'c nats_system \<Rightarrow> 'c nats_system" where
  "set_work i w s = s\<lparr>sy_work := (sy_work s)(i := w)\<rparr>"

text \<open>Steps of the task and of its calls; a call ends whether or not the task still runs.\<close>

inductive work_step :: "nat \<Rightarrow> 'c nats_system \<Rightarrow> 'c nats_system \<Rightarrow> bool" for i s where
  next_msg: "task_runs s i \<Longrightarrow> next_msg (sy_work s i) = Some w \<Longrightarrow> work_step i s (set_work i w s)"
| spawn_call: "task_runs s i \<Longrightarrow> spawn_call (sy_work s i) = Some w \<Longrightarrow> work_step i s (set_work i w s)"
| finish_call: "finish_call k (sy_work s i) = Some w \<Longrightarrow> work_step i s (set_work i w s)"

inductive system_step :: "'c nats_env \<Rightarrow> nats_settings \<Rightarrow> 'c nats_system \<Rightarrow> 'c nats_system \<Rightarrow> bool"
  for env settings s where
  control: "system_step env settings s (control env settings e s)"
| receive: "task_runs s i \<Longrightarrow> system_step env settings s (set_work i (receive_msg m (sy_work s i)) s)"
| work: "work_step i s s' \<Longrightarrow> system_step env settings s s'"

inductive system_reachable :: "'c nats_env \<Rightarrow> nats_settings \<Rightarrow> 'c nats_system \<Rightarrow> bool" for env settings where
  start: "system_reachable env settings init_system"
| step: "system_reachable env settings s \<Longrightarrow> system_step env settings s s' \<Longrightarrow> system_reachable env settings s'"

inductive_cases work_stepE: "work_step i s s'"
inductive_cases system_stepE: "system_step env settings s s'"

lemmas work_defs = next_msg_def spawn_call_def finish_call_def receive_msg_def abort_work_def no_work_def

section \<open>Invariants\<close>

primrec opt_list :: "'a option \<Rightarrow> 'a list" where
  "opt_list None = []"
| "opt_list (Some x) = [x]"

definition in_order :: "nats_work \<Rightarrow> bool" where
  "in_order w \<longleftrightarrow> wk_received w = wk_started w @ opt_list (wk_waiting w) @ wk_pending w"

definition calls_ok :: "nats_work \<Rightarrow> bool" where
  "calls_ok w \<longleftrightarrow> mset (wk_started w) = mset (wk_running w) + mset (wk_finished w) \<and> length (wk_running w) \<le> MAX_CALLS"

lemma in_order_no_work [simp]: "in_order no_work"
  by (simp add: in_order_def no_work_def)

lemma in_order_steps:
  "in_order w \<Longrightarrow> in_order (receive_msg m w)"
  "in_order w \<Longrightarrow> next_msg w = Some w' \<Longrightarrow> in_order w'"
  "in_order w \<Longrightarrow> spawn_call w = Some w' \<Longrightarrow> in_order w'"
  "in_order w \<Longrightarrow> finish_call k w = Some w' \<Longrightarrow> in_order w'"
  by (auto simp: in_order_def work_defs split: option.splits list.splits if_splits)

lemma calls_ok_no_work [simp]: "calls_ok no_work"
  by (simp add: calls_ok_def no_work_def)

lemma calls_ok_steps:
  "calls_ok w \<Longrightarrow> calls_ok (receive_msg m w)"
  "calls_ok w \<Longrightarrow> calls_ok (abort_work w)"
  "calls_ok w \<Longrightarrow> next_msg w = Some w' \<Longrightarrow> calls_ok w'"
  "calls_ok w \<Longrightarrow> spawn_call w = Some w' \<Longrightarrow> calls_ok w'"
  by (auto simp: calls_ok_def work_defs split: option.splits list.splits if_splits)

lemma calls_ok_finish: "calls_ok w \<Longrightarrow> finish_call k w = Some w' \<Longrightarrow> calls_ok w'"
  using mset_remove_nth [of k "wk_running w"]
  by (auto simp: calls_ok_def finish_call_def split: if_splits)

definition system_inv :: "'c nats_system \<Rightarrow> bool" where
  "system_inv s \<longleftrightarrow> nats_wf (sy_provider s) \<and> (\<forall>i. calls_ok (sy_work s i)) \<and>
     (\<forall>i. task_runs s i \<longrightarrow> in_order (sy_work s i)) \<and> (\<forall>i\<ge>np_next (sy_provider s). sy_work s i = no_work)"

text \<open>A control message starts tasks with new handles only; an old task stays as it is or ends.\<close>

lemma control_tasks:
  fixes env :: "'c nats_env" and settings :: nats_settings and e :: link_event
  assumes wf: "nats_wf p"
  defines "p' \<equiv> link_step (\<lambda>ld p. snd (put_link_nats env settings ld p)) delete_link_nats shutdown_nats e p"
  shows "nats_wf p'" "np_next p \<le> np_next p'"
    and "i < np_next p \<Longrightarrow> np_tasks p' i = None \<or> np_tasks p' i = np_tasks p i"
proof -
  show "nats_wf p'" using ntt.run_wf [OF wf, of env settings "[e]"] by (simp add: p'_def)
  show "np_next p \<le> np_next p'"
    using changesD(1) [OF nats_put_changes [OF wf]] by (cases e) (simp_all add: p'_def ntt.shut_nxt)
  show "np_tasks p' i = None \<or> np_tasks p' i = np_tasks p i" if "i < np_next p"
  proof (cases e)
    case (PutLink ld)
    show ?thesis
    proof (cases rule: put_link_nats_tasks [where env = env and settings = settings and ld = ld and p = p])
      case linked
      with that show ?thesis unfolding p'_def PutLink link_step.simps by (metis (full_types))
    next
      case failed
      with that show ?thesis by (simp add: p'_def PutLink fresh_tasks_def)
    qed
  qed (simp_all add: p'_def ntt.shut_running)
qed

lemma set_work_sel [simp]:
  "sy_provider (set_work i w s) = sy_provider s"
  "sy_work (set_work i w s) j = (if j = i then w else sy_work s j)"
  "task_runs (set_work i w s) j = task_runs s j"
  by (simp_all add: set_work_def task_runs_def)

lemma work_step_provider: "work_step i s s' \<Longrightarrow> sy_provider s' = sy_provider s"
  by (auto elim: work_stepE)

lemma system_inv_control:
  assumes "system_inv s"
  shows "system_inv (control env settings e s)"
proof -
  let ?p = "sy_provider s"
  let ?p' = "link_step (\<lambda>ld p. snd (put_link_nats env settings ld p)) delete_link_nats shutdown_nats e ?p"
  have wf: "nats_wf ?p" using assms by (simp add: system_inv_def)
  note C = control_tasks [OF wf, where env = env and settings = settings and e = e]
  have "in_order (sy_work s i)" if "np_tasks ?p' i \<noteq> None" for i
    using that assms C(3) [of i] by (cases "i < np_next ?p") (auto simp: system_inv_def task_runs_def)
  moreover have "sy_work s i = no_work" if "np_next ?p' \<le> i" for i
    using that assms C(2) by (auto simp: system_inv_def)
  ultimately show ?thesis
    using assms C(1) by (auto simp: system_inv_def control_def task_runs_def Let_def intro: calls_ok_steps)
      (simp add: abort_work_def no_work_def)
qed

lemma system_invD:
  assumes "system_inv s"
  shows "calls_ok (sy_work s i)" "task_runs s i \<Longrightarrow> in_order (sy_work s i)"
    and "np_next (sy_provider s) \<le> i \<Longrightarrow> sy_work s i = no_work" "task_runs s i \<Longrightarrow> i < np_next (sy_provider s)"
proof -
  show "calls_ok (sy_work s i)" "task_runs s i \<Longrightarrow> in_order (sy_work s i)"
    "np_next (sy_provider s) \<le> i \<Longrightarrow> sy_work s i = no_work"
    using assms by (simp_all add: system_inv_def)
  have "nats_wf (sy_provider s)" using assms by (simp add: system_inv_def)
  from wf_tasksD(2) [OF this, of i] show "task_runs s i \<Longrightarrow> i < np_next (sy_provider s)"
    by (auto simp: task_runs_def)
qed

lemma system_inv_set_work:
  assumes "system_inv s" "calls_ok w" "task_runs s i \<Longrightarrow> in_order w" "i < np_next (sy_provider s)"
  shows "system_inv (set_work i w s)"
  using assms by (simp add: system_inv_def)

lemma system_inv_work:
  assumes inv: "system_inv s" and step: "work_step i s s'"
  shows "system_inv s'"
  using step
proof (cases rule: work_step.cases)
  case (next_msg w)
  with system_invD [OF inv, of i] show ?thesis by (auto intro!: system_inv_set_work [OF inv] intro: in_order_steps calls_ok_steps)
next
  case (spawn_call w)
  with system_invD [OF inv, of i] show ?thesis by (auto intro!: system_inv_set_work [OF inv] intro: in_order_steps calls_ok_steps)
next
  case (finish_call k w)
  then have "sy_work s i \<noteq> no_work" by (auto simp: work_defs)
  then have "i < np_next (sy_provider s)" using system_invD(3) [OF inv, of i] by (meson not_less)
  with finish_call system_invD [OF inv, of i] show ?thesis by (auto intro!: system_inv_set_work [OF inv] intro: in_order_steps calls_ok_finish)
qed

lemma system_inv_step:
  assumes inv: "system_inv s" and step: "system_step env settings s s'"
  shows "system_inv s'"
  using step
proof (cases rule: system_step.cases)
  case (control e)
  with inv show ?thesis by (simp add: system_inv_control)
next
  case (receive i m)
  with system_invD [OF inv, of i] show ?thesis by (auto intro!: system_inv_set_work [OF inv] intro: in_order_steps calls_ok_steps)
next
  case (work i)
  with inv show ?thesis by (simp add: system_inv_work)
qed

lemma system_reachable_inv: "system_reachable env settings s \<Longrightarrow> system_inv s"
proof (induction rule: system_reachable.induct)
  case start
  then show ?case
    using nats_inv_init by (auto simp: system_inv_def init_system_def task_runs_def nats_inv_def)
next
  case (step s s')
  then show ?case by (blast intro: system_inv_step)
qed

section \<open>Draining\<close>

text \<open>How many steps the work of a task is from being done: three for a buffered message, two for the one
  that waits, one for a call that runs.\<close>

definition work_left :: "nats_work \<Rightarrow> nat" where
  "work_left w = 3 * length (wk_pending w) + 2 * length (opt_list (wk_waiting w)) + length (wk_running w)"

lemma work_left_step:
  assumes "work_step i s s'"
  shows "work_left (sy_work s i) = Suc (work_left (sy_work s' i))"
  using assms
  by (auto elim!: work_stepE simp: work_defs work_left_def split: option.splits list.splits if_splits)

lemma work_step_received: "work_step i s s' \<Longrightarrow> wk_received (sy_work s' i) = wk_received (sy_work s i)"
  by (auto elim!: work_stepE simp: work_defs split: option.splits list.splits if_splits)

lemma work_step_possible:
  assumes "task_runs s i" "work_left (sy_work s i) \<noteq> 0"
  shows "\<exists>s'. work_step i s s'"
proof (cases "wk_running (sy_work s i) = []")
  case False
  then have "finish_call 0 (sy_work s i) \<noteq> None" by (simp add: finish_call_def)
  then show ?thesis by (blast intro: work_step.finish_call)
next
  case none: True
  show ?thesis
  proof (cases "wk_waiting (sy_work s i)")
    case None
    with none assms(2) have "next_msg (sy_work s i) \<noteq> None"
      by (cases "wk_pending (sy_work s i)") (simp_all add: work_left_def next_msg_def)
    with assms(1) show ?thesis by (blast intro: work_step.next_msg)
  next
    case (Some m)
    with none have "spawn_call (sy_work s i) \<noteq> None" by (simp add: spawn_call_def MAX_CALLS_def)
    with assms(1) show ?thesis by (blast intro: work_step.spawn_call)
  qed
qed

lemma work_steps:
  assumes "(work_step i ^^ n) s s'"
  shows "work_left (sy_work s i) = n + work_left (sy_work s' i)" "wk_received (sy_work s' i) = wk_received (sy_work s i)"
    and "sy_provider s' = sy_provider s" "system_inv s \<Longrightarrow> system_inv s'"
proof -
  have "work_left (sy_work s i) = n + work_left (sy_work s' i) \<and> wk_received (sy_work s' i) = wk_received (sy_work s i) \<and>
      sy_provider s' = sy_provider s \<and> (system_inv s \<longrightarrow> system_inv s')"
    using assms
  proof (induction n arbitrary: s')
    case (Suc n)
    then obtain u where "(work_step i ^^ n) s u" "work_step i u s'" by auto
    with Suc.IH [of u] work_left_step [of i u s'] work_step_received [of i u s'] work_step_provider [of i u s']
      system_inv_work [of u i s']
    show ?case by auto
  qed simp
  then show "work_left (sy_work s i) = n + work_left (sy_work s' i)" "wk_received (sy_work s' i) = wk_received (sy_work s i)"
    "sy_provider s' = sy_provider s" "system_inv s \<Longrightarrow> system_inv s'" by blast+
qed

lemma work_done:
  assumes "system_inv s" "task_runs s i" "work_left (sy_work s i) = 0"
  shows "wk_started (sy_work s i) = wk_received (sy_work s i)" "mset (wk_finished (sy_work s i)) = mset (wk_received (sy_work s i))"
  using system_invD(1,2) [OF assms(1), of i] assms(2,3)
  by (cases "wk_waiting (sy_work s i)"; simp add: work_left_def in_order_def calls_ok_def)+

section \<open>Ended tasks\<close>

text \<open>A task that has ended stays ended and starts no call; its calls that run can only end.\<close>

lemma ended_step:
  assumes inv: "system_inv s" and i: "i < np_next (sy_provider s)" "\<not> task_runs s i" and step: "system_step env settings s s'"
  shows "\<not> task_runs s' i" "i < np_next (sy_provider s')" "wk_started (sy_work s' i) = wk_started (sy_work s i)"
    and "length (wk_running (sy_work s' i)) \<le> length (wk_running (sy_work s i))"
proof -
  have "\<not> task_runs s' i \<and> i < np_next (sy_provider s') \<and> wk_started (sy_work s' i) = wk_started (sy_work s i) \<and>
    length (wk_running (sy_work s' i)) \<le> length (wk_running (sy_work s i))"
    using step
  proof (cases rule: system_step.cases)
    case (control e)
    have wf: "nats_wf (sy_provider s)" using inv by (simp add: system_inv_def)
    note C = control_tasks(2,3) [OF wf, where env = env and settings = settings and e = e]
    from C(2) [OF i(1)] i(2) have "\<not> task_runs s' i" unfolding control control_def task_runs_def Let_def by auto
    with C(1) i(1) show ?thesis unfolding control by (simp add: control_def task_runs_def abort_work_def Let_def)
  next
    case (receive j m)
    with i show ?thesis by auto
  next
    case (work j)
    then show ?thesis
      using i by (cases rule: work_step.cases) (auto simp: finish_call_def split: if_splits)
  qed
  then show "\<not> task_runs s' i" "i < np_next (sy_provider s')" "wk_started (sy_work s' i) = wk_started (sy_work s i)"
    "length (wk_running (sy_work s' i)) \<le> length (wk_running (sy_work s i))" by blast+
qed

lemma ended_steps:
  assumes "(system_step env settings)\<^sup>*\<^sup>* s s'" "system_inv s" "i < np_next (sy_provider s)" "\<not> task_runs s i"
  shows "system_inv s' \<and> i < np_next (sy_provider s') \<and> \<not> task_runs s' i \<and> wk_started (sy_work s' i) = wk_started (sy_work s i) \<and>
     length (wk_running (sy_work s' i)) \<le> length (wk_running (sy_work s i))"
  using assms
proof (induction rule: rtranclp_induct)
  case (step u s')
  then have u: "system_inv u" "i < np_next (sy_provider u)" "\<not> task_runs u i" by blast+
  from ended_step [OF this step.hyps(2)] system_inv_step [OF u(1) step.hyps(2)] step.IH step.prems show ?case by auto
qed simp

section \<open>A sample run\<close>

declare One_nat_def [simp del]

text \<open>A link with two subscriptions; a message has arrived for the second.\<close>

definition sample_nats_msg :: nats_message where
  "sample_nats_msg = \<lparr>nm_subject = ''b'', nm_reply = None, nm_headers = None, nm_payload = [1, 2]\<rparr>"

definition sample_system :: "nat nats_system" where
  "sample_system = control sample_nats_env sample_nats_settings (PutLink sample_nats_ld) init_system"

definition sample_dispatch :: "nat nats_system" where
  "sample_dispatch = set_work 1 (receive_msg sample_nats_msg (sy_work sample_system 1)) sample_system"

text \<open>The steps of the task: take the message, start the call, and its end.\<close>

definition sample_waiting :: "nat nats_system" where
  "sample_waiting = set_work 1 (the (next_msg (sy_work sample_dispatch 1))) sample_dispatch"

definition sample_running :: "nat nats_system" where
  "sample_running = set_work 1 (the (spawn_call (sy_work sample_waiting 1))) sample_waiting"

definition sample_finished :: "nat nats_system" where
  "sample_finished = set_work 1 (the (finish_call 0 (sy_work sample_running 1))) sample_running"

lemma sample_system_provider: "sy_provider sample_system = sample_nats_state"
  by (simp add: sample_system_def sample_nats_state_def control_def init_system_def Let_def)

lemma sample_runs: "task_runs sample_system 1"
  using sample_nats_linked(3) by (simp add: task_runs_def sample_system_provider)

lemma sample_work:
  "sy_work sample_system 1 = no_work"
  "sy_work sample_dispatch 1 = no_work\<lparr>wk_received := [sample_nats_msg], wk_pending := [sample_nats_msg]\<rparr>"
  "sy_work sample_waiting 1 = no_work\<lparr>wk_received := [sample_nats_msg], wk_waiting := Some sample_nats_msg\<rparr>"
  "sy_work sample_running 1 =
     no_work\<lparr>wk_received := [sample_nats_msg], wk_started := [sample_nats_msg], wk_running := [sample_nats_msg]\<rparr>"
  "sy_work sample_finished 1 =
     no_work\<lparr>wk_received := [sample_nats_msg], wk_started := [sample_nats_msg], wk_finished := [sample_nats_msg]\<rparr>"
proof -
  show S: "sy_work sample_system 1 = no_work"
    by (simp add: sample_system_def control_def init_system_def abort_work_def no_work_def Let_def)
  show D: "sy_work sample_dispatch 1 = no_work\<lparr>wk_received := [sample_nats_msg], wk_pending := [sample_nats_msg]\<rparr>"
    by (simp add: sample_dispatch_def S receive_msg_def no_work_def)
  show W: "sy_work sample_waiting 1 = no_work\<lparr>wk_received := [sample_nats_msg], wk_waiting := Some sample_nats_msg\<rparr>"
    by (simp add: sample_waiting_def D next_msg_def no_work_def)
  show R: "sy_work sample_running 1 =
     no_work\<lparr>wk_received := [sample_nats_msg], wk_started := [sample_nats_msg], wk_running := [sample_nats_msg]\<rparr>"
    by (simp add: sample_running_def W spawn_call_def no_work_def MAX_CALLS_def)
  show "sy_work sample_finished 1 =
     no_work\<lparr>wk_received := [sample_nats_msg], wk_started := [sample_nats_msg], wk_finished := [sample_nats_msg]\<rparr>"
    by (simp add: sample_finished_def R finish_call_def no_work_def)
qed

lemma sample_runs_on:
  "task_runs sample_dispatch 1" "task_runs sample_waiting 1" "task_runs sample_running 1"
  using sample_runs by (simp_all add: sample_dispatch_def sample_waiting_def sample_running_def)

lemma sample_steps:
  "work_step 1 sample_dispatch sample_waiting" "work_step 1 sample_waiting sample_running"
  "work_step 1 sample_running sample_finished"
proof -
  show "work_step 1 sample_dispatch sample_waiting" unfolding sample_waiting_def
    by (rule work_step.next_msg) (simp_all add: sample_runs_on sample_work next_msg_def no_work_def)
  show "work_step 1 sample_waiting sample_running" unfolding sample_running_def
    by (rule work_step.spawn_call) (simp_all add: sample_runs_on sample_work spawn_call_def no_work_def MAX_CALLS_def)
  show "work_step 1 sample_running sample_finished" unfolding sample_finished_def
    by (rule work_step.finish_call [where k = 0]) (simp add: sample_work finish_call_def no_work_def)
qed

lemma sample_reachable:
  "system_reachable sample_nats_env sample_nats_settings sample_dispatch"
  "system_reachable sample_nats_env sample_nats_settings sample_running"
proof -
  have "system_reachable sample_nats_env sample_nats_settings sample_system"
    unfolding sample_system_def by (intro system_reachable.step [OF system_reachable.start] system_step.control)
  then show d: "system_reachable sample_nats_env sample_nats_settings sample_dispatch"
    unfolding sample_dispatch_def by (rule system_reachable.step) (rule system_step.receive [OF sample_runs])
  show "system_reachable sample_nats_env sample_nats_settings sample_running"
    by (rule system_reachable.step [OF system_reachable.step [OF d]]; rule system_step.work, rule sample_steps)
qed

section \<open>Properties\<close>

text \<open>C11: however control messages, arriving messages and tasks interleave, a subscription never has more
  than 75 calls of its actor running, every call that was started either runs or has ended, once, and
  as long as the task runs it has started calls for its messages in the order in which they arrived,
  leaving none out.\<close>
theorem nats_dispatch_in_order:
  assumes "system_reachable env settings s"
  shows "length (wk_running (sy_work s i)) \<le> 75 \<and>
     mset (wk_started (sy_work s i)) = mset (wk_running (sy_work s i)) + mset (wk_finished (sy_work s i)) \<and>
     (np_tasks (sy_provider s) i \<noteq> None \<longrightarrow>
        wk_received (sy_work s i) =
          wk_started (sy_work s i) @ (case wk_waiting (sy_work s i) of None \<Rightarrow> [] | Some m \<Rightarrow> [m]) @ wk_pending (sy_work s i))"
  using system_invD(1,2) [OF system_reachable_inv [OF assms], of i]
  by (auto simp: calls_ok_def in_order_def task_runs_def MAX_CALLS_def split: option.splits)

theorem nats_dispatch_in_order_witness:
  "wk_running (sy_work sample_running 1) = [sample_nats_msg] \<and> length (wk_running (sy_work sample_running 1)) \<le> 75"
  using nats_dispatch_in_order [OF sample_reachable(2), where i = 1] by (simp add: sample_work)

text \<open>C0: every message that has arrived for a running task is delivered, whatever order its calls end in:
  from any reachable state the steps of the task and its calls come to an end, after exactly
  \<open>work_left\<close> of them, and only then can no step be taken; a call has then been made and has ended
  for each message received.\<close>
theorem nats_dispatch_drains:
  assumes "system_reachable env settings s" and "np_tasks (sy_provider s) i \<noteq> None"
    and "(work_step i ^^ n) s s'"
  shows "n \<le> work_left (sy_work s i) \<and> ((\<nexists>u. work_step i s' u) \<longleftrightarrow> n = work_left (sy_work s i)) \<and>
     (n = work_left (sy_work s i) \<longrightarrow>
        wk_started (sy_work s' i) = wk_received (sy_work s i) \<and>
        mset (wk_finished (sy_work s' i)) = mset (wk_received (sy_work s i)))"
proof -
  note W = work_steps [OF assms(3)]
  have inv: "system_inv s'" using W(4) system_reachable_inv [OF assms(1)] by simp
  have runs: "task_runs s' i" using assms(2) W(3) by (simp add: task_runs_def)
  have "(\<nexists>u. work_step i s' u) \<longleftrightarrow> work_left (sy_work s' i) = 0"
    using work_step_possible [OF runs] work_left_step [of i s'] by fastforce
  with W(1,2) work_done [OF inv runs] show ?thesis by auto
qed

theorem nats_dispatch_drains_witness:
  "work_left (sy_work sample_dispatch 1) = 3 \<and> (work_step 1 ^^ 3) sample_dispatch sample_finished \<and>
   (\<nexists>u. work_step 1 sample_finished u) \<and> wk_started (sy_work sample_finished 1) = [sample_nats_msg]"
proof -
  have left: "work_left (sy_work sample_dispatch 1) = 3" by (simp add: sample_work work_left_def no_work_def)
  have steps: "(work_step 1 ^^ 3) sample_dispatch sample_finished"
    using sample_steps by (auto simp: numeral_3_eq_3)
  have "np_tasks (sy_provider sample_dispatch) 1 \<noteq> None" using sample_runs_on(1) by (simp add: task_runs_def)
  from nats_dispatch_drains [OF sample_reachable(1) this steps] left steps show ?thesis by (simp add: sample_work)
qed



declare One_nat_def [simp]

end
