(* ===== verification/Kafka.thy ===== *)
theory Kafka
  imports Task_Table Messaging_Interface
begin

text \<open>
  \<open>messaging-kafka/src/main.rs\<close>: the messaging provider over Kafka. A link has a task that reads
  records off one topic and hands them to the actor. As with NATS, a task goes on when its handle is
  dropped and stops when it is aborted or its loop ends, so the running tasks are part of the state.

  The Kafka client and the clock are the fields of \<open>kafka_env\<close>: \<open>'c\<close> is a client, \<open>'p\<close> a client
  of one partition, \<open>'t\<close> a time stamp and \<open>'s\<close> the state of the brokers.
\<close>

section \<open>Data\<close>

definition KAFKA_HOSTS :: string where "KAFKA_HOSTS = ''HOSTS''"
definition DEFAULT_HOST :: string where "DEFAULT_HOST = ''127.0.0.1:9092''"
definition KAFKA_TOPIC :: string where "KAFKA_TOPIC = ''TOPIC''"
definition DEFAULT_TOPIC :: string where "DEFAULT_TOPIC = ''my-topic''"

record 't kafka_record =
  kr_key :: "bytes option"
  kr_value :: "bytes option"
  kr_headers :: "(string \<times> string) list"
  kr_timestamp :: 't

record ('c, 'p, 't, 's) kafka_env =
  ke_build :: "string list \<Rightarrow> 's \<Rightarrow> string + 'c"
  ke_partition_client :: "'c \<Rightarrow> string \<Rightarrow> nat \<Rightarrow> 's \<Rightarrow> string + 'p"
  ke_controller_client :: "'c \<Rightarrow> string + unit"
  ke_create_topic :: "'c \<Rightarrow> string \<Rightarrow> int \<Rightarrow> int \<Rightarrow> int \<Rightarrow> 's \<Rightarrow> (string + unit) \<times> 's"
  ke_produce :: "'p \<Rightarrow> 't kafka_record list \<Rightarrow> 's \<Rightarrow> (string + unit) \<times> 's"
  ke_since_epoch :: "(u64 \<times> u32) option"
  ke_from_timestamp :: "int \<Rightarrow> u32 \<Rightarrow> 't option"

record 'p kafka_task =
  kt_ld :: link_definition
  kt_topic :: string
  kt_partition :: 'p

record kafka_connection =
  connection_hosts :: "string list"
  consumer_handle :: nat

record 'p kafka_provider =
  kp_connections :: "string \<rightharpoonup> kafka_connection"
  kp_tasks :: "nat \<rightharpoonup> 'p kafka_task"
  kp_next :: nat

definition init_kafka :: "'p kafka_provider" where
  "init_kafka = \<lparr>kp_connections = Map.empty, kp_tasks = Map.empty, kp_next = 0\<rparr>"

section \<open>Links\<close>

definition kafka_hosts :: "link_definition \<Rightarrow> string list" where
  "kafka_hosts ld = split_on (CHR '','') (trim (unwrap_or (hm_get (ld_values ld) KAFKA_HOSTS) DEFAULT_HOST))"

definition kafka_topic :: "link_definition \<Rightarrow> string" where
  "kafka_topic ld = trim (unwrap_or (hm_get (ld_values ld) KAFKA_TOPIC) DEFAULT_TOPIC)"

definition put_link_kafka ::
  "('c, 'p, 't, 's) kafka_env \<Rightarrow> 's \<Rightarrow> link_definition \<Rightarrow> 'p kafka_provider \<Rightarrow> bool rpc_result \<times> 'p kafka_provider" where
  "put_link_kafka env s ld p =
     (let hosts = kafka_hosts ld; topic = kafka_topic ld in
      case ke_build env hosts s of
        Inl _ \<Rightarrow> (Ok True, p)
      | Inr client \<Rightarrow>
          (case ke_partition_client env client topic 0 s of
             Inl _ \<Rightarrow> (Ok True, p)
           | Inr pc \<Rightarrow>
               (let join = kp_next p in
                (Ok True, p\<lparr>kp_tasks := (kp_tasks p)(join \<mapsto> \<lparr>kt_ld = ld, kt_topic = topic, kt_partition = pc\<rparr>),
                            kp_next := join + 1,
                            kp_connections := (kp_connections p)(ld_actor_id ld \<mapsto>
                              \<lparr>connection_hosts = hosts, consumer_handle = join\<rparr>)\<rparr>))))"

definition abort_tasks :: "nat set \<Rightarrow> 'p kafka_provider \<Rightarrow> 'p kafka_provider" where
  "abort_tasks is p = p\<lparr>kp_tasks := (\<lambda>i. if i \<in> is then None else kp_tasks p i)\<rparr>"

definition delete_link_kafka :: "string \<Rightarrow> 'p kafka_provider \<Rightarrow> 'p kafka_provider" where
  "delete_link_kafka actor p =
     (case kp_connections p actor of
        Some c \<Rightarrow> abort_tasks {consumer_handle c} (p\<lparr>kp_connections := (kp_connections p)(actor := None)\<rparr>)
      | None \<Rightarrow> p)"

definition shutdown_kafka :: "'p kafka_provider \<Rightarrow> 'p kafka_provider" where
  "shutdown_kafka p = abort_tasks (consumer_handle ` ran (kp_connections p)) (p\<lparr>kp_connections := Map.empty\<rparr>)"

section \<open>Consuming\<close>

text \<open>What the stream of a topic yields next: a record with its value, an error, or its end.\<close>

datatype stream_item = RecordItem "bytes option" | StreamError string | StreamEnd

text \<open>
  One turn of the loop of a task: the message for the actor, or nothing when the loop ends. A failed
  call of the actor is only logged.
\<close>

definition consume_item :: "'p kafka_task \<Rightarrow> stream_item \<Rightarrow> (link_definition \<times> sub_message) option" where
  "consume_item t item =
     (case item of
        RecordItem (Some message) \<Rightarrow>
          Some (kt_ld t, \<lparr>sm_subject = kt_topic t, sm_reply_to = None, sm_body = message\<rparr>)
      | _ \<Rightarrow> None)"

definition receive_kafka ::
  "nat \<Rightarrow> stream_item \<Rightarrow> 'p kafka_provider \<Rightarrow> (link_definition \<times> sub_message) list \<times> 'p kafka_provider" where
  "receive_kafka i item p =
     (case kp_tasks p i of
        None \<Rightarrow> ([], p)
      | Some t \<Rightarrow> (case consume_item t item of
          Some call \<Rightarrow> ([call], p)
        | None \<Rightarrow> ([], abort_tasks {i} p)))"

fun receive_all ::
  "nat \<Rightarrow> stream_item list \<Rightarrow> 'p kafka_provider \<Rightarrow> (link_definition \<times> sub_message) list \<times> 'p kafka_provider" where
  "receive_all i [] p = ([], p)"
| "receive_all i (x # xs) p =
     (case receive_kafka i x p of (calls, p') \<Rightarrow>
      case receive_all i xs p' of (calls', p'') \<Rightarrow> (calls @ calls', p''))"

section \<open>Publishing\<close>

definition utc_now :: "('c, 'p, 't, 's) kafka_env \<Rightarrow> 't rpc_result" where
  "utc_now env =
     rbind (unwrap (ke_since_epoch env)) (\<lambda>(secs, nanos). unwrap (ke_from_timestamp env (sint secs) nanos))"

definition publish_kafka ::
  "('c, 'p, 't, 's) kafka_env \<Rightarrow> 'q kafka_provider \<Rightarrow> ctx \<Rightarrow> pub_message \<Rightarrow> 's \<Rightarrow> unit rpc_result \<times> 's" where
  "publish_kafka env p ctx msg s =
     early (unwrap (ctx_actor ctx)) s (\<lambda>actor.
     early (unwrap (kp_connections p actor)) s (\<lambda>config.
     early (unwrap_res (ke_build env (connection_hosts config) s)) s (\<lambda>client.
     early (unwrap_res (ke_controller_client env client)) s (\<lambda>_.
       case ke_create_topic env client (pm_subject msg) 1 1 1000 s of (_, s1) \<Rightarrow>
     early (unwrap_res (ke_partition_client env client (pm_subject msg) 0 s1)) s1 (\<lambda>pc.
     early (utc_now env) s1 (\<lambda>now.
       case ke_produce env pc [\<lparr>kr_key = None, kr_value = Some (pm_body msg),
                               kr_headers = [(''source'', ''wasm'')], kr_timestamp = now\<rparr>] s1 of (r, s2) \<Rightarrow>
     early (unwrap_res r) s2 (\<lambda>_. (Ok (), s2))))))))"

definition request_kafka :: "ctx \<Rightarrow> request_message \<Rightarrow> sub_message rpc_result" where
  "request_kafka ctx msg = Err NotImplemented"

section \<open>Lemmas\<close>

lemma early_utc_now:
  "early (utc_now env) s f =
     (case ke_since_epoch env of
        None \<Rightarrow> (Panic, s)
      | Some (secs, nanos) \<Rightarrow> (case ke_from_timestamp env (sint secs) nanos of None \<Rightarrow> (Panic, s) | Some t \<Rightarrow> f t))"
  by (auto simp: utc_now_def split: option.splits)

lemma abort_tasks_sel [simp]:
  "kp_tasks (abort_tasks is p) i = (if i \<in> is then None else kp_tasks p i)"
  "kp_connections (abort_tasks is p) = kp_connections p"
  "kp_next (abort_tasks is p) = kp_next p"
  by (simp_all add: abort_tasks_def)

lemma delete_link_kafka_sel [simp]:
  "kp_connections (delete_link_kafka a p) = (kp_connections p)(a := None)"
  "kp_next (delete_link_kafka a p) = kp_next p"
  "kp_tasks (delete_link_kafka a p) i =
     (if \<exists>c. kp_connections p a = Some c \<and> consumer_handle c = i then None else kp_tasks p i)"
  by (auto simp: delete_link_kafka_def fun_eq_iff split: option.splits)

lemma shutdown_kafka_sel [simp]:
  "kp_connections (shutdown_kafka p) = Map.empty"
  "kp_next (shutdown_kafka p) = kp_next p"
  "kp_tasks (shutdown_kafka p) i =
     (if \<exists>c\<in>ran (kp_connections p). consumer_handle c = i then None else kp_tasks p i)"
  by (auto simp: shutdown_kafka_def)

text \<open>The client of the partition that a link is served from, when the brokers can be reached.\<close>

definition kafka_target :: "('c, 'p, 't, 's) kafka_env \<Rightarrow> 's \<Rightarrow> link_definition \<Rightarrow> 'p option" where
  "kafka_target env s ld =
     (case ke_build env (kafka_hosts ld) s of
        Inl _ \<Rightarrow> None
      | Inr c \<Rightarrow> (case ke_partition_client env c (kafka_topic ld) 0 s of Inl _ \<Rightarrow> None | Inr pc \<Rightarrow> Some pc))"

lemma put_link_kafka_cases:
  obtains (linked) pc where "kafka_target env s ld = Some pc"
    "put_link_kafka env s ld p = (Ok True, p\<lparr>kp_tasks := (kp_tasks p)(kp_next p \<mapsto>
        \<lparr>kt_ld = ld, kt_topic = kafka_topic ld, kt_partition = pc\<rparr>), kp_next := kp_next p + 1,
        kp_connections := (kp_connections p)(ld_actor_id ld \<mapsto>
          \<lparr>connection_hosts = kafka_hosts ld, consumer_handle = kp_next p\<rparr>)\<rparr>)"
  | (failed) "kafka_target env s ld = None" "put_link_kafka env s ld p = (Ok True, p)"
  by (cases "ke_build env (kafka_hosts ld) s"; cases "kafka_target env s ld")
    (auto simp: put_link_kafka_def kafka_target_def Let_def split: sum.splits)

definition kf_link_of :: "'p kafka_provider \<Rightarrow> string \<Rightarrow> string list option" where
  "kf_link_of p a = map_option connection_hosts (kp_connections p a)"

definition kf_accept :: "('c, 'p, 't, 's) kafka_env \<Rightarrow> 's \<Rightarrow> link_definition \<Rightarrow> string list option" where
  "kf_accept env s ld = map_option (\<lambda>_. kafka_hosts ld) (kafka_target env s ld)"

interpretation kf: link_registry kf_link_of "\<lambda>ld p. snd (put_link_kafka env s ld p)" "kf_accept env s"
  delete_link_kafka shutdown_kafka for env :: "('c, 'p, 't, 's) kafka_env" and s
proof unfold_locales
  fix ld :: link_definition and p :: "'p kafka_provider" and a
  show "kf_link_of (snd (put_link_kafka env s ld p)) a =
      (if a = ld_actor_id ld then or_else (kf_accept env s ld) (kf_link_of p a) else kf_link_of p a)"
    by (cases rule: put_link_kafka_cases [where env = env and s = s and ld = ld and p = p])
      (auto simp: kf_link_of_def kf_accept_def)
qed (auto simp: kf_link_of_def)


section \<open>Reachable states\<close>

text \<open>
  The states the provider can be in, with the brokers in any state when a link is put. In \<open>once\<close>
  runs an actor is only linked while it has no link.
\<close>

inductive kafka_reachable :: "bool \<Rightarrow> ('c, 'p, 't, 's) kafka_env \<Rightarrow> 'p kafka_provider \<Rightarrow> bool"
  for once env where
  start: "kafka_reachable once env init_kafka"
| put: "kafka_reachable once env p \<Longrightarrow> (once \<Longrightarrow> kp_connections p (ld_actor_id ld) = None) \<Longrightarrow>
    kafka_reachable once env (snd (put_link_kafka env s ld p))"
| del: "kafka_reachable once env p \<Longrightarrow> kafka_reachable once env (delete_link_kafka a p)"
| shut: "kafka_reachable once env p \<Longrightarrow> kafka_reachable once env (shutdown_kafka p)"
| receive: "kafka_reachable once env p \<Longrightarrow> kafka_reachable once env (snd (receive_kafka i item p))"

text \<open>Handles and tasks are numbered below the counter and a running task belongs to the actor that has its handle.\<close>

definition kafka_inv :: "'p kafka_provider \<Rightarrow> bool" where
  "kafka_inv p \<longleftrightarrow>
     (\<forall>a c. kp_connections p a = Some c \<longrightarrow> consumer_handle c < kp_next p \<and>
        (\<forall>t. kp_tasks p (consumer_handle c) = Some t \<longrightarrow> ld_actor_id (kt_ld t) = a)) \<and>
     (\<forall>i t. kp_tasks p i = Some t \<longrightarrow> i < kp_next p) \<and>
     (\<forall>a b c d. kp_connections p a = Some c \<longrightarrow> kp_connections p b = Some d \<longrightarrow>
        consumer_handle c = consumer_handle d \<longrightarrow> a = b)"

definition kafka_no_orphans :: "'p kafka_provider \<Rightarrow> bool" where
  "kafka_no_orphans p \<longleftrightarrow>
     (\<forall>i t. kp_tasks p i = Some t \<longrightarrow> (\<exists>c. kp_connections p (ld_actor_id (kt_ld t)) = Some c \<and> consumer_handle c = i))"

lemma kafka_invD:
  "kafka_inv p \<Longrightarrow> kp_connections p a = Some c \<Longrightarrow> consumer_handle c < kp_next p"
  "kafka_inv p \<Longrightarrow> kp_connections p a = Some c \<Longrightarrow> kp_tasks p (consumer_handle c) = Some t \<Longrightarrow> ld_actor_id (kt_ld t) = a"
  "kafka_inv p \<Longrightarrow> kp_tasks p i = Some t \<Longrightarrow> i < kp_next p"
  "kafka_inv p \<Longrightarrow> kp_connections p a = Some c \<Longrightarrow> kp_connections p b = Some d \<Longrightarrow>
     consumer_handle c = consumer_handle d \<Longrightarrow> a = b"
  unfolding kafka_inv_def by blast+

lemma receive_kafka_sel [simp]:
  "kp_connections (snd (receive_kafka i item p)) = kp_connections p"
  "kp_next (snd (receive_kafka i item p)) = kp_next p"
  by (auto simp: receive_kafka_def split: option.splits)

lemma receive_kafka_tasks: "kp_tasks (snd (receive_kafka i item p)) j = Some t \<Longrightarrow> kp_tasks p j = Some t"
  by (auto simp: receive_kafka_def split: option.splits if_splits)

lemma kafka_inv_put:
  assumes inv: "kafka_inv p"
  shows "kafka_inv (snd (put_link_kafka env s ld p))"
proof (cases rule: put_link_kafka_cases [where env = env and s = s and ld = ld and p = p])
  case (linked pc)
  note D = kafka_invD [OF inv]
  show ?thesis
    unfolding kafka_inv_def linked(2)
    using D(1) D(2) D(3) D(4) by (fastforce split: if_splits)
qed (use inv in simp)

lemma kafka_reachable_inv: "kafka_reachable once env p \<Longrightarrow> kafka_inv p"
proof (induction rule: kafka_reachable.induct)
  case start
  then show ?case by (simp add: kafka_inv_def init_kafka_def)
next
  case (put p ld s)
  then show ?case by (blast intro: kafka_inv_put)
next
  case (del p a)
  then show ?case by (auto simp: kafka_inv_def split: if_splits)
next
  case (shut p)
  then show ?case by (auto simp: kafka_inv_def split: if_splits)
next
  case (receive p i item)
  then show ?case
    unfolding kafka_inv_def receive_kafka_sel by (blast dest: receive_kafka_tasks)
qed

lemma kafka_no_orphans_put:
  assumes "kafka_no_orphans p" "kafka_inv p" "kp_connections p (ld_actor_id ld) = None"
  shows "kafka_no_orphans (snd (put_link_kafka env s ld p))"
proof (cases rule: put_link_kafka_cases [where env = env and s = s and ld = ld and p = p])
  case (linked pc)
  show ?thesis
    unfolding kafka_no_orphans_def linked(2)
    using assms(1,3) by (fastforce simp: kafka_no_orphans_def split: if_splits)
qed (use assms in simp)

lemma kafka_once_no_orphans: "kafka_reachable True env p \<Longrightarrow> kafka_no_orphans p"
proof (induction rule: kafka_reachable.induct)
  case start
  then show ?case by (simp add: kafka_no_orphans_def init_kafka_def)
next
  case (put p ld s)
  then show ?case by (blast intro: kafka_no_orphans_put kafka_reachable_inv)
next
  case (del p a)
  then show ?case by (fastforce simp: kafka_no_orphans_def split: if_splits)
next
  case (shut p)
  then have "kp_tasks (shutdown_kafka p) i = None" for i
    by (cases "kp_tasks p i") (auto simp: kafka_no_orphans_def ran_def, blast)
  then show ?case by (simp add: kafka_no_orphans_def)
next
  case (receive p i item)
  then show ?case
    unfolding kafka_no_orphans_def receive_kafka_sel by (blast dest: receive_kafka_tasks)
qed

text \<open>The consumers by the contract of \<open>Task_Table\<close>: a link that is put again keeps its old consumer running.\<close>

definition kafka_handles :: "'p kafka_provider \<Rightarrow> string \<Rightarrow> nat set" where
  "kafka_handles p a = consumer_handle ` set_option (kp_connections p a)"

interpretation kft: task_links kafka_handles kp_tasks kp_next "\<lambda>ld p. snd (put_link_kafka env s ld p)"
  delete_link_kafka shutdown_kafka "kf_accept env s" for env :: "('c, 'p, 't, 's) kafka_env" and s
proof unfold_locales
  fix p :: "'p kafka_provider" and ld
  assume wf: "wf_tasks kafka_handles kp_tasks kp_next p"
  show "changes kafka_handles kp_tasks kp_next (ld_actor_id ld) p (snd (put_link_kafka env s ld p))"
  proof (cases rule: put_link_kafka_cases [where env = env and s = s and ld = ld and p = p])
    case (linked pc)
    then show ?thesis
      using wf_tasksD(2) [OF wf] by (auto simp: changes_def kafka_handles_def less_SucI split: if_splits)
  qed (use changes_refl [OF wf] in simp)
  assume "kf_accept env s ld = None"
  then show "kafka_handles (snd (put_link_kafka env s ld p)) (ld_actor_id ld) = kafka_handles p (ld_actor_id ld) \<and>
     (\<forall>i\<in>kafka_handles p (ld_actor_id ld). kp_tasks (snd (put_link_kafka env s ld p)) i = kp_tasks p i)"
    by (cases rule: put_link_kafka_cases [where env = env and s = s and ld = ld and p = p])
      (simp_all add: kf_accept_def)
qed (auto simp: kafka_handles_def ran_def)

lemma kafka_inv_wf: "kafka_inv p \<Longrightarrow> wf_tasks kafka_handles kp_tasks kp_next p"
  by (auto simp: wf_tasks_def kafka_handles_def dest: kafka_invD)

section \<open>Sample data\<close>

text \<open>Brokers that accept everything; their state is the list of records produced so far.\<close>

definition sample_kafka_env :: "(unit, string, nat, (string \<times> nat kafka_record) list) kafka_env" where
  "sample_kafka_env =
     \<lparr>ke_build = (\<lambda>_ _. Inr ()), ke_partition_client = (\<lambda>_ topic _ _. Inr topic),
      ke_controller_client = (\<lambda>_. Inr ()), ke_create_topic = (\<lambda>_ _ _ _ _ s. (Inr (), s)),
      ke_produce = (\<lambda>topic rs s. (Inr (), s @ map (Pair topic) rs)),
      ke_since_epoch = Some (5, 0), ke_from_timestamp = (\<lambda>secs _. Some (nat secs))\<rparr>"

definition sample_kafka_link :: "string \<Rightarrow> link_definition" where
  "sample_kafka_link topic = \<lparr>ld_actor_id = ''a'', ld_provider_id = ''p'', ld_link_name = ''default'',
     ld_contract_id = ''wasmcloud:messaging'', ld_values = [(''TOPIC'', topic)]\<rparr>"

definition sample_kafka_state :: "string kafka_provider" where
  "sample_kafka_state = snd (put_link_kafka sample_kafka_env [] (sample_kafka_link ''t1'') init_kafka)"

lemma sample_kafka_facts:
  "kafka_target sample_kafka_env s (sample_kafka_link topic) = Some (trim topic)"
  "kp_connections sample_kafka_state ''a'' = Some \<lparr>connection_hosts = kafka_hosts (sample_kafka_link ''t1''), consumer_handle = 0\<rparr>"
  "kp_tasks sample_kafka_state 0 = Some \<lparr>kt_ld = sample_kafka_link ''t1'', kt_topic = trim ''t1'', kt_partition = trim ''t1''\<rparr>"
  "kafka_reachable once sample_kafka_env sample_kafka_state"
proof -
  show t: "kafka_target sample_kafka_env s (sample_kafka_link topic) = Some (trim topic)" for s topic
    by (simp add: kafka_target_def sample_kafka_env_def kafka_topic_def sample_kafka_link_def KAFKA_TOPIC_def hm_get_def)
  show "kp_connections sample_kafka_state ''a'' = Some \<lparr>connection_hosts = kafka_hosts (sample_kafka_link ''t1''), consumer_handle = 0\<rparr>"
    "kp_tasks sample_kafka_state 0 = Some \<lparr>kt_ld = sample_kafka_link ''t1'', kt_topic = trim ''t1'', kt_partition = trim ''t1''\<rparr>"
    by (simp_all add: sample_kafka_state_def put_link_kafka_def Let_def sample_kafka_env_def init_kafka_def kafka_topic_def
        sample_kafka_link_def KAFKA_TOPIC_def hm_get_def)
  show "kafka_reachable once sample_kafka_env sample_kafka_state"
    unfolding sample_kafka_state_def by (rule kafka_reachable.put [OF kafka_reachable.start]) (simp add: init_kafka_def)
qed

section \<open>Properties\<close>

text \<open>C38: as long as no actor is linked again while it has a link, each actor has at most one running
  consumer, it is the one whose handle is in the table, and so deleting the link or shutting down
  stops it.\<close>
theorem kafka_one_consumer_per_actor:
  assumes "kafka_reachable True env p" and "kp_tasks p i = Some t"
  shows "(\<exists>c. kp_connections p (ld_actor_id (kt_ld t)) = Some c \<and> consumer_handle c = i) \<and>
     (\<forall>j u. kp_tasks p j = Some u \<longrightarrow> ld_actor_id (kt_ld u) = ld_actor_id (kt_ld t) \<longrightarrow> j = i) \<and>
     kp_tasks (delete_link_kafka (ld_actor_id (kt_ld t)) p) i = None \<and>
     kp_tasks (shutdown_kafka p) = Map.empty"
proof -
  have o: "\<And>j u. kp_tasks p j = Some u \<Longrightarrow>
      \<exists>c. kp_connections p (ld_actor_id (kt_ld u)) = Some c \<and> consumer_handle c = j"
    using kafka_once_no_orphans [OF assms(1)] unfolding kafka_no_orphans_def by blast
  have none: "kp_tasks (shutdown_kafka p) j = None" for j
    using o [of j] by (cases "kp_tasks p j") (auto simp: ran_def)
  from o [OF assms(2)] obtain c where c: "kp_connections p (ld_actor_id (kt_ld t)) = Some c" "consumer_handle c = i"
    by blast
  have "j = i" if "kp_tasks p j = Some u" "ld_actor_id (kt_ld u) = ld_actor_id (kt_ld t)" for j u
    using o [OF that(1)] that(2) c by auto
  with c none show ?thesis by auto
qed

theorem kafka_one_consumer_per_actor_witness:
  "kp_tasks (delete_link_kafka ''a'' sample_kafka_state) 0 = None"
  using kafka_one_consumer_per_actor [OF sample_kafka_facts(4,3)] by (simp add: sample_kafka_link_def)

text \<open>Linking an actor again while it is linked leaves its old consumer running with no handle to
  it: whatever control messages follow, it keeps handing the records of the old topic to the actor.\<close>

theorem kafka_relink_leaks_consumer:
  assumes "kafka_reachable False env p"
    and "kp_connections p (ld_actor_id ld) = Some c" and "kp_tasks p (consumer_handle c) = Some t"
    and "kafka_target env s ld = Some pc"
  shows "fst (receive_kafka (consumer_handle c) (RecordItem (Some body))
       (run_links (\<lambda>ld p. snd (put_link_kafka env s' ld p)) delete_link_kafka shutdown_kafka evs
          (snd (put_link_kafka env s ld p)))) =
     [(kt_ld t, \<lparr>sm_subject = kt_topic t, sm_reply_to = None, sm_body = body\<rparr>)]"
proof -
  have inv: "kafka_inv p" by (rule kafka_reachable_inv [OF assms(1)])
  have wf: "wf_tasks kafka_handles kp_tasks kp_next (snd (put_link_kafka env s ld p))"
    by (rule kft.put_wf [OF kafka_inv_wf [OF inv]])
  have "unowned kafka_handles kp_next (snd (put_link_kafka env s ld p)) (consumer_handle c) \<and>
     kp_tasks (snd (put_link_kafka env s ld p)) (consumer_handle c) = Some t"
  proof (cases rule: put_link_kafka_cases [where env = env and s = s and ld = ld and p = p])
    case (linked pc')
    show ?thesis
      using kafka_invD(1,4) [OF inv] assms(2,3)
      by (fastforce simp: unowned_def kafka_handles_def linked(2) split: if_splits)
  qed (use assms(4) in simp)
  with kft.run_unowned [OF wf, of "consumer_handle c" env s' evs] show ?thesis
    by (simp add: receive_kafka_def consume_item_def)
qed

theorem kafka_relink_leaks_consumer_witness:
  "\<exists>t. fst (receive_kafka 0 (RecordItem (Some [1]))
      (delete_link_kafka ''a'' (snd (put_link_kafka sample_kafka_env [] (sample_kafka_link ''t2'') sample_kafka_state)))) = [t]"
proof -
  have "kp_connections sample_kafka_state (ld_actor_id (sample_kafka_link ''t2'')) =
      Some \<lparr>connection_hosts = kafka_hosts (sample_kafka_link ''t1''), consumer_handle = 0\<rparr>"
    using sample_kafka_facts(2) by (simp add: sample_kafka_link_def)
  from kafka_relink_leaks_consumer [OF sample_kafka_facts(4) this, where s = "[]" and s' = "[]" and body = "[1]"
      and evs = "[DeleteLink ''a'']"]
  show ?thesis using sample_kafka_facts(1) [of "[]" "''t2''"] sample_kafka_facts(3) by simp
qed

text \<open>A consumer hands over, in order, the values of the records up to the first one without a value
  (or the first error); there its loop ends and everything after is lost, while the link stays.\<close>

theorem kafka_consumer_stops:
  assumes "kp_tasks p i = Some t" and "\<forall>body. item \<noteq> RecordItem (Some body)"
  shows "receive_all i (map (\<lambda>b. RecordItem (Some b)) bodies @ item # rest) p =
     (map (\<lambda>b. (kt_ld t, \<lparr>sm_subject = kt_topic t, sm_reply_to = None, sm_body = b\<rparr>)) bodies, abort_tasks {i} p)"
proof -
  have dead: "receive_all i xs q = ([], q)" if "kp_tasks q i = None" for xs and q :: "'a kafka_provider"
    using that by (induction xs) (simp_all add: receive_kafka_def)
  have "consume_item t item = None"
    using assms(2) by (auto simp: consume_item_def split: stream_item.splits option.splits)
  then have stop: "receive_kafka i item p = ([], abort_tasks {i} p)"
    using assms(1) by (simp add: receive_kafka_def)
  show ?thesis
  proof (induction bodies)
    case Nil
    then show ?case by (simp add: stop dead)
  next
    case (Cons b bodies)
    have "receive_kafka i (RecordItem (Some b)) p =
        ([(kt_ld t, \<lparr>sm_subject = kt_topic t, sm_reply_to = None, sm_body = b\<rparr>)], p)"
      using assms(1) by (simp add: receive_kafka_def consume_item_def)
    with Cons show ?case by simp
  qed
qed

theorem kafka_consumer_stops_witness:
  "length (fst (receive_all 0 [RecordItem (Some [1]), RecordItem None, RecordItem (Some [2])] sample_kafka_state)) = 1 \<and>
   kp_connections (snd (receive_all 0 [RecordItem (Some [1]), RecordItem None, RecordItem (Some [2])] sample_kafka_state)) ''a'' \<noteq> None"
  using kafka_consumer_stops [OF sample_kafka_facts(3), of "RecordItem None" "[[1]]" "[RecordItem (Some [2])]"]
    sample_kafka_facts(2) by simp

text \<open>Publishing never returns an error: it sends one record with the body to the topic named by the
  subject, at the hosts of the link, or the provider's task aborts; for an actor with no link it
  always aborts.\<close>

theorem publish_kafka_outcome:
  "(fst (publish_kafka env p ctx msg s) = Panic \<or>
     (\<exists>a c client s1 pc now s2. ctx_actor ctx = Some a \<and> kp_connections p a = Some c \<and>
        ke_build env (connection_hosts c) s = Inr client \<and> s1 = snd (ke_create_topic env client (pm_subject msg) 1 1 1000 s) \<and>
        ke_partition_client env client (pm_subject msg) 0 s1 = Inr pc \<and>
        ke_produce env pc [\<lparr>kr_key = None, kr_value = Some (pm_body msg), kr_headers = [(''source'', ''wasm'')],
          kr_timestamp = now\<rparr>] s1 = (Inr (), s2) \<and> publish_kafka env p ctx msg s = (Ok (), s2))) \<and>
   publish_kafka env (p\<lparr>kp_connections := (kp_connections p)(a := None)\<rparr>) \<lparr>ctx_actor = Some a\<rparr> msg s = (Panic, s)"
  by (auto simp: publish_kafka_def early_unwrap early_utc_now split: option.splits sum.splits prod.splits)

end
