(* ===== verification/Messaging_Relay.thy ===== *)
theory Messaging_Relay
  imports Nats Kafka
begin

text \<open>
  Messages on their way from one actor to another: a publishing actor, the messaging provider, the server, the
  provider's task for a subscription, the subscribed actor. What both messaging providers promise is
  that the messages published on a subject reach its subscriber in order and unchanged.
\<close>

section \<open>The contract\<close>

definition relayed :: "bool \<Rightarrow> string \<Rightarrow> pub_message list \<Rightarrow> sub_message list" where
  "relayed replies topic msgs =
     map (\<lambda>m. \<lparr>sm_subject = pm_subject m, sm_reply_to = (if replies then pm_reply_to m else None), sm_body = pm_body m\<rparr>)
       (filter (\<lambda>m. pm_subject m = topic) msgs)"

lemma relayed_simps [simp]:
  "relayed replies topic [] = []"
  "relayed replies topic (m # msgs) =
     (if pm_subject m = topic
      then \<lparr>sm_subject = topic, sm_reply_to = (if replies then pm_reply_to m else None), sm_body = pm_body m\<rparr> # relayed replies topic msgs
      else relayed replies topic msgs)"
  by (simp_all add: relayed_def)

lemma relayed_reply: "map (\<lambda>m. m\<lparr>sm_reply_to := None\<rparr>) (relayed True topic msgs) = relayed False topic msgs"
  by (induction msgs) simp_all

section \<open>NATS\<close>

definition nats_answers :: "'c nats_env \<Rightarrow> 'c nats_provider \<Rightarrow> (ctx \<times> pub_message) list \<Rightarrow> unit rpc_result list" where
  "nats_answers env p msgs = map (\<lambda>(ctx, m). fst (publish_nats env p ctx m)) msgs"

definition nats_wire :: "'c nats_env \<Rightarrow> 'c nats_provider \<Rightarrow> (ctx \<times> pub_message) list \<Rightarrow> nats_message list" where
  "nats_wire env p msgs = concat (map (\<lambda>(ctx, m). map snd (snd (publish_nats env p ctx m))) msgs)"

text \<open>
  What NATS documents of its server: a subscription to a subject without wildcards and without a queue group
  gets the messages that were accepted on exactly that subject, in order.
\<close>

definition plain_subject :: "string \<Rightarrow> bool" where
  "plain_subject s \<longleftrightarrow> s \<noteq> [] \<and> CHR ''*'' \<notin> set s \<and> CHR ''>'' \<notin> set s \<and> CHR ''|'' \<notin> set s"

definition nats_server_law :: "'c nats_env \<Rightarrow> (nats_task \<Rightarrow> nats_message list \<Rightarrow> nats_message list) \<Rightarrow> bool" where
  "nats_server_law env arrive \<longleftrightarrow>
     (\<forall>c m. ne_publish env c m = Inr ()) \<and>
     (\<forall>t wire. plain_subject (nt_subject t) \<longrightarrow> nt_queue t = None \<longrightarrow>
        arrive t wire = filter (\<lambda>m. nm_subject m = nt_subject t) wire)"

definition nats_calls ::
  "'c nats_provider \<Rightarrow> (nats_task \<Rightarrow> nats_message list \<Rightarrow> nats_message list) \<Rightarrow> nat \<Rightarrow> nats_message list \<Rightarrow>
   (link_definition \<times> sub_message) list" where
  "nats_calls p arrive i wire =
     (case np_tasks p i of None \<Rightarrow> [] | Some t \<Rightarrow> List.map_filter (deliver_nats p i) (arrive t wire))"

lemma nats_publish_one:
  assumes "nats_bundle_of p ctx = Ok b"
  obtains out where "publish_nats env p ctx m = (map_err rpc_error.Nats (ne_publish env (nb_client b) out), [(nb_client b, out)])"
    "dispatch_msg ld out = (ld, \<lparr>sm_subject = pm_subject m, sm_reply_to = pm_reply_to m, sm_body = pm_body m\<rparr>)"
    "nm_subject out = pm_subject m"
  using assms by (auto simp: publish_nats_def Let_def dispatch_msg_def split: option.splits)

lemma nats_wire_relayed:
  assumes "list_all (\<lambda>(ctx, m). \<exists>b. nats_bundle_of p ctx = Ok b) msgs"
  shows "map (dispatch_msg ld) (filter (\<lambda>m. nm_subject m = topic) (nats_wire env p msgs)) =
     map (Pair ld) (relayed True topic (map snd msgs))"
  using assms
proof (induction msgs)
  case (Cons x msgs)
  obtain ctx m where x: "x = (ctx, m)" by (cases x)
  with Cons.prems obtain b where "nats_bundle_of p ctx = Ok b" by auto
  from nats_publish_one [OF this, of env m ld] obtain out where
    "publish_nats env p ctx m = (map_err rpc_error.Nats (ne_publish env (nb_client b) out), [(nb_client b, out)])"
    "dispatch_msg ld out = (ld, \<lparr>sm_subject = pm_subject m, sm_reply_to = pm_reply_to m, sm_body = pm_body m\<rparr>)"
    "nm_subject out = pm_subject m" .
  with Cons x show ?case by (auto simp: nats_wire_def)
qed (simp add: nats_wire_def)

lemma nats_all_accepted:
  assumes "nats_server_law env arrive" "list_all (\<lambda>(ctx, m). \<exists>b. nats_bundle_of p ctx = Ok b) msgs"
  shows "list_all (\<lambda>r. r = Ok ()) (nats_answers env p msgs)"
  using assms(2)
proof (induction msgs)
  case (Cons x msgs)
  with assms(1) show ?case
    by (cases x) (auto simp: nats_answers_def nats_server_law_def publish_nats_def Let_def split: option.splits)
qed (simp add: nats_answers_def)

lemma map_filter_Some: "List.map_filter (\<lambda>x. Some (f x)) xs = map f xs"
  by (simp add: List.map_filter_def)

lemma nats_relays:
  assumes "nats_server_law env arrive" "list_all (\<lambda>(ctx, m). \<exists>b. nats_bundle_of p ctx = Ok b) msgs"
    and "np_tasks p i = Some \<lparr>nt_subject = topic, nt_queue = None, nt_ld = ld\<rparr>" "plain_subject topic"
  shows "nats_calls p arrive i (nats_wire env p msgs) = map (Pair ld) (relayed True topic (map snd msgs))"
proof -
  have "deliver_nats p i = (\<lambda>m. Some (dispatch_msg ld m))" by (simp add: fun_eq_iff deliver_nats_def assms(3))
  with assms(1,3,4) show ?thesis
    by (simp add: nats_calls_def nats_server_law_def map_filter_Some nats_wire_relayed [OF assms(2)])
qed

section \<open>Kafka\<close>

fun kafka_publish_all ::
  "('c, 'p, 't, 's) kafka_env \<Rightarrow> 'q kafka_provider \<Rightarrow> (ctx \<times> pub_message) list \<Rightarrow> 's \<Rightarrow> unit rpc_result list \<times> 's" where
  "kafka_publish_all env p [] s = ([], s)"
| "kafka_publish_all env p (x # xs) s =
     (case publish_kafka env p (fst x) (snd x) s of (r, s') \<Rightarrow>
      case kafka_publish_all env p xs s' of (rs, s'') \<Rightarrow> (r # rs, s''))"

text \<open>
  What is relied on of the brokers: \<open>topic_log s t\<close> are the values of the records of the topic. They can be reached, creating a
  topic adds no records, and what is produced is put at the end. A consumer that starts at the latest
  offset gets what was produced since.
\<close>

definition kafka_broker_law :: "('c, 'p, 't, 's) kafka_env \<Rightarrow> ('s \<Rightarrow> string \<Rightarrow> bytes option list) \<Rightarrow> bool" where
  "kafka_broker_law env topic_log \<longleftrightarrow>
     (\<exists>now. utc_now env = Ok now) \<and>
     (\<forall>hosts s. \<exists>cl. ke_build env hosts s = Inr cl \<and> ke_controller_client env cl = Inr () \<and>
        (\<forall>t s. topic_log (snd (ke_create_topic env cl t 1 1 1000 s)) = topic_log s \<and>
           (\<exists>pc. ke_partition_client env cl t 0 (snd (ke_create_topic env cl t 1 1 1000 s)) = Inr pc \<and>
              (\<forall>rs s. \<exists>s'. ke_produce env pc rs s = (Inr (), s') \<and>
                 topic_log s' = (topic_log s)(t := topic_log s t @ map kr_value rs)))))"

definition kafka_calls ::
  "'p kafka_provider \<Rightarrow> ('s \<Rightarrow> string \<Rightarrow> bytes option list) \<Rightarrow> nat \<Rightarrow> 's \<Rightarrow> 's \<Rightarrow> (link_definition \<times> sub_message) list" where
  "kafka_calls p topic_log i s s' =
     (case kp_tasks p i of None \<Rightarrow> []
      | Some t \<Rightarrow> fst (receive_all i (map RecordItem (drop (length (topic_log s (kt_topic t))) (topic_log s' (kt_topic t)))) p))"

lemma kafka_publish_one:
  assumes "kafka_broker_law env topic_log" "ctx_actor ctx = Some a" "kp_connections p a = Some c"
  obtains s' where "publish_kafka env p ctx m s = (Ok (), s')"
    "topic_log s' = (topic_log s)(pm_subject m := topic_log s (pm_subject m) @ [Some (pm_body m)])"
proof -
  obtain now where now: "utc_now env = Ok now" using assms(1) by (auto simp: kafka_broker_law_def)
  obtain cl where cl: "ke_build env (connection_hosts c) s = Inr cl" "ke_controller_client env cl = Inr ()"
    and topic: "\<And>t s. topic_log (snd (ke_create_topic env cl t 1 1 1000 s)) = topic_log s \<and>
           (\<exists>pc. ke_partition_client env cl t 0 (snd (ke_create_topic env cl t 1 1 1000 s)) = Inr pc \<and>
              (\<forall>rs s. \<exists>s'. ke_produce env pc rs s = (Inr (), s') \<and>
                 topic_log s' = (topic_log s)(t := topic_log s t @ map kr_value rs)))"
    using assms(1) unfolding kafka_broker_law_def by blast
  define s1 where "s1 = snd (ke_create_topic env cl (pm_subject m) 1 1 1000 s)"
  obtain pc where pc: "ke_partition_client env cl (pm_subject m) 0 s1 = Inr pc" and log1: "topic_log s1 = topic_log s"
    and produce: "\<And>rs s. \<exists>s'. ke_produce env pc rs s = (Inr (), s') \<and>
                 topic_log s' = (topic_log s)(pm_subject m := topic_log s (pm_subject m) @ map kr_value rs)"
    using topic [of "pm_subject m" s] unfolding s1_def by blast
  define rec where "rec = \<lparr>kr_key = None, kr_value = Some (pm_body m), kr_headers = [(''source'', ''wasm'')], kr_timestamp = now\<rparr>"
  obtain s' where s': "ke_produce env pc [rec] s1 = (Inr (), s')"
    "topic_log s' = (topic_log s1)(pm_subject m := topic_log s1 (pm_subject m) @ map kr_value [rec])"
    using produce by blast
  obtain r where "ke_create_topic env cl (pm_subject m) 1 1 1000 s = (r, s1)" by (metis s1_def surjective_pairing)
  with assms(2,3) now cl pc s' log1 show thesis
    by (intro that [of s']) (simp_all add: publish_kafka_def rec_def)
qed

lemma kafka_publish_relayed:
  assumes "kafka_broker_law env topic_log"
    and "list_all (\<lambda>(ctx, m). \<exists>a c. ctx_actor ctx = Some a \<and> kp_connections p a = Some c) msgs"
  shows "list_all (\<lambda>r. r = Ok ()) (fst (kafka_publish_all env p msgs s)) \<and>
     topic_log (snd (kafka_publish_all env p msgs s)) topic =
       topic_log s topic @ map (\<lambda>m. Some (sm_body m)) (relayed False topic (map snd msgs))"
  using assms(2)
proof (induction msgs arbitrary: s)
  case (Cons x msgs)
  then obtain a c where "ctx_actor (fst x) = Some a" "kp_connections p a = Some c" by (auto simp: case_prod_unfold)
  from kafka_publish_one [OF assms(1) this, of "snd x" s]
  obtain s' where s': "publish_kafka env p (fst x) (snd x) s = (Ok (), s')"
    "topic_log s' = (topic_log s)(pm_subject (snd x) := topic_log s (pm_subject (snd x)) @ [Some (pm_body (snd x))])" .
  with Cons.IH [of s'] Cons.prems show ?case by (auto simp: case_prod_unfold)
qed simp

lemma receive_all_values:
  assumes "kp_tasks p i = Some t"
  shows "receive_all i (map (\<lambda>b. RecordItem (Some b)) bodies) p =
     (map (\<lambda>b. (kt_ld t, \<lparr>sm_subject = kt_topic t, sm_reply_to = None, sm_body = b\<rparr>)) bodies, p)"
  using assms by (induction bodies) (simp_all add: receive_kafka_def consume_item_def)

lemma relayed_bodies:
  "map (\<lambda>b. (ld, \<lparr>sm_subject = topic, sm_reply_to = None, sm_body = b\<rparr>)) (map sm_body (relayed False topic msgs)) =
     map (Pair ld) (relayed False topic msgs)"
  by (induction msgs) simp_all

lemma kafka_relays:
  assumes "kafka_broker_law env topic_log"
    and "list_all (\<lambda>(ctx, m). \<exists>a c. ctx_actor ctx = Some a \<and> kp_connections p a = Some c) msgs"
    and "kp_tasks p i = Some t"
  shows "kafka_calls p topic_log i s (snd (kafka_publish_all env p msgs s)) =
     map (Pair (kt_ld t)) (relayed False (kt_topic t) (map snd msgs))"
proof -
  let ?bodies = "map sm_body (relayed False (kt_topic t) (map snd msgs))"
  have "topic_log (snd (kafka_publish_all env p msgs s)) (kt_topic t) = topic_log s (kt_topic t) @ map Some ?bodies"
    using kafka_publish_relayed [OF assms(1,2), of s "kt_topic t"] by simp
  then have "kafka_calls p topic_log i s (snd (kafka_publish_all env p msgs s)) =
      fst (receive_all i (map (\<lambda>b. RecordItem (Some b)) ?bodies) p)"
    by (simp add: kafka_calls_def assms(3) comp_def)
  then show ?thesis by (simp add: receive_all_values [OF assms(3)] relayed_bodies del: map_map)
qed

section \<open>Links\<close>

lemma nats_link_task:
  assumes "nats_reachable env settings p0" "put_link_nats env settings ld p0 = (Ok True, p)" "link_config env settings ld = Ok cfg"
    and "topic \<in> set (subscriptions cfg)" "plain_subject topic"
  obtains i where "np_tasks p i = Some \<lparr>nt_subject = topic, nt_queue = None, nt_ld = ld\<rparr>"
proof -
  have "nats_wf p0" using nats_reachable_inv [OF assms(1)] by (simp add: nats_inv_def)
  from new_bundle_tasks [OF this assms(2,3)] obtain b where "np_actors p (ld_actor_id ld) = Some b"
    "distinct (map snd (nb_sub_handles b))" "map (np_tasks p) (map snd (nb_sub_handles b)) = map (Some \<circ> task_for ld) (topics cfg)" .
  moreover have "topic \<in> set (topics cfg)" using assms(4,5) by (simp add: plain_subject_def)
  ultimately have "Some (task_for ld topic) \<in> np_tasks p ` set (map snd (nb_sub_handles b))"
    by (metis (no_types, lifting) comp_apply image_eqI list.set_map)
  moreover have "sub_queue topic = (topic, None)" using assms(5) by (auto simp: plain_subject_def sub_queue_def split_once_None split: option.split dest: split_once_Some)
  ultimately show thesis using that by (auto simp: task_for_def)
qed

lemma kafka_link_task:
  assumes "kafka_target env s ld = Some pc"
  shows "kp_tasks (snd (put_link_kafka env s ld q0)) (kp_next q0) =
     Some \<lparr>kt_ld = ld, kt_topic = kafka_topic ld, kt_partition = pc\<rparr>"
  by (rule put_link_kafka_cases [of env s ld q0]) (use assms in simp_all)

section \<open>Properties\<close>


definition sample_arrive :: "nats_task \<Rightarrow> nats_message list \<Rightarrow> nats_message list" where
  "sample_arrive t wire = filter (\<lambda>m. nm_subject m = nt_subject t) wire"

definition sample_log :: "(string \<times> nat kafka_record) list \<Rightarrow> string \<Rightarrow> bytes option list" where
  "sample_log s t = map (kr_value \<circ> snd) (filter (\<lambda>x. fst x = t) s)"

definition sample_relay_link :: link_definition where
  "sample_relay_link = (sample_kafka_link ''a'')\<lparr>ld_actor_id := ''A''\<rparr>"

definition sample_msgs :: "(ctx \<times> pub_message) list" where
  "sample_msgs = map (Pair \<lparr>ctx_actor = Some ''A''\<rparr>)
     [\<lparr>pm_subject = ''a'', pm_reply_to = Some ''r'', pm_body = [1]\<rparr>, \<lparr>pm_subject = ''x'', pm_reply_to = None, pm_body = [2]\<rparr>,
      \<lparr>pm_subject = ''a'', pm_reply_to = None, pm_body = [3]\<rparr>]"

lemma sample_kafka_broker: "kafka_broker_law sample_kafka_env sample_log"
  by (simp add: kafka_broker_law_def utc_now_def sample_kafka_env_def sample_log_def fun_eq_iff comp_def)

lemma sample_trim: "trim ''a'' = ''a''"
  by code_simp


end
