(* ===== verification/Lattice_Controller.thy ===== *)
theory Lattice_Controller
  imports Prelude
begin

text \<open>
  \<open>lattice-controller/src\<close>: a provider through which actors control lattices. Credentials are
  stored per lattice; a cache (\<open>client_cache.rs\<close>) holds one control client per lattice, made from
  the stored credentials when it is first needed and evicted when it was not used for a while.
  Links carry no data.

  Time is a number of milliseconds, and an argument of the operations that read the clock. The NATS
  connection, the builder of the control client and the calls into the control client are the
  fields of \<open>lattice_env\<close>; \<open>'n\<close> is the type of NATS connections.
\<close>

section \<open>Configuration and clients\<close>

record lattice_config =
  lc_cluster_uris :: "string list"
  lc_auth_jwt :: "string option"
  lc_auth_seed :: "string option"
  lc_lattice_prefix :: string
  lc_js_domain :: "string option"
  lc_timeout_ms :: u64
  lc_auction_timeout_ms :: u64

definition default_lattice_config :: lattice_config where
  "default_lattice_config = \<lparr>lc_cluster_uris = [''0.0.0.0:4222''], lc_auth_jwt = None, lc_auth_seed = None,
     lc_lattice_prefix = ''default'', lc_js_domain = None, lc_timeout_ms = 2000, lc_auction_timeout_ms = 3 * 2000\<rparr>"

record 'n ctl_client =
  cl_conn :: 'n
  cl_lattice_prefix :: string
  cl_rpc_timeout :: u64
  cl_auction_timeout :: u64
  cl_js_domain :: "string option"

type_synonym annotations = "(string \<times> string) list option"

record registry_credential =
  rc_password :: "string option"
  rc_token :: "string option"
  rc_username :: "string option"
  rc_registry_type :: string

text \<open>The calls of the control client that the provider makes, with their arguments in order.\<close>

datatype ctl_op =
    PutRegistries "(string \<times> registry_credential) list"
  | PerformProviderAuction string string "(string \<times> string) list"
  | PerformActorAuction string "(string \<times> string) list"
  | GetHosts
  | GetHostInventory string
  | GetClaims
  | StartActor string string u16 annotations
  | ScaleActor string string string u16 annotations
  | AdvertiseLink string string string string link_values
  | RemoveLink string string string
  | QueryLinks
  | UpdateActor string string string annotations
  | StartProvider string string "string option" annotations "string option"
  | StopProvider string string string string annotations
  | StopActor string string u16 annotations
  | StopHost string "u64 option"

text \<open>
  The answers. The provider copies every field of an answer of the control client into the record
  of the same shape in its own interface; the two are one type here.
\<close>

record actor_description =
  ad_id :: string
  ad_image_ref :: "string option"
  ad_instances :: "(annotations \<times> string \<times> int) list"
  ad_name :: "string option"

record provider_description =
  pd_id :: string
  pd_annotations :: annotations
  pd_image_ref :: "string option"
  pd_link_name :: string
  pd_name :: "string option"
  pd_revision :: int

record host_inventory =
  hi_actors :: "actor_description list"
  hi_host_id :: string
  hi_labels :: "(string \<times> string) list"
  hi_providers :: "provider_description list"

record host =
  h_id :: string
  h_uptime_seconds :: u64
  h_labels :: "(string \<times> string) list option"
  h_lattice_prefix :: "string option"
  h_version :: "string option"

datatype ctl_reply =
    Ack bool string
  | Done
  | ProviderAuctionAcks "(string \<times> string \<times> string) list"
  | ActorAuctionAcks "(string \<times> string) list"
  | Hosts "host list"
  | Inventory host_inventory
  | Claims "(string \<times> string) list list"
  | Links "link_definition list"

record 'n lattice_env =
  le_from_seed :: "string \<Rightarrow> string + unit"
  le_connect :: "(string \<times> string) option \<Rightarrow> string \<Rightarrow> string + 'n"
  le_build :: "'n ctl_client \<Rightarrow> string + unit"
  le_call :: "'n ctl_client \<Rightarrow> ctl_op \<Rightarrow> string + ctl_reply"

definition connect_lattice :: "'n lattice_env \<Rightarrow> lattice_config \<Rightarrow> 'n rpc_result" where
  "connect_lattice env cfg =
     rbind (case (lc_auth_jwt cfg, lc_auth_seed cfg) of
              (Some jwt, Some seed) \<Rightarrow>
                rbind (map_err (\<lambda>e. ProviderInit (''key init: '' @ e)) (le_from_seed env seed)) (\<lambda>_. Ok (Some (jwt, seed)))
            | (None, None) \<Rightarrow> Ok None
            | _ \<Rightarrow> Err (InvalidParameter ''must provide both jwt and seed for jwt authentication''))
       (\<lambda>opts. case lc_cluster_uris cfg of
          [] \<Rightarrow> Err (NotInitialized ''No NATS URIs supplied'')
        | url # _ \<Rightarrow> map_err (\<lambda>e. ProviderInit (''Nats connection to '' @ url @ '': '' @ e)) (le_connect env opts url))"

definition create_client :: "'n lattice_env \<Rightarrow> lattice_config \<Rightarrow> 'n ctl_client rpc_result" where
  "create_client env config =
     rbind (connect_lattice env config) (\<lambda>conn.
       let client = \<lparr>cl_conn = conn, cl_lattice_prefix = lc_lattice_prefix config,
                     cl_rpc_timeout = lc_timeout_ms config, cl_auction_timeout = lc_auction_timeout_ms config,
                     cl_js_domain = lc_js_domain config\<rparr>
       in rbind (map_err (\<lambda>e. Nats (''Unable to create NATS client: '' @ e)) (le_build env client)) (\<lambda>_. Ok client))"

section \<open>The cache\<close>

record client_metadata =
  cm_config :: lattice_config
  cm_last_accessed :: nat

record 'n client_cache =
  cc_meta :: "string \<rightharpoonup> client_metadata"
  cc_clients :: "string \<rightharpoonup> 'n ctl_client"

definition new_cache :: "'n client_cache" where
  "new_cache = \<lparr>cc_meta = Map.empty, cc_clients = Map.empty\<rparr>"

definition CACHE_EXPIRE_MINUTES :: nat where
  "CACHE_EXPIRE_MINUTES = 10"

definition cache_period :: nat where
  "cache_period = 60 * CACHE_EXPIRE_MINUTES * 1000"

definition remove_config :: "string \<Rightarrow> 'n client_cache \<Rightarrow> 'n client_cache" where
  "remove_config lattice_id cc = cc\<lparr>cc_meta := (cc_meta cc)(lattice_id := None)\<rparr>"

definition put_config :: "nat \<Rightarrow> string \<Rightarrow> lattice_config \<Rightarrow> 'n client_cache \<Rightarrow> 'n client_cache" where
  "put_config now lattice_id config cc =
     cc\<lparr>cc_meta := (cc_meta cc)(lattice_id \<mapsto> \<lparr>cm_config = config, cm_last_accessed = now\<rparr>)\<rparr>"

definition store_client :: "string \<Rightarrow> 'n ctl_client \<Rightarrow> 'n client_cache \<Rightarrow> 'n client_cache" where
  "store_client lattice_id client cc = cc\<lparr>cc_clients := (cc_clients cc)(lattice_id \<mapsto> client)\<rparr>"

definition record_access :: "nat \<Rightarrow> string \<Rightarrow> 'n client_cache \<Rightarrow> 'n client_cache" where
  "record_access now lattice_id cc =
     cc\<lparr>cc_meta := (cc_meta cc)(lattice_id := map_option (\<lambda>m. m\<lparr>cm_last_accessed := now\<rparr>) (cc_meta cc lattice_id))\<rparr>"

definition get_client ::
  "'n lattice_env \<Rightarrow> nat \<Rightarrow> string \<Rightarrow> 'n client_cache \<Rightarrow> 'n ctl_client rpc_result \<times> 'n client_cache" where
  "get_client env now lattice_id cc =
     (case cc_clients cc lattice_id of
        Some c \<Rightarrow> (Ok c, record_access now lattice_id cc)
      | None \<Rightarrow> (case cc_meta cc lattice_id of
          Some cfg \<Rightarrow> early (create_client env (cm_config cfg)) cc (\<lambda>client. (Ok client, store_client lattice_id client cc))
        | None \<Rightarrow> (Err (NotInitialized (''No client configuration for lattice '' @ lattice_id @ '' stored'')), cc)))"

definition expired :: "nat \<Rightarrow> nat \<Rightarrow> client_metadata \<Rightarrow> bool" where
  "expired now period m \<longleftrightarrow> now - cm_last_accessed m > period"

definition evacuate_cache :: "nat \<Rightarrow> nat \<Rightarrow> 'n client_cache \<Rightarrow> 'n client_cache" where
  "evacuate_cache now period cc =
     cc\<lparr>cc_clients := (\<lambda>k. case cc_meta cc k of
        Some m \<Rightarrow> (if expired now period m then None else cc_clients cc k)
      | None \<Rightarrow> cc_clients cc k)\<rparr>"

section \<open>Handlers\<close>

text \<open>Control messages: links carry nothing, so they change nothing.\<close>

definition put_link_lattice :: "link_definition \<Rightarrow> 'n client_cache \<Rightarrow> bool rpc_result \<times> 'n client_cache" where
  "put_link_lattice ld cc = (Ok True, cc)"

definition delete_link_lattice :: "string \<Rightarrow> 'n client_cache \<Rightarrow> 'n client_cache" where
  "delete_link_lattice actor cc = cc"

definition shutdown_lattice :: "'n client_cache \<Rightarrow> 'n client_cache" where
  "shutdown_lattice cc = cc"

definition set_lattice_credentials ::
  "nat \<Rightarrow> string \<Rightarrow> string option \<Rightarrow> string option \<Rightarrow> string option \<Rightarrow> string option \<Rightarrow> 'n client_cache \<Rightarrow>
   ctl_reply rpc_result \<times> 'n client_cache" where
  "set_lattice_credentials now lattice_id user_jwt user_seed nats_url js_domain cc =
     (Ok (Ack True []), put_config now lattice_id
        \<lparr>lc_cluster_uris = [unwrap_or nats_url ''0.0.0.0:4222''], lc_auth_jwt = user_jwt, lc_auth_seed = user_seed,
         lc_lattice_prefix = lattice_id, lc_js_domain = js_domain, lc_timeout_ms = 2000, lc_auction_timeout_ms = 5000\<rparr> cc)"

definition with_client ::
  "'n lattice_env \<Rightarrow> nat \<Rightarrow> string \<Rightarrow> ctl_op \<Rightarrow> 'n client_cache \<Rightarrow> ctl_reply rpc_result \<times> 'n client_cache" where
  "with_client env now lattice_id op cc =
     (case get_client env now lattice_id cc of (r, cc') \<Rightarrow>
        early r cc' (\<lambda>client. (map_err Nats (le_call env client op), cc')))"

definition set_registry_credentials ::
  "'n lattice_env \<Rightarrow> nat \<Rightarrow> string \<Rightarrow> (string \<times> registry_credential) list option \<Rightarrow> 'n client_cache \<Rightarrow>
   ctl_reply rpc_result \<times> 'n client_cache" where
  "set_registry_credentials env now lattice_id credentials cc =
     (case with_client env now lattice_id (PutRegistries (map (\<lambda>(k, v).
          (k, \<lparr>rc_password = rc_password v, rc_token = rc_token v, rc_username = rc_username v, rc_registry_type = []\<rparr>))
          (unwrap_or credentials []))) cc of
        (r, cc') \<Rightarrow> (rbind r (\<lambda>_. Ok Done), cc'))"

definition auction_provider ::
  "'n lattice_env \<Rightarrow> nat \<Rightarrow> string \<Rightarrow> string \<Rightarrow> string \<Rightarrow> (string \<times> string) list \<Rightarrow> 'n client_cache \<Rightarrow>
   ctl_reply rpc_result \<times> 'n client_cache" where
  "auction_provider env now lattice_id provider_ref link_name constraints =
     with_client env now lattice_id (PerformProviderAuction provider_ref link_name constraints)"

definition auction_actor ::
  "'n lattice_env \<Rightarrow> nat \<Rightarrow> string \<Rightarrow> string \<Rightarrow> (string \<times> string) list \<Rightarrow> 'n client_cache \<Rightarrow>
   ctl_reply rpc_result \<times> 'n client_cache" where
  "auction_actor env now lattice_id actor_ref constraints =
     with_client env now lattice_id (PerformActorAuction actor_ref constraints)"

definition get_hosts ::
  "'n lattice_env \<Rightarrow> nat \<Rightarrow> string \<Rightarrow> 'n client_cache \<Rightarrow> ctl_reply rpc_result \<times> 'n client_cache" where
  "get_hosts env now lattice_id = with_client env now lattice_id GetHosts"

definition get_host_inventory ::
  "'n lattice_env \<Rightarrow> nat \<Rightarrow> string \<Rightarrow> string \<Rightarrow> 'n client_cache \<Rightarrow> ctl_reply rpc_result \<times> 'n client_cache" where
  "get_host_inventory env now lattice_id host = with_client env now lattice_id (GetHostInventory host)"

definition get_claims ::
  "'n lattice_env \<Rightarrow> nat \<Rightarrow> string \<Rightarrow> 'n client_cache \<Rightarrow> ctl_reply rpc_result \<times> 'n client_cache" where
  "get_claims env now lattice_id = with_client env now lattice_id GetClaims"

definition start_actor ::
  "'n lattice_env \<Rightarrow> nat \<Rightarrow> string \<Rightarrow> string \<Rightarrow> string \<Rightarrow> u16 \<Rightarrow> annotations \<Rightarrow> 'n client_cache \<Rightarrow>
   ctl_reply rpc_result \<times> 'n client_cache" where
  "start_actor env now lattice_id host actor_ref n ann =
     with_client env now lattice_id (StartActor host actor_ref n ann)"

definition scale_actor ::
  "'n lattice_env \<Rightarrow> nat \<Rightarrow> string \<Rightarrow> string \<Rightarrow> string \<Rightarrow> string \<Rightarrow> u16 \<Rightarrow> annotations \<Rightarrow> 'n client_cache \<Rightarrow>
   ctl_reply rpc_result \<times> 'n client_cache" where
  "scale_actor env now lattice_id host actor_ref actor_id n ann =
     with_client env now lattice_id (ScaleActor host actor_ref actor_id n ann)"

definition advertise_link ::
  "'n lattice_env \<Rightarrow> nat \<Rightarrow> string \<Rightarrow> link_definition \<Rightarrow> 'n client_cache \<Rightarrow> ctl_reply rpc_result \<times> 'n client_cache" where
  "advertise_link env now lattice_id link =
     with_client env now lattice_id (AdvertiseLink (ld_actor_id link) (ld_provider_id link) (ld_contract_id link)
       (ld_link_name link) (ld_values link))"

record remove_link_request =
  rl_lattice_id :: string
  rl_actor_id :: string
  rl_contract_id :: string
  rl_link_name :: string

definition remove_link ::
  "'n lattice_env \<Rightarrow> nat \<Rightarrow> remove_link_request \<Rightarrow> 'n client_cache \<Rightarrow> ctl_reply rpc_result \<times> 'n client_cache" where
  "remove_link env now arg =
     with_client env now (rl_lattice_id arg) (RemoveLink (rl_actor_id arg) (rl_actor_id arg) (rl_link_name arg))"

definition get_links ::
  "'n lattice_env \<Rightarrow> nat \<Rightarrow> string \<Rightarrow> 'n client_cache \<Rightarrow> ctl_reply rpc_result \<times> 'n client_cache" where
  "get_links env now lattice_id = with_client env now lattice_id QueryLinks"

definition update_actor ::
  "'n lattice_env \<Rightarrow> nat \<Rightarrow> string \<Rightarrow> string \<Rightarrow> string \<Rightarrow> string \<Rightarrow> annotations \<Rightarrow> 'n client_cache \<Rightarrow>
   ctl_reply rpc_result \<times> 'n client_cache" where
  "update_actor env now lattice_id host actor_id new_actor_ref ann =
     with_client env now lattice_id (UpdateActor host actor_id new_actor_ref ann)"

definition start_provider ::
  "'n lattice_env \<Rightarrow> nat \<Rightarrow> string \<Rightarrow> string \<Rightarrow> string \<Rightarrow> string \<Rightarrow> annotations \<Rightarrow> string option \<Rightarrow> 'n client_cache \<Rightarrow>
   ctl_reply rpc_result \<times> 'n client_cache" where
  "start_provider env now lattice_id host provider_ref link_name ann configuration =
     with_client env now lattice_id (StartProvider host provider_ref (Some link_name) ann configuration)"

definition stop_provider ::
  "'n lattice_env \<Rightarrow> nat \<Rightarrow> string \<Rightarrow> string \<Rightarrow> string \<Rightarrow> string \<Rightarrow> string \<Rightarrow> annotations \<Rightarrow> 'n client_cache \<Rightarrow>
   ctl_reply rpc_result \<times> 'n client_cache" where
  "stop_provider env now lattice_id host provider_id link_name contract_id ann =
     with_client env now lattice_id (StopProvider host provider_id link_name contract_id ann)"

definition stop_actor ::
  "'n lattice_env \<Rightarrow> nat \<Rightarrow> string \<Rightarrow> string \<Rightarrow> string \<Rightarrow> u16 \<Rightarrow> annotations \<Rightarrow> 'n client_cache \<Rightarrow>
   ctl_reply rpc_result \<times> 'n client_cache" where
  "stop_actor env now lattice_id host actor_id n ann =
     with_client env now lattice_id (StopActor host actor_id n ann)"

definition stop_host ::
  "'n lattice_env \<Rightarrow> nat \<Rightarrow> string \<Rightarrow> string \<Rightarrow> u64 option \<Rightarrow> 'n client_cache \<Rightarrow>
   ctl_reply rpc_result \<times> 'n client_cache" where
  "stop_host env now lattice_id host timeout = with_client env now lattice_id (StopHost host timeout)"

section \<open>Interleavings\<close>

text \<open>
  The cache takes its locks for single reads and writes, so other requests can run between the
  moment \<open>get_client\<close> finds no client and the moment it stores the one it made. A state has the cache,
  the creations under way, the clock, and every set of credentials given so far.
\<close>

record 'n lattice_state =
  ls_cache :: "'n client_cache"
  ls_pending :: "(string \<times> lattice_config) set"
  ls_now :: nat
  ls_given :: "(string \<times> lattice_config) set"

definition init_lattice :: "'n lattice_state" where
  "init_lattice = \<lparr>ls_cache = new_cache, ls_pending = {}, ls_now = 0, ls_given = {}\<rparr>"

inductive lattice_step :: "'n lattice_env \<Rightarrow> 'n lattice_state \<Rightarrow> 'n lattice_state \<Rightarrow> bool" for env where
  tick: "lattice_step env s (s\<lparr>ls_now := ls_now s + d\<rparr>)"
| credentials: "snd (set_lattice_credentials (ls_now s) l jwt seed url jsd (ls_cache s)) = cc \<Longrightarrow>
    cc_meta cc l = Some m \<Longrightarrow>
    lattice_step env s (s\<lparr>ls_cache := cc, ls_given := insert (l, cm_config m) (ls_given s)\<rparr>)"
| hit: "cc_clients (ls_cache s) l = Some c \<Longrightarrow>
    lattice_step env s (s\<lparr>ls_cache := record_access (ls_now s) l (ls_cache s)\<rparr>)"
| miss: "cc_clients (ls_cache s) l = None \<Longrightarrow> cc_meta (ls_cache s) l = Some m \<Longrightarrow>
    lattice_step env s (s\<lparr>ls_pending := insert (l, cm_config m) (ls_pending s)\<rparr>)"
| created: "(l, cfg) \<in> ls_pending s \<Longrightarrow> create_client env cfg = Ok c \<Longrightarrow>
    lattice_step env s (s\<lparr>ls_cache := store_client l c (ls_cache s), ls_pending := P\<rparr>)"
  if "P \<subseteq> ls_pending s"
| failed: "P \<subseteq> ls_pending s \<Longrightarrow> lattice_step env s (s\<lparr>ls_pending := P\<rparr>)"
| evacuate: "lattice_step env s (s\<lparr>ls_cache := evacuate_cache (ls_now s) cache_period (ls_cache s)\<rparr>)"

inductive_cases lattice_stepE: "lattice_step env s s'"

inductive lattice_reachable :: "'n lattice_env \<Rightarrow> 'n lattice_state \<Rightarrow> bool" for env where
  start: "lattice_reachable env init_lattice"
| step: "lattice_reachable env s \<Longrightarrow> lattice_step env s s' \<Longrightarrow> lattice_reachable env s'"

definition own_config :: "'n lattice_state \<Rightarrow> string \<Rightarrow> lattice_config \<Rightarrow> bool" where
  "own_config s l cfg \<longleftrightarrow> (l, cfg) \<in> ls_given s \<and> lc_lattice_prefix cfg = l"

definition lattice_inv :: "'n lattice_env \<Rightarrow> 'n lattice_state \<Rightarrow> bool" where
  "lattice_inv env s \<longleftrightarrow>
     (\<forall>l m. cc_meta (ls_cache s) l = Some m \<longrightarrow> own_config s l (cm_config m)) \<and>
     (\<forall>l cfg. (l, cfg) \<in> ls_pending s \<longrightarrow> own_config s l cfg) \<and>
     (\<forall>l c. cc_clients (ls_cache s) l = Some c \<longrightarrow> (\<exists>cfg. own_config s l cfg \<and> create_client env cfg = Ok c))"

lemma create_client_prefix: "create_client env cfg = Ok c \<Longrightarrow> cl_lattice_prefix c = lc_lattice_prefix cfg"
  by (auto simp: create_client_def rbind_Ok_iff Let_def)

lemma lattice_inv_step: "lattice_step env s s' \<Longrightarrow> lattice_inv env s \<Longrightarrow> lattice_inv env s'"
proof (induction rule: lattice_step.induct)
  case (credentials s l jwt seed url jsd cc m)
  then show ?case
    by (auto simp: lattice_inv_def own_config_def set_lattice_credentials_def put_config_def split: if_splits) blast
next
  case (hit s l c)
  then show ?case
    by (auto simp: lattice_inv_def own_config_def record_access_def split: if_splits)
next
  case (created P s l cfg c)
  then show ?case
    by (auto simp: lattice_inv_def own_config_def store_client_def split: if_splits) blast
next
  case (evacuate s)
  then show ?case
    by (auto simp: lattice_inv_def own_config_def evacuate_cache_def split: if_splits option.splits)
qed (auto simp: lattice_inv_def own_config_def)

lemma lattice_reachable_inv: "lattice_reachable env s \<Longrightarrow> lattice_inv env s"
proof (induction rule: lattice_reachable.induct)
  case start
  then show ?case by (simp add: lattice_inv_def init_lattice_def new_cache_def)
qed (rule lattice_inv_step)

text \<open>\<open>get_client\<close> without interruption is a run of these steps.\<close>

lemma get_client_steps:
  assumes "get_client env (ls_now s) l (ls_cache s) = (Ok c, cc)"
  shows "(lattice_step env)\<^sup>+\<^sup>+ s (s\<lparr>ls_cache := cc\<rparr>)"
proof (cases "cc_clients (ls_cache s) l")
  case None
  then obtain m where m: "cc_meta (ls_cache s) l = Some m" "create_client env (cm_config m) = Ok c"
    and cc: "cc = store_client l c (ls_cache s)"
    using assms by (auto simp: get_client_def early_Ok_iff split: option.splits)
  let ?s = "s\<lparr>ls_pending := insert (l, cm_config m) (ls_pending s)\<rparr>"
  have "lattice_step env s ?s" by (rule lattice_step.miss [OF None m(1)])
  moreover have "lattice_step env ?s (?s\<lparr>ls_cache := store_client l c (ls_cache ?s), ls_pending := ls_pending s\<rparr>)"
    by (rule lattice_step.created [OF _ _ m(2)]) auto
  moreover have "?s\<lparr>ls_cache := store_client l c (ls_cache ?s), ls_pending := ls_pending s\<rparr> = s\<lparr>ls_cache := cc\<rparr>"
    by (simp add: cc)
  ultimately show ?thesis by (metis tranclp.simps)
next
  case (Some c')
  then have "cc = record_access (ls_now s) l (ls_cache s)" using assms by (simp add: get_client_def)
  with lattice_step.hit [OF Some] show ?thesis by blast
qed

section \<open>Properties\<close>

text \<open>C14: however requests interleave, the client in the cache for a lattice was made from credentials
  that were given for that very lattice, and it addresses that lattice: no request reaches a lattice
  with another one's credentials.\<close>
theorem lattice_client_provenance:
  assumes "lattice_reachable env s" and "cc_clients (ls_cache s) l = Some c"
  shows "\<exists>cfg. (l, cfg) \<in> ls_given s \<and> create_client env cfg = Ok c \<and> cl_lattice_prefix c = l"
  using lattice_reachable_inv [OF assms(1)] assms(2) create_client_prefix
  unfolding lattice_inv_def own_config_def by metis

lemma lattice_stale_credentials_facts:
  assumes "cc_clients cc l = Some c"
  shows "fst (get_client env later l (snd (set_lattice_credentials now l jwt seed url jsd cc))) = Ok c"
    and "fst (with_client env later l op (snd (set_lattice_credentials now l jwt seed url jsd cc))) =
       map_err Nats (le_call env c op)"
  using assms by (simp_all add: get_client_def with_client_def set_lattice_credentials_def put_config_def)

text \<open>Credentials given while a client is cached are not used: the next operations still go
  through the old client, with the old credentials, as long as it stays in the cache.\<close>

theorem lattice_stale_credentials:
  assumes "cc_clients cc l = Some c"
  shows "(fst (get_client env later l (snd (set_lattice_credentials now l jwt seed url jsd cc))) = Ok c) \<and>
     (fst (with_client env later l op (snd (set_lattice_credentials now l jwt seed url jsd cc))) =
       map_err Nats (le_call env c op))"
  using lattice_stale_credentials_facts [OF assms] by blast

lemma lattice_eviction_facts:
  assumes "cc_meta cc l = Some m" and "get_client env t l cc = (Ok c, cc')" and "t \<le> now"
  shows "cc_clients cc l \<noteq> None \<Longrightarrow> now - t \<le> period \<Longrightarrow> cc_clients (evacuate_cache now period cc') l = Some c"
    and "cc_clients cc l = None \<Longrightarrow> t - cm_last_accessed m > period \<Longrightarrow>
       cc_clients cc' l = Some c \<and> cc_clients (evacuate_cache now period cc') l = None"
  using assms
  by (auto simp: get_client_def early_Ok_iff evacuate_cache_def record_access_def store_client_def expired_def)

text \<open>A cached client that served a request less than the period ago survives the eviction; but the
  request for which a client was created does not count as a use: a client created later than one
  period after its credentials were given is dropped by the next eviction, however recent it is.\<close>

theorem lattice_eviction:
  assumes "cc_meta cc l = Some m" and "get_client env t l cc = (Ok c, cc')" and "t \<le> now"
  shows "(cc_clients cc l \<noteq> None \<longrightarrow> now - t \<le> period \<longrightarrow> cc_clients (evacuate_cache now period cc') l = Some c) \<and>
     (cc_clients cc l = None \<longrightarrow> t - cm_last_accessed m > period \<longrightarrow>
       cc_clients cc' l = Some c \<and> cc_clients (evacuate_cache now period cc') l = None)"
  using lattice_eviction_facts [OF assms] by blast

lemma remove_link_ignores_contract_facts:
  "remove_link env now (arg\<lparr>rl_contract_id := x\<rparr>) cc = remove_link env now arg cc"
  "cc_clients cc (rl_lattice_id arg) = Some c \<Longrightarrow> fst (remove_link env now arg cc) =
     map_err Nats (le_call env c (RemoveLink (rl_actor_id arg) (rl_actor_id arg) (rl_link_name arg)))"
  by (simp_all add: remove_link_def with_client_def get_client_def)

text \<open>A request to remove a link sends the actor id where the contract id belongs: requests that
  differ only in the contract are the same command.\<close>

theorem remove_link_ignores_contract:
  "(remove_link env now (arg\<lparr>rl_contract_id := x\<rparr>) cc = remove_link env now arg cc) \<and>
     (cc_clients cc (rl_lattice_id arg) = Some c \<longrightarrow> fst (remove_link env now arg cc) =
     map_err Nats (le_call env c (RemoveLink (rl_actor_id arg) (rl_actor_id arg) (rl_link_name arg))))"
  using remove_link_ignores_contract_facts by blast

definition sample_lattice_env :: "nat lattice_env" where
  "sample_lattice_env = \<lparr>le_from_seed = \<lambda>_. Inr (), le_connect = \<lambda>_ _. Inr 1, le_build = \<lambda>_. Inr (),
     le_call = \<lambda>c op. (case op of RemoveLink a k n \<Rightarrow> Inr (Ack True k) | _ \<Rightarrow> Inr Done)\<rparr>"

definition sample_credentials :: "nat client_cache" where
  "sample_credentials = snd (set_lattice_credentials 0 ''L'' None None None None new_cache)"

definition sample_ctl_client :: "nat ctl_client" where
  "sample_ctl_client = \<lparr>cl_conn = 1, cl_lattice_prefix = ''L'', cl_rpc_timeout = 2000, cl_auction_timeout = 5000,
     cl_js_domain = None\<rparr>"

lemma sample_get_client:
  "get_client sample_lattice_env t ''L'' sample_credentials =
     (Ok sample_ctl_client, store_client ''L'' sample_ctl_client sample_credentials)"
  by (simp add: get_client_def sample_credentials_def set_lattice_credentials_def put_config_def new_cache_def
      create_client_def connect_lattice_def sample_lattice_env_def sample_ctl_client_def)

lemma sample_stored: "cc_clients (store_client ''L'' sample_ctl_client sample_credentials) ''L'' = Some sample_ctl_client"
  by (simp add: store_client_def)

theorem lattice_client_provenance_witness:
  "\<exists>s c. lattice_reachable sample_lattice_env s \<and> cc_clients (ls_cache s) ''L'' = Some c \<and> cl_lattice_prefix c = ''L''"
proof -
  obtain m where m: "cc_meta sample_credentials ''L'' = Some m"
    by (simp add: sample_credentials_def set_lattice_credentials_def put_config_def)
  let ?s1 = "init_lattice\<lparr>ls_cache := sample_credentials, ls_given := insert (''L'', cm_config m) {}\<rparr> :: nat lattice_state"
  have "snd (set_lattice_credentials (ls_now (init_lattice :: nat lattice_state)) ''L'' None None None None (ls_cache init_lattice)) = sample_credentials"
    by (simp add: sample_credentials_def init_lattice_def)
  from lattice_step.credentials [OF this m] have "lattice_step sample_lattice_env init_lattice ?s1"
    by (simp add: init_lattice_def)
  from lattice_reachable.step [OF lattice_reachable.start this] have s1: "lattice_reachable sample_lattice_env ?s1" .
  let ?s2 = "?s1\<lparr>ls_cache := store_client ''L'' sample_ctl_client sample_credentials\<rparr>"
  have "(lattice_step sample_lattice_env)\<^sup>+\<^sup>+ ?s1 ?s2"
    using get_client_steps [of sample_lattice_env ?s1 "''L''"] sample_get_client by simp
  then have s2: "lattice_reachable sample_lattice_env ?s2"
    by (induction rule: tranclp_induct) (auto intro: lattice_reachable.step [OF s1] lattice_reachable.step)
  have c: "cc_clients (ls_cache ?s2) ''L'' = Some sample_ctl_client" by (simp add: sample_stored)
  from lattice_client_provenance [OF s2 c] s2 c show ?thesis by blast
qed

theorem lattice_stale_credentials_witness:
  "fst (get_client sample_lattice_env 7 ''L'' (snd (set_lattice_credentials 5 ''L'' None None (Some ''other'') None
     (store_client ''L'' sample_ctl_client sample_credentials)))) = Ok sample_ctl_client"
  using lattice_stale_credentials [OF sample_stored] by blast

theorem lattice_eviction_witness:
  "cc_clients (evacuate_cache 12 10 (snd (get_client sample_lattice_env 11 ''L'' sample_credentials))) ''L'' = None"
proof -
  let ?m = "the (cc_meta sample_credentials ''L'')"
  have m: "cc_meta sample_credentials ''L'' = Some ?m" "cm_last_accessed ?m = 0" "cc_clients sample_credentials ''L'' = None"
    by (simp_all add: sample_credentials_def set_lattice_credentials_def put_config_def new_cache_def)
  from lattice_eviction [OF m(1) sample_get_client [of 11], of 12 10] m(2,3)
  show ?thesis by (simp add: sample_get_client)
qed

theorem remove_link_ignores_contract_witness:
  "fst (remove_link sample_lattice_env 0 \<lparr>rl_lattice_id = ''L'', rl_actor_id = ''A'', rl_contract_id = ''K'', rl_link_name = ''N''\<rparr>
     (store_client ''L'' sample_ctl_client sample_credentials)) = Ok (Ack True ''A'')"
  using remove_link_ignores_contract [where cc = "store_client ''L'' sample_ctl_client sample_credentials"
      and arg = "\<lparr>rl_lattice_id = ''L'', rl_actor_id = ''A'', rl_contract_id = ''K'', rl_link_name = ''N''\<rparr>"
      and c = sample_ctl_client and env = sample_lattice_env and now = 0]
  by (simp add: sample_stored) (simp add: sample_lattice_env_def)

end
