(* ===== verification/Lattice_Timer.thy ===== *)
theory Lattice_Timer
  imports Lattice_Controller
begin

text \<open>
  The cache of the lattice controller with its expiration timer (\<open>ClientCache::new\<close>): a task evicts idle
  clients once per period, the first time one period after the start. Requests arrive at given
  times; before each of them the timer has fired whenever it was due, on time. A request runs to its
  end before the next one.
\<close>

section \<open>The timer\<close>

text \<open>The loop of the task up to a time: every tick that is due runs the eviction.\<close>

function run_ticks :: "nat \<Rightarrow> nat \<Rightarrow> 'n client_cache \<Rightarrow> nat \<times> 'n client_cache" where
  "run_ticks next t cc =
     (if t < next then (next, cc)
      else run_ticks (next + cache_period) t (evacuate_cache next cache_period cc))"
  by pat_completeness auto
termination
  by (relation "measure (\<lambda>(next, t, cc). Suc t - next)") (auto simp: cache_period_def CACHE_EXPIRE_MINUTES_def)

declare run_ticks.simps [simp del]

text \<open>\<open>interval_at(start, period)\<close> with \<open>start\<close> one period from now.\<close>

definition first_tick :: "nat \<Rightarrow> nat" where
  "first_tick now = now + cache_period"

section \<open>Requests\<close>

datatype lattice_request =
    SetCredentials string "string option" "string option" "string option" "string option"
  | Use string ctl_op

fun about :: "lattice_request \<Rightarrow> string" where
  "about (SetCredentials l jwt seed url jsd) = l"
| "about (Use l op) = l"

fun serve :: "'n lattice_env \<Rightarrow> nat \<Rightarrow> lattice_request \<Rightarrow> 'n client_cache \<Rightarrow> ctl_reply rpc_result \<times> 'n client_cache" where
  "serve env now (SetCredentials l jwt seed url jsd) cc = set_lattice_credentials now l jwt seed url jsd cc"
| "serve env now (Use l op) cc = with_client env now l op cc"

fun run_timed ::
  "'n lattice_env \<Rightarrow> (nat \<times> lattice_request) list \<Rightarrow> nat \<times> 'n client_cache \<Rightarrow> ctl_reply rpc_result list \<times> nat \<times> 'n client_cache"
where
  "run_timed env [] s = ([], s)"
| "run_timed env ((t, r) # es) s =
     (let (next, cc) = run_ticks (fst s) t (snd s); (reply, cc') = serve env t r cc; (replies, s') = run_timed env es (next, cc')
      in (reply # replies, s'))"

lemma run_timed_append:
  "run_timed env (es @ fs) s =
     (let (replies, s') = run_timed env es s; (replies', s'') = run_timed env fs s' in (replies @ replies', s''))"
proof (induction es arbitrary: s)
  case (Cons e es)
  then show ?case by (cases e) (simp add: case_prod_unfold Let_def)
qed (simp add: case_prod_unfold Let_def)

section \<open>What ticks and requests keep\<close>

lemma evacuate_sel [simp]:
  "cc_meta (evacuate_cache now p cc) = cc_meta cc"
  "cc_meta cc l = Some m \<Longrightarrow> cc_clients (evacuate_cache now p cc) l = (if expired now p m then None else cc_clients cc l)"
  by (simp_all add: evacuate_cache_def)

lemma run_ticks_invariant:
  assumes "I next cc" and "\<And>next cc. I next cc \<Longrightarrow> next \<le> t \<Longrightarrow> I (next + cache_period) (evacuate_cache next cache_period cc)"
  shows "I (fst (run_ticks next t cc)) (snd (run_ticks next t cc))" and "t < fst (run_ticks next t cc)"
proof -
  have "I (fst (run_ticks next t cc)) (snd (run_ticks next t cc)) \<and> t < fst (run_ticks next t cc)"
    using assms
  proof (induction "next" t cc rule: run_ticks.induct)
    case (1 "next" t cc)
    then show ?case by (cases "t < next") (simp_all add: run_ticks.simps [of "next" t cc])
  qed
  then show "I (fst (run_ticks next t cc)) (snd (run_ticks next t cc))" "t < fst (run_ticks next t cc)" by blast+
qed

lemma run_ticks_soon:
  assumes "next \<le> t0 + cache_period" "t0 \<le> t"
  shows "fst (run_ticks next t cc) \<le> t + cache_period"
  using run_ticks_invariant(1) [of "\<lambda>n _. n \<le> t + cache_period" "next" cc t] assms by simp

lemma serve_other:
  assumes "about r \<noteq> l"
  shows "cc_meta (snd (serve env now r cc)) l = cc_meta cc l" "cc_clients (snd (serve env now r cc)) l = cc_clients cc l"
proof -
  have "cc_meta (snd (serve env now r cc)) l = cc_meta cc l \<and> cc_clients (snd (serve env now r cc)) l = cc_clients cc l"
  proof (cases r)
    case (SetCredentials k jwt seed url jsd)
    with assms show ?thesis by (simp add: set_lattice_credentials_def put_config_def)
  next
    case (Use k op)
    have "cc_meta (snd (get_client env now k cc)) l = cc_meta cc l \<and> cc_clients (snd (get_client env now k cc)) l = cc_clients cc l"
    proof (cases "cc_clients cc k")
      case None
      then show ?thesis
        using assms Use by (cases "cc_meta cc k"; cases "create_client env (cm_config (the (cc_meta cc k)))")
          (simp_all add: get_client_def store_client_def)
    next
      case (Some c)
      then show ?thesis using assms Use by (simp add: get_client_def record_access_def)
    qed
    moreover have "snd (with_client env now k op cc) = snd (get_client env now k cc)"
      by (cases "fst (get_client env now k cc)") (simp_all add: with_client_def case_prod_unfold)
    ultimately show ?thesis using Use by simp
  qed
  then show "cc_meta (snd (serve env now r cc)) l = cc_meta cc l" "cc_clients (snd (serve env now r cc)) l = cc_clients cc l"
    by blast+
qed

section \<open>Idle lattices\<close>

text \<open>The client of a lattice last used at \<open>t0\<close> is gone, or the timer is not past the tick that removes it.\<close>

definition idle_inv :: "string \<Rightarrow> client_metadata \<Rightarrow> nat \<Rightarrow> 'n client_cache \<Rightarrow> bool" where
  "idle_inv l m next cc \<longleftrightarrow> cc_meta cc l = Some m \<and> (cc_clients cc l = None \<or> next \<le> cm_last_accessed m + 2 * cache_period)"

lemma idle_inv_ticks: "idle_inv l m next cc \<Longrightarrow> idle_inv l m (fst (run_ticks next t cc)) (snd (run_ticks next t cc))"
  by (rule run_ticks_invariant(1)) (auto simp: idle_inv_def expired_def)

lemma idle_inv_run:
  assumes "idle_inv l m (fst s) (snd s)" "\<forall>(t, r) \<in> set es. about r \<noteq> l"
  shows "idle_inv l m (fst (snd (run_timed env es s))) (snd (snd (run_timed env es s)))"
  using assms
proof (induction es arbitrary: s)
  case (Cons e es)
  obtain t r where e: "e = (t, r)" by (cases e)
  let ?s = "run_ticks (fst s) t (snd s)"
  have "idle_inv l m (fst ?s) (snd ?s)" using Cons.prems(1) by (rule idle_inv_ticks)
  then have "idle_inv l m (fst ?s) (snd (serve env t r (snd ?s)))"
    using Cons.prems(2) e by (simp add: idle_inv_def serve_other)
  with Cons.IH [of "(fst ?s, snd (serve env t r (snd ?s)))"] Cons.prems(2) e show ?case
    by (simp add: case_prod_unfold Let_def)
qed simp

section \<open>Busy lattices\<close>

text \<open>Until each request at most a period has passed since the last one about the lattice.\<close>

fun busy :: "string \<Rightarrow> nat \<Rightarrow> (nat \<times> lattice_request) list \<Rightarrow> bool" where
  "busy l t [] = True"
| "busy l t ((t', r) # es) = (t' \<le> t + cache_period \<and> busy l (if about r = l then t' else t) es)"

definition busy_inv :: "string \<Rightarrow> 'n ctl_client \<Rightarrow> nat \<Rightarrow> 'n client_cache \<Rightarrow> bool" where
  "busy_inv l c t cc \<longleftrightarrow> cc_clients cc l = Some c \<and> (\<exists>m. cc_meta cc l = Some m \<and> t \<le> cm_last_accessed m)"

lemma busy_inv_ticks:
  assumes "busy_inv l c t0 cc" "t \<le> t0 + cache_period"
  shows "busy_inv l c t0 (snd (run_ticks next t cc))"
proof (rule run_ticks_invariant(1) [of "\<lambda>_ cc. busy_inv l c t0 cc" "next" cc t])
  show "busy_inv l c t0 (evacuate_cache next cache_period cc)" if "busy_inv l c t0 cc" "next \<le> t" for "next" cc
    using that assms(2) by (auto simp: busy_inv_def expired_def)
qed (rule assms(1))

lemma busy_inv_serve:
  assumes "busy_inv l c t0 cc"
  shows "busy_inv l c (if about r = l then t else t0) (snd (serve env t r cc))"
    and "r = Use l op \<Longrightarrow> fst (serve env t r cc) = map_err Nats (le_call env c op)"
proof -
  show "busy_inv l c (if about r = l then t else t0) (snd (serve env t r cc))"
  proof (cases "about r = l")
    case True
    with assms show ?thesis
      by (cases r) (auto simp: busy_inv_def set_lattice_credentials_def put_config_def with_client_def get_client_def record_access_def)
  next
    case False
    with assms show ?thesis by (simp add: busy_inv_def serve_other)
  qed
  show "r = Use l op \<Longrightarrow> fst (serve env t r cc) = map_err Nats (le_call env c op)"
    using assms by (simp add: busy_inv_def with_client_def get_client_def)
qed


section \<open>Sample data\<close>

text \<open>A control client that tells which server it is connected to.\<close>

definition timer_env :: "nat lattice_env" where
  "timer_env = \<lparr>le_from_seed = \<lambda>_. Inr (), le_connect = \<lambda>_ url. Inr (if url = ''new'' then 2 else 1), le_build = \<lambda>_. Inr (),
     le_call = \<lambda>c op. Inr (Ack True (if cl_conn c = 2 then ''new'' else ''old''))\<rparr>"

definition cached :: "nat client_cache" where
  "cached = store_client ''L'' sample_ctl_client sample_credentials"

definition renewed :: "nat client_cache" where
  "renewed = snd (set_lattice_credentials 5 ''L'' None None (Some ''new'') None cached)"

section \<open>Properties\<close>

text \<open>C30: credentials do come into effect: when credentials for a lattice are given and no request uses the
  lattice for two periods, whatever is requested of other lattices, then the timer has removed any older
  client, and the next request goes through a client made from the new credentials (or fails because none can be made).\<close>
theorem lattice_idle_credentials_used:
  assumes "next \<le> t0 + cache_period" and "\<forall>(t, r) \<in> set es. about r \<noteq> l" and "t0 + 2 * cache_period \<le> t"
    and "set_lattice_credentials t0 l jwt seed url jsd cc = (reply, cc0)"
  shows "\<exists>m. cc_meta cc0 l = Some m \<and>
     last (fst (run_timed env (es @ [(t, Use l op)]) (next, cc0))) =
       rbind (create_client env (cm_config m)) (\<lambda>c. map_err Nats (le_call env c op))"
proof -
  obtain m where m: "cc_meta cc0 l = Some m" "cm_last_accessed m = t0"
    using assms(4) by (auto simp: set_lattice_credentials_def put_config_def)
  then have "idle_inv l m next cc0" using assms(1) by (simp add: idle_inv_def)
  then have "idle_inv l m (fst (snd (run_timed env es (next, cc0)))) (snd (snd (run_timed env es (next, cc0))))"
    using assms(2) by (intro idle_inv_run) simp_all
  moreover obtain replies n cc1 where run: "run_timed env es (next, cc0) = (replies, n, cc1)" by (metis prod_cases3)
  ultimately have "idle_inv l m (fst (run_ticks n t cc1)) (snd (run_ticks n t cc1))"
    by (simp add: idle_inv_ticks)
  moreover have "t < fst (run_ticks n t cc1)" by (rule run_ticks_invariant(2) [where I = "\<lambda>_ _. True"]) simp_all
  ultimately have "cc_clients (snd (run_ticks n t cc1)) l = None" "cc_meta (snd (run_ticks n t cc1)) l = Some m"
    using m(2) assms(3) by (auto simp: idle_inv_def)
  then have "fst (serve env t (Use l op) (snd (run_ticks n t cc1))) =
      rbind (create_client env (cm_config m)) (\<lambda>c. map_err Nats (le_call env c op))"
    by (cases "create_client env (cm_config m)") (simp_all add: with_client_def get_client_def)
  with run m(1) show ?thesis by (simp add: run_timed_append case_prod_unfold Let_def)
qed

theorem lattice_idle_credentials_used_witness:
  "last (fst (run_timed timer_env ([(6, Use ''M'' GetHosts)] @ [(1200005, Use ''L'' GetHosts)]) (first_tick 0, renewed))) =
     Ok (Ack True ''new'')"
proof -
  have "set_lattice_credentials 5 ''L'' None None (Some ''new'') None cached = (Ok (Ack True []), renewed)"
    by (simp add: renewed_def set_lattice_credentials_def)
  from lattice_idle_credentials_used [where es = "[(6, Use ''M'' GetHosts)]" and t = 1200005, OF _ _ _ this,
      of "first_tick 0" timer_env GetHosts]
  obtain m where m: "cc_meta renewed ''L'' = Some m"
    "last (fst (run_timed timer_env ([(6, Use ''M'' GetHosts)] @ [(1200005, Use ''L'' GetHosts)]) (first_tick 0, renewed))) =
       rbind (create_client timer_env (cm_config m)) (\<lambda>c. map_err Nats (le_call timer_env c GetHosts))"
    by (auto simp: first_tick_def cache_period_def CACHE_EXPIRE_MINUTES_def)
  from m(1) have "cm_config m = \<lparr>lc_cluster_uris = [''new''], lc_auth_jwt = None, lc_auth_seed = None,
      lc_lattice_prefix = ''L'', lc_js_domain = None, lc_timeout_ms = 2000, lc_auction_timeout_ms = 5000\<rparr>"
    by (auto simp: renewed_def set_lattice_credentials_def put_config_def)
  then show ?thesis using m(2) by (simp add: create_client_def connect_lattice_def timer_env_def)
qed

text \<open>While a lattice is used at least once per period the timer never removes its client: every request goes
  through that client, and credentials given in the meantime are never used.\<close>

theorem lattice_busy_client_kept:
  assumes "cc_clients cc l = Some c" and "cc_meta cc l = Some m" and "busy l (cm_last_accessed m) es"
  shows "cc_clients (snd (snd (run_timed env es (next, cc)))) l = Some c \<and>
     list_all2 (\<lambda>(t, r) reply. case r of SetCredentials _ _ _ _ _ \<Rightarrow> True
         | Use l' op \<Rightarrow> l' = l \<longrightarrow> reply = map_err Nats (le_call env c op))
       es (fst (run_timed env es (next, cc)))"
proof -
  have "busy_inv l c t0 cc \<Longrightarrow> busy l t0 es \<Longrightarrow> ?thesis" for t0
  proof (induction es arbitrary: "next" cc t0)
    case (Cons e es)
    obtain t r where e: "e = (t, r)" by (cases e)
    let ?s = "run_ticks next t cc"
    have b: "busy_inv l c t0 (snd ?s)" using Cons.prems e by (simp add: busy_inv_ticks)
    from Cons.IH [OF busy_inv_serve(1) [OF b], of r t "fst ?s"] Cons.prems(2) e busy_inv_serve(2) [OF b]
    show ?case by (simp add: case_prod_unfold Let_def split: lattice_request.split)
  qed (simp add: busy_inv_def)
  moreover have "busy_inv l c (cm_last_accessed m) cc" using assms(1,2) by (simp add: busy_inv_def)
  ultimately show ?thesis using assms(3) by blast
qed

theorem lattice_busy_client_kept_witness:
  "let replies = fst (run_timed timer_env
       [(500000, Use ''L'' GetHosts), (900000, SetCredentials ''L'' None None (Some ''new'') None), (1400000, Use ''L'' GetHosts)]
       (first_tick 0, cached))
   in replies ! 0 = Ok (Ack True ''old'') \<and> replies ! 2 = Ok (Ack True ''old'')"
proof -
  let ?es = "[(500000, Use ''L'' GetHosts), (900000, SetCredentials ''L'' None None (Some ''new'') None), (1400000, Use ''L'' GetHosts)]"
  have c: "cc_clients cached ''L'' = Some sample_ctl_client" by (simp add: cached_def sample_stored)
  obtain m where m: "cc_meta cached ''L'' = Some m" "cm_last_accessed m = 0"
    by (simp add: cached_def store_client_def sample_credentials_def set_lattice_credentials_def put_config_def)
  have "busy ''L'' (cm_last_accessed m) ?es" by (simp add: m(2) cache_period_def CACHE_EXPIRE_MINUTES_def)
  from lattice_busy_client_kept [OF c m(1) this, of timer_env "first_tick 0"]
  show ?thesis by (auto simp: list_all2_Cons1 Let_def timer_env_def sample_ctl_client_def)
qed

end
