(* ===== verification/Sqldb_Interface.thy ===== *)
theory Sqldb_Interface
  imports Prelude
begin

text \<open>
  The data of the SQL interface and the error type that both SQL providers have in their
  \<open>error.rs\<close>: a statement, the results of executing and of querying, and the errors inside them.
\<close>

record statement =
  st_database :: "string option"
  st_parameters :: "string list option"
  st_sql :: string

record sql_db_error =
  se_code :: string
  se_message :: string

record column =
  col_ordinal :: u32
  col_name :: string
  col_db_type :: string

record execute_result =
  er_rows_affected :: u64
  er_error :: "sql_db_error option"

record 'b query_result =
  qr_num_rows :: u64
  qr_error :: "sql_db_error option"
  qr_columns :: "column list"
  qr_rows :: 'b

datatype db_error =
    DbErr string
  | IoErr string
  | ConfigErr string
  | EncodingErr string
  | NotFoundDbErr string
  | ProviderErr string
  | OtherDbErr string

definition to_sql_db_error :: "db_error \<Rightarrow> sql_db_error" where
  "to_sql_db_error e =
     (case e of
        DbErr s \<Rightarrow> \<lparr>se_code = ''db'', se_message = s\<rparr>
      | IoErr s \<Rightarrow> \<lparr>se_code = ''io'', se_message = s\<rparr>
      | ConfigErr s \<Rightarrow> \<lparr>se_code = ''config'', se_message = s\<rparr>
      | EncodingErr s \<Rightarrow> \<lparr>se_code = ''encoding'', se_message = s\<rparr>
      | NotFoundDbErr s \<Rightarrow> \<lparr>se_code = ''notFound'', se_message = s\<rparr>
      | ProviderErr s \<Rightarrow> \<lparr>se_code = ''provider'', se_message = s\<rparr>
      | OtherDbErr s \<Rightarrow> \<lparr>se_code = ''other'', se_message = s\<rparr>)"

text \<open>The code tells the kinds of errors apart and the message is kept.\<close>

lemma to_sql_db_error_inj: "inj to_sql_db_error"
  by (rule injI) (auto simp: to_sql_db_error_def split: db_error.splits)

end
