(* ===== verification/Sqldb_Dynamodb.thy ===== *)
theory Sqldb_Dynamodb
  imports Sqldb_Interface Link_Registry Aws_Config Json
begin

text \<open>
  \<open>sqldb-dynamodb/src\<close>: statements in PartiQL with parameters and rows as DynamoDB attribute values,
  which actors send and receive as JSON.

  The service is a state \<open>'s\<close> and the operation of \<open>dynamo_env\<close> on it. A binary attribute is a byte
  string. The JSON reader and printer and the CBOR encoder are arguments.
\<close>

section \<open>UTF-8\<close>

text \<open>\<open>String::from_utf8\<close> accepts a byte string exactly if it is well-formed UTF-8.\<close>

definition cont_byte :: "char \<Rightarrow> bool" where
  "cont_byte c \<longleftrightarrow> code_in 0x80 0xBF c"

fun valid_utf8 :: "string \<Rightarrow> bool" where
  "valid_utf8 [] = True"
| "valid_utf8 (a # s) =
     (if code_in 0 0x7F a then valid_utf8 s
      else case s of [] \<Rightarrow> False | b # s1 \<Rightarrow>
        (if code_in 0xC2 0xDF a then cont_byte b \<and> valid_utf8 s1
         else case s1 of [] \<Rightarrow> False | c # s2 \<Rightarrow>
           (if byte a = 0xE0 then code_in 0xA0 0xBF b \<and> cont_byte c \<and> valid_utf8 s2
            else if byte a = 0xED then code_in 0x80 0x9F b \<and> cont_byte c \<and> valid_utf8 s2
            else if code_in 0xE1 0xEF a then cont_byte b \<and> cont_byte c \<and> valid_utf8 s2
            else case s2 of [] \<Rightarrow> False | d # s3 \<Rightarrow>
              (if byte a = 0xF0 then code_in 0x90 0xBF b \<and> cont_byte c \<and> cont_byte d \<and> valid_utf8 s3
               else if code_in 0xF1 0xF3 a then cont_byte b \<and> cont_byte c \<and> cont_byte d \<and> valid_utf8 s3
               else if byte a = 0xF4 then code_in 0x80 0x8F b \<and> cont_byte c \<and> cont_byte d \<and> valid_utf8 s3
               else False))))"

definition from_utf8 :: "string \<Rightarrow> string option" where
  "from_utf8 b = (if valid_utf8 b then Some b else None)"

section \<open>Attribute values and JSON\<close>

datatype attribute_value =
    AB string
  | ABool bool
  | ABs "string list"
  | AL "attribute_value list"
  | AM "(string \<times> attribute_value) list"
  | AN string
  | ANs "string list"
  | ANull bool
  | AS string
  | ASs "string list"
  | AUnknown

lemma size_AM: "(k, v) \<in> set kvs \<Longrightarrow> size v < Suc (size_list (size_prod (\<lambda>_. 0) size) kvs)"
  by (induction kvs) auto

function attribute_value_to_json :: "attribute_value \<Rightarrow> ('e, json) rres" where
  "attribute_value_to_json (AB blob) = rbind (unwrap (from_utf8 blob)) (\<lambda>s. Ok (JObject [(''B'', JString s)]))"
| "attribute_value_to_json (ABool b) = Ok (JObject [(''BOOL'', JBool b)])"
| "attribute_value_to_json (ABs blobs) =
     rbind (traverse (\<lambda>b. unwrap (from_utf8 b)) blobs) (\<lambda>ss. Ok (JObject [(''BS'', JArray (map JString ss))]))"
| "attribute_value_to_json (AL vs) =
     rbind (traverse attribute_value_to_json vs) (\<lambda>js. Ok (JObject [(''L'', JArray js)]))"
| "attribute_value_to_json (AM kvs) =
     rbind (traverse (\<lambda>kv. rbind (attribute_value_to_json (snd kv)) (\<lambda>j. Ok (fst kv, j))) kvs)
       (\<lambda>kjs. Ok (JObject [(''M'', JObject kjs)]))"
| "attribute_value_to_json (AN n) = Ok (JObject [(''N'', JString n)])"
| "attribute_value_to_json (ANs ns) = Ok (JObject [(''NS'', JArray (map JString ns))])"
| "attribute_value_to_json (ANull b) = Ok (JObject [(''NULL'', JBool b)])"
| "attribute_value_to_json (AS s) = Ok (JObject [(''S'', JString s)])"
| "attribute_value_to_json (ASs ss) = Ok (JObject [(''SS'', JArray (map JString ss))])"
| "attribute_value_to_json AUnknown = Ok (JObject [(''Unknown'', JString ''Unknown'')])"
  by pat_completeness auto
termination
  by (relation "measure size") (auto simp: less_Suc_eq_le size_list_estimation' size_AM [unfolded less_Suc_eq_le])

text \<open>A string stays as it is, any other value becomes its JSON text.\<close>

definition text_of :: "(json \<Rightarrow> string) \<Rightarrow> json \<Rightarrow> string" where
  "text_of to_string v = (case v of JString s \<Rightarrow> s | _ \<Rightarrow> to_string v)"

lemma size_JObject: "(k, v) \<in> set kvs \<Longrightarrow> size v < Suc (size_list (size_prod (\<lambda>_. 0) size) kvs)"
  by (induction kvs) auto

text \<open>
  The result is nothing for a parameter that is not understood. List elements that are not
  understood are left out; inside a map or a binary set they make an \<open>unwrap\<close> fail.
\<close>

function parameter_to_attribute_value ::
  "(json \<Rightarrow> string) \<Rightarrow> string option \<Rightarrow> json \<Rightarrow> ('e, attribute_value option) rres" where
  "parameter_to_attribute_value ts attr value =
     (case (attr, value) of
        (None, JObject val) \<Rightarrow>
          (case val of [(k, v)] \<Rightarrow> parameter_to_attribute_value ts (Some k) v | _ \<Rightarrow> Ok None)
      | (Some code, JString val) \<Rightarrow>
          (if code = ''B'' then Ok (Some (AB val))
           else if code = ''N'' then Ok (Some (AN val))
           else if code = ''S'' then Ok (Some (AS val)) else Ok None)
      | (Some code, JBool val) \<Rightarrow>
          (if code = ''BOOL'' then Ok (Some (ABool val))
           else if code = ''NULL'' then Ok (Some (ANull val)) else Ok None)
      | (Some code, JNumber val) \<Rightarrow> (if code = ''N'' then Ok (Some (AN val)) else Ok None)
      | (Some code, JArray val) \<Rightarrow>
          (if code = ''BS'' then rbind (traverse (\<lambda>v. unwrap (as_str v)) val) (\<lambda>bs. Ok (Some (ABs bs)))
           else if code = ''L'' then
             rbind (traverse (\<lambda>v. parameter_to_attribute_value ts None v) val)
               (\<lambda>vs. Ok (Some (AL (List.map_filter id vs))))
           else if code = ''NS'' then Ok (Some (ANs (map (text_of ts) val)))
           else if code = ''SS'' then Ok (Some (ASs (map (text_of ts) val))) else Ok None)
      | (Some code, JObject val) \<Rightarrow>
          (if code = ''M'' then
             rbind (traverse (\<lambda>kv. rbind (rbind (parameter_to_attribute_value ts None (snd kv)) unwrap)
                                        (\<lambda>a. Ok (fst kv, a))) val)
               (\<lambda>kvs. Ok (Some (AM kvs)))
           else Ok None)
      | _ \<Rightarrow> Ok None)"
  by pat_completeness auto
termination
  by (relation "measure (\<lambda>(ts, attr, v). size v)")
    (auto simp: less_Suc_eq_le size_list_estimation' size_JObject [unfolded less_Suc_eq_le])

declare parameter_to_attribute_value.simps [simp del]

section \<open>Statements\<close>

record statement_output =
  so_items :: "(string \<times> attribute_value) list list option"
  so_capacity_units :: "int option option"

record 's dynamo_env =
  de_json_from_slice :: "string \<Rightarrow> string + json"
  de_json_to_string :: "json \<Rightarrow> string"
  de_debug_param :: "string \<Rightarrow> string"
  de_cbor_encode :: "string \<Rightarrow> string + bytes"
  de_execute_statement :: "string \<Rightarrow> attribute_value list option \<Rightarrow> 's \<Rightarrow> (string + statement_output) \<times> 's"

definition convert_parameters ::
  "'s dynamo_env \<Rightarrow> string list option \<Rightarrow> attribute_value list option rpc_result" where
  "convert_parameters env parameters =
     (case parameters of
        None \<Rightarrow> Ok None
      | Some ps \<Rightarrow>
          rbind (traverse (\<lambda>parameter.
            rbind (map_err (\<lambda>e. InvalidParameter (''parameter '' @ de_debug_param env parameter @
                      '' has invalid json format '' @ e)) (de_json_from_slice env parameter)) (\<lambda>json_value.
            rbind (parameter_to_attribute_value (de_json_to_string env) None json_value)
              (ok_or (InvalidParameter (''parameter '' @ de_debug_param env parameter @ '' has unknown type''))))) ps)
          (\<lambda>vs. Ok (Some vs)))"

definition convert_rows ::
  "'s dynamo_env \<Rightarrow> (string \<times> attribute_value) list list option \<Rightarrow> (db_error, bytes) rres" where
  "convert_rows env items =
     (case items of
        None \<Rightarrow> Ok []
      | Some rows \<Rightarrow>
          rbind (traverse (\<lambda>r. rbind (traverse (\<lambda>kv. rbind (attribute_value_to_json (snd kv))
                     (\<lambda>j. Ok (fst kv, j))) r) (\<lambda>kjs. Ok (JObject kjs))) rows) (\<lambda>json_rows.
            map_err EncodingErr (de_cbor_encode env (de_json_to_string env (JArray json_rows)))))"

text \<open>The capacity is a floating-point number, given by its integral part; the cast to 64 bits saturates.\<close>

definition capacity_as_u64 :: "int option option \<Rightarrow> u64" where
  "capacity_as_u64 c =
     (case c of
        Some u \<Rightarrow> (let x = unwrap_or u 0 in if x < 0 then 0 else if x \<ge> 2 ^ 64 then - 1 else word_of_int x)
      | None \<Rightarrow> 0)"

definition execute_dynamodb ::
  "'s dynamo_env \<Rightarrow> statement \<Rightarrow> 's \<Rightarrow> execute_result rpc_result \<times> 's" where
  "execute_dynamodb env stmt s =
     early (convert_parameters env (st_parameters stmt)) s (\<lambda>parameters.
       case de_execute_statement env (st_sql stmt) parameters s of
         (Inr output, s') \<Rightarrow>
           (Ok \<lparr>er_rows_affected = capacity_as_u64 (so_capacity_units output), er_error = None\<rparr>, s')
       | (Inl db_err, s') \<Rightarrow> (Ok \<lparr>er_rows_affected = 0, er_error = Some (to_sql_db_error (DbErr db_err))\<rparr>, s'))"

definition query_error :: "db_error \<Rightarrow> bytes query_result" where
  "query_error e = \<lparr>qr_num_rows = 0, qr_error = Some (to_sql_db_error e), qr_columns = [], qr_rows = []\<rparr>"

definition query_dynamodb ::
  "'s dynamo_env \<Rightarrow> statement \<Rightarrow> 's \<Rightarrow> bytes query_result rpc_result \<times> 's" where
  "query_dynamodb env stmt s =
     early (convert_parameters env (st_parameters stmt)) s (\<lambda>parameters.
       case de_execute_statement env (st_sql stmt) parameters s of
         (Inr output, s') \<Rightarrow>
           (case convert_rows env (so_items output) of
              Ok buf \<Rightarrow> (Ok \<lparr>qr_num_rows = capacity_as_u64 (so_capacity_units output), qr_error = None,
                            qr_columns = [], qr_rows = buf\<rparr>, s')
            | Err e \<Rightarrow> (Ok (query_error e), s')
            | Panic \<Rightarrow> (Panic, s'))
       | (Inl db_err, s') \<Rightarrow> (Ok (query_error (DbErr db_err)), s'))"

section \<open>The provider\<close>

type_synonym dynamo_config = aws_settings

definition default_dynamo_config :: dynamo_config where
  "default_dynamo_config = \<lparr>access_key_id = None, secret_access_key = None, session_token = None,
     region = None, max_attempts = None, sts_cfg = None, endpoint = None\<rparr>"

definition DEFAULT_STS_SESSION_DYNAMODB :: string where
  "DEFAULT_STS_SESSION_DYNAMODB = ''sqldb_dynamodb_provider''"

definition from_values_dynamodb ::
  "dynamo_config aws_env \<Rightarrow> link_values \<Rightarrow> env_vars \<Rightarrow> dynamo_config rpc_result \<times> env_vars" where
  "from_values_dynamodb env values vars = from_values env default_dynamo_config values vars"

definition configure_aws_dynamodb :: "(string \<Rightarrow> bool) \<Rightarrow> string option \<Rightarrow> dynamo_config \<Rightarrow> aws_client_config" where
  "configure_aws_dynamodb = configure_aws DEFAULT_STS_SESSION_DYNAMODB"

record sqldb_client =
  sq_config :: aws_client_config
  sq_ld :: "link_definition option"

definition new_sqldb_client ::
  "(string \<Rightarrow> bool) \<Rightarrow> string option \<Rightarrow> dynamo_config \<Rightarrow> link_definition option \<Rightarrow> sqldb_client" where
  "new_sqldb_client valid_endpoint default_region config ld =
     \<lparr>sq_config = configure_aws_dynamodb valid_endpoint default_region config, sq_ld = ld\<rparr>"

record dynamo_provider =
  dy_actors :: "string \<rightharpoonup> sqldb_client"
  dy_vars :: env_vars

definition client_dynamodb :: "dynamo_provider \<Rightarrow> ctx \<Rightarrow> sqldb_client rpc_result" where
  "client_dynamodb p ctx =
     rbind (ok_or (InvalidParameter ''no actor in request'') (ctx_actor ctx)) (\<lambda>actor_id.
       ok_or (InvalidParameter (''actor not linked:'' @ actor_id)) (dy_actors p actor_id))"

definition put_link_dynamodb ::
  "dynamo_config aws_env \<Rightarrow> (string \<Rightarrow> bool) \<Rightarrow> string option \<Rightarrow> link_definition \<Rightarrow> dynamo_provider \<Rightarrow>
   bool rpc_result \<times> dynamo_provider" where
  "put_link_dynamodb env valid_endpoint default_region ld p =
     (case from_values_dynamodb env (ld_values ld) (dy_vars p) of
        (Ok config, vars) \<Rightarrow>
          (Ok True, p\<lparr>dy_actors := (dy_actors p)(ld_actor_id ld \<mapsto>
              new_sqldb_client valid_endpoint default_region config (Some ld)), dy_vars := vars\<rparr>)
      | (Err e, vars) \<Rightarrow> (Err e, p\<lparr>dy_vars := vars\<rparr>)
      | (Panic, vars) \<Rightarrow> (Panic, p\<lparr>dy_vars := vars\<rparr>))"

definition delete_link_dynamodb :: "string \<Rightarrow> dynamo_provider \<Rightarrow> dynamo_provider" where
  "delete_link_dynamodb actor p = p\<lparr>dy_actors := (dy_actors p)(actor := None)\<rparr>"

definition shutdown_dynamodb :: "dynamo_provider \<Rightarrow> dynamo_provider" where
  "shutdown_dynamodb p = p\<lparr>dy_actors := Map.empty\<rparr>"

text \<open>The service a client talks to is \<open>env\<close> of its configuration.\<close>

definition execute_provider_dynamodb ::
  "(aws_client_config \<Rightarrow> 's dynamo_env) \<Rightarrow> dynamo_provider \<Rightarrow> ctx \<Rightarrow> statement \<Rightarrow> 's \<Rightarrow>
   execute_result rpc_result \<times> 's" where
  "execute_provider_dynamodb env p ctx stmt s =
     early (client_dynamodb p ctx) s (\<lambda>client. execute_dynamodb (env (sq_config client)) stmt s)"

definition query_provider_dynamodb ::
  "(aws_client_config \<Rightarrow> 's dynamo_env) \<Rightarrow> dynamo_provider \<Rightarrow> ctx \<Rightarrow> statement \<Rightarrow> 's \<Rightarrow>
   bytes query_result rpc_result \<times> 's" where
  "query_provider_dynamodb env p ctx stmt s =
     early (client_dynamodb p ctx) s (\<lambda>client. query_dynamodb (env (sq_config client)) stmt s)"

section \<open>Lemmas\<close>

text \<open>Values that survive JSON: no unknown variants, and text in the binary ones.\<close>

function representable :: "attribute_value \<Rightarrow> bool" where
  "representable (AB b) = valid_utf8 b"
| "representable (ABs bs) = list_all valid_utf8 bs"
| "representable (AL vs) = list_all representable vs"
| "representable (AM kvs) = list_all (\<lambda>kv. representable (snd kv)) kvs"
| "representable AUnknown = False"
| "representable (ABool b) = True"
| "representable (AN n) = True"
| "representable (ANs ns) = True"
| "representable (ANull b) = True"
| "representable (AS s) = True"
| "representable (ASs ss) = True"
  by pat_completeness auto
termination
  by (relation "measure size") (auto simp: less_Suc_eq_le size_list_estimation' size_AM [unfolded less_Suc_eq_le])

lemma traverse_Ok_map: "(\<And>x. x \<in> set xs \<Longrightarrow> f x = Ok (g x)) \<Longrightarrow> traverse f xs = Ok (map g xs)"
  by (induction xs) auto

lemma traverse_Ok_all:
  "traverse f xs = Ok ys \<longleftrightarrow> length ys = length xs \<and> (\<forall>i<length xs. f (xs ! i) = Ok (ys ! i))"
proof (induction xs arbitrary: ys)
  case (Cons x xs)
  then show ?case
    by (cases ys) (auto simp: rbind_Ok_iff All_less_Suc2)
qed auto

lemma map_text_of_JString: "map (text_of ts) (map JString ss) = ss"
  by (induction ss) (simp_all add: text_of_def)

lemma p2a_object [simp]:
  "parameter_to_attribute_value ts None (JObject [(k, v)]) = parameter_to_attribute_value ts (Some k) v"
  by (subst parameter_to_attribute_value.simps) simp

lemma attribute_value_roundtrip:
  "representable a \<Longrightarrow> \<exists>j. (attribute_value_to_json a :: ('e, json) rres) = Ok j \<and>
     (parameter_to_attribute_value ts None j :: ('f, attribute_value option) rres) = Ok (Some a)"
proof (induction a rule: representable.induct)
  case (2 bs)
  then have "(traverse (\<lambda>b. unwrap (from_utf8 b)) bs :: ('e, string list) rres) = Ok bs"
    using traverse_Ok_map [of bs "\<lambda>b. unwrap (from_utf8 b) :: ('e, string) rres" id] by (simp add: from_utf8_def list_all_iff)
  moreover have "(traverse (\<lambda>v. unwrap (as_str v)) (map JString bs) :: ('f, string list) rres) = Ok bs"
    by (induction bs) simp_all
  ultimately show ?case
    by (simp add: parameter_to_attribute_value.simps [of ts "Some ''BS''"])
next
  case (3 vs)
  then have "\<forall>v\<in>set vs. \<exists>j. (attribute_value_to_json v :: ('e, json) rres) = Ok j \<and>
      (parameter_to_attribute_value ts None j :: ('f, attribute_value option) rres) = Ok (Some v)"
    by (simp add: list_all_iff)
  then obtain g where g: "\<And>v. v \<in> set vs \<Longrightarrow> (attribute_value_to_json v :: ('e, json) rres) = Ok (g v) \<and>
      (parameter_to_attribute_value ts None (g v) :: ('f, attribute_value option) rres) = Ok (Some v)"
    by metis
  have 1: "(traverse attribute_value_to_json vs :: ('e, json list) rres) = Ok (map g vs)"
    by (rule traverse_Ok_map) (simp add: g)
  have "(traverse (\<lambda>v. parameter_to_attribute_value ts None v) (map g vs) :: ('f, attribute_value option list) rres) = Ok (map Some vs)"
    using g by (induction vs) auto
  moreover have "List.map_filter id (map Some vs) = vs"
    by (induction vs) (simp_all add: map_filter_simps)
  ultimately show ?case using 1
    by (simp add: parameter_to_attribute_value.simps [of ts "Some ''L''"])
next
  case (4 kvs)
  then have "\<forall>kv\<in>set kvs. \<exists>j. (attribute_value_to_json (snd kv) :: ('e, json) rres) = Ok j \<and>
      (parameter_to_attribute_value ts None j :: ('f, attribute_value option) rres) = Ok (Some (snd kv))"
    by (simp add: list_all_iff)
  then obtain g where g: "\<And>kv. kv \<in> set kvs \<Longrightarrow> (attribute_value_to_json (snd kv) :: ('e, json) rres) = Ok (g kv) \<and>
      (parameter_to_attribute_value ts None (g kv) :: ('f, attribute_value option) rres) = Ok (Some (snd kv))"
    by metis
  have 1: "(traverse (\<lambda>kv. rbind (attribute_value_to_json (snd kv)) (\<lambda>j. Ok (fst kv, j))) kvs :: ('e, (string \<times> json) list) rres) =
      Ok (map (\<lambda>kv. (fst kv, g kv)) kvs)"
    by (rule traverse_Ok_map) (simp add: g)
  have "(traverse (\<lambda>kv. rbind (rbind (parameter_to_attribute_value ts None (snd kv)) unwrap) (\<lambda>a. Ok (fst kv, a)))
      (map (\<lambda>kv. (fst kv, g kv)) kvs) :: ('f, (string \<times> attribute_value) list) rres) = Ok kvs"
    using g by (induction kvs) auto
  with 1 show ?case
    by (simp add: parameter_to_attribute_value.simps [of ts "Some ''M''"])
qed (auto simp: from_utf8_def map_text_of_JString simp del: map_map
    simp: parameter_to_attribute_value.simps [of ts "Some _"])

section \<open>Links\<close>

definition dy_link_of :: "dynamo_provider \<Rightarrow> string \<Rightarrow> link_definition option" where
  "dy_link_of p a = Option.bind (dy_actors p a) sq_ld"

definition dy_accept :: "dynamo_config aws_env \<Rightarrow> link_definition \<Rightarrow> link_definition option" where
  "dy_accept env ld = (if config_accepted env (ld_values ld) then Some ld else None)"

interpretation dy: link_registry dy_link_of "\<lambda>(ld :: link_definition) p. snd (put_link_dynamodb env ve dr ld p)"
  "dy_accept env" delete_link_dynamodb shutdown_dynamodb for env ve dr
proof unfold_locales
  fix ld :: link_definition and p :: dynamo_provider and a
  let ?r = "from_values_dynamodb env (ld_values ld) (dy_vars p)"
  have "(\<exists>c. fst ?r = Ok c) \<longleftrightarrow> config_accepted env (ld_values ld)" by (simp add: from_values_dynamodb_def from_values_Ok_iff)
  moreover have "fst ?r \<noteq> Panic" by (simp add: from_values_dynamodb_def from_values_not_Panic)
  ultimately show "dy_link_of (snd (put_link_dynamodb env ve dr ld p)) a =
      (if a = ld_actor_id ld then or_else (dy_accept env ld) (dy_link_of p a) else dy_link_of p a)"
    by (cases "fst ?r"; cases "?r")
      (auto simp: dy_link_of_def put_link_dynamodb_def dy_accept_def new_sqldb_client_def)
qed (auto simp: dy_link_of_def delete_link_dynamodb_def shutdown_dynamodb_def)

section \<open>Properties\<close>

text \<open>C35: what a query returns can be sent back: an attribute value without unknown variants and with
  text in its binary parts becomes a JSON value whose text, sent as a parameter, is read as that same
  attribute value, however deeply lists and maps are nested.\<close>
theorem dynamodb_value_roundtrip:
  assumes "list_all representable vs"
    and "\<forall>v\<in>set vs. \<forall>j. (attribute_value_to_json v :: (db_error, json) rres) = Ok j \<longrightarrow>
       de_json_from_slice env (de_json_to_string env j) = Inr j"
  shows "\<exists>js. (traverse attribute_value_to_json vs :: (db_error, json list) rres) = Ok js \<and>
     convert_parameters env (Some (map (de_json_to_string env) js)) = Ok (Some vs)"
proof -
  let ?to = "attribute_value_to_json :: attribute_value \<Rightarrow> (db_error, json) rres"
  let ?from = "\<lambda>j. parameter_to_attribute_value (de_json_to_string env) None j :: (rpc_error, attribute_value option) rres"
  have "\<forall>v\<in>set vs. \<exists>j. ?to v = Ok j \<and> ?from j = Ok (Some v)"
    using assms(1) attribute_value_roundtrip by (fastforce simp: list_all_iff)
  then obtain g where g: "\<And>v. v \<in> set vs \<Longrightarrow> ?to v = Ok (g v) \<and> ?from (g v) = Ok (Some v)"
    by metis
  have "traverse ?to vs = Ok (map g vs)" by (rule traverse_Ok_map) (simp add: g)
  moreover have "traverse (\<lambda>parameter.
        rbind (map_err (\<lambda>e. InvalidParameter (''parameter '' @ de_debug_param env parameter @
                  '' has invalid json format '' @ e)) (de_json_from_slice env parameter)) (\<lambda>json_value.
        rbind (?from json_value)
          (ok_or (InvalidParameter (''parameter '' @ de_debug_param env parameter @ '' has unknown type'')))))
      (map (de_json_to_string env) (map g vs)) = Ok vs"
    using g assms(2) by (induction vs) auto
  ultimately show ?thesis by (simp add: convert_parameters_def)
qed

definition sample_dynamo_env :: "nat dynamo_env" where
  "sample_dynamo_env = \<lparr>
     de_json_from_slice = (\<lambda>s. if s = ''doc'' then Inr (JObject [(''L'', JArray [JObject [(''S'', JString ''a'')], JObject [(''BOOL'', JBool True)]])])
        else Inl ''bad''),
     de_json_to_string = (\<lambda>_. ''doc''), de_debug_param = id, de_cbor_encode = (\<lambda>s. Inr []),
     de_execute_statement = (\<lambda>sql ps s. (Inr \<lparr>so_items = Some [[(''k'', AS ''a'')], [(''k'', AS ''b'')]],
        so_capacity_units = Some (Some 0)\<rparr>, s + 1))\<rparr>"

theorem dynamodb_value_roundtrip_witness:
  "\<exists>js. convert_parameters sample_dynamo_env (Some (map (de_json_to_string sample_dynamo_env) js)) =
     Ok (Some [AL [AS ''a'', ABool True]])"
proof -
  have "list_all representable [AL [AS ''a'', ABool True]]" by simp
  moreover have "\<forall>v\<in>set [AL [AS ''a'', ABool True]]. \<forall>j. (attribute_value_to_json v :: (db_error, json) rres) = Ok j \<longrightarrow>
      de_json_from_slice sample_dynamo_env (de_json_to_string sample_dynamo_env j) = Inr j"
    by (simp add: sample_dynamo_env_def)
  ultimately show ?thesis using dynamodb_value_roundtrip [of "[AL [AS ''a'', ABool True]]" sample_dynamo_env] by blast
qed

text \<open>A parameter with a member of an unknown type is treated in three ways: as a parameter of its
  own it is refused, in a list the member is silently left out and the statement runs without it, and
  in a map or a binary set the provider's task aborts.\<close>

theorem dynamodb_unknown_members:
  "parameter_to_attribute_value ts None (JObject [(''X'', JString s)]) = Ok None \<and>
   parameter_to_attribute_value ts None (JObject [(''L'', JArray [JObject [(''S'', JString t)], JObject [(''X'', JString s)]])]) =
     Ok (Some (AL [AS t])) \<and>
   parameter_to_attribute_value ts None (JObject [(''M'', JObject [(k, JObject [(''X'', JString s)])])]) = Panic \<and>
   parameter_to_attribute_value ts None (JObject [(''BS'', JArray [JNumber n])]) = Panic"
  by (simp add: parameter_to_attribute_value.simps [of ts "Some _"] map_filter_simps)

text \<open>A query that succeeds reports as its number of rows the consumed capacity, not how many rows
  it returns.\<close>

theorem query_dynamodb_num_rows:
  assumes "convert_parameters env (st_parameters stmt) = Ok ps"
    and "de_execute_statement env (st_sql stmt) ps s = (Inr out, s')" and "convert_rows env (so_items out) = Ok buf"
  shows "\<exists>r. query_dynamodb env stmt s = (Ok r, s') \<and> qr_error r = None \<and> qr_rows r = buf \<and>
     qr_num_rows r = capacity_as_u64 (so_capacity_units out)"
  using assms by (simp add: query_dynamodb_def)

theorem query_dynamodb_num_rows_witness:
  "\<exists>r. fst (query_dynamodb sample_dynamo_env \<lparr>st_database = None, st_parameters = None, st_sql = ''q''\<rparr> 0) = Ok r \<and>
     qr_num_rows r = 0"
proof -
  let ?out = "\<lparr>so_items = Some [[(''k'', AS ''a'')], [(''k'', AS ''b'')]], so_capacity_units = Some (Some 0)\<rparr>"
  let ?stmt = "\<lparr>st_database = None, st_parameters = None, st_sql = ''q''\<rparr>"
  have "convert_parameters sample_dynamo_env (st_parameters ?stmt) = Ok None" by (simp add: convert_parameters_def)
  moreover have "de_execute_statement sample_dynamo_env (st_sql ?stmt) None 0 = (Inr ?out, 1)"
    by (simp add: sample_dynamo_env_def)
  moreover have "convert_rows sample_dynamo_env (so_items ?out) = Ok []"
    by (simp add: convert_rows_def sample_dynamo_env_def)
  ultimately show ?thesis
    using query_dynamodb_num_rows [of sample_dynamo_env ?stmt None 0 ?out 1 "[]"] by (auto simp: capacity_as_u64_def)
qed

end
