(* ===== verification/Sqldb_Postgres.thy ===== *)
theory Sqldb_Postgres
  imports Sqldb_Interface Link_Registry
begin

text \<open>
  \<open>sqldb-postgres/src\<close>: statements run on a connection pool per link; rows are encoded as a CBOR
  array of arrays (\<open>types.rs\<close>), one item per value.

  The database is a state \<open>'s\<close>; connecting, running statements and reading a value of a row as a Rust
  type are the fields of \<open>pg_env\<close>; \<open>'v\<close> is the type of raw values. The CBOR output is the
  sequence of items written to the encoder.
\<close>

section \<open>Configuration\<close>

record pool_options =
  po_max_connections :: "u32 option"
  po_min_idle :: "u32 option"
  po_max_lifetime_secs :: "u32 option"
  po_idle_timeout_secs :: "u32 option"
  po_connection_timeout_millis :: "u32 option"

record pg_config =
  pg_uri :: string
  pg_root_cert :: "string option"
  pg_pool :: pool_options

definition default_pg_config :: pg_config where
  "default_pg_config = \<lparr>pg_uri = [], pg_root_cert = None, pg_pool = \<lparr>po_max_connections = None,
     po_min_idle = None, po_max_lifetime_secs = None, po_idle_timeout_secs = None,
     po_connection_timeout_millis = None\<rparr>\<rparr>"

definition DEFAULT_MAX_CONNECTIONS :: u32 where "DEFAULT_MAX_CONNECTIONS = 8"
definition DEFAULT_MIN_IDLE :: u32 where "DEFAULT_MIN_IDLE = 0"
definition DEFAULT_MAX_LIFETIME_SEC :: u32 where "DEFAULT_MAX_LIFETIME_SEC = 7200"
definition DEFAULT_IDLE_TIMEOUT_SEC :: u32 where "DEFAULT_IDLE_TIMEOUT_SEC = 600"
definition DEFAULT_CONNECTION_TIMEOUT_MILLIS :: u32 where "DEFAULT_CONNECTION_TIMEOUT_MILLIS = 1000"
definition DEFAULT_KEEPALIVE_IDLE :: nat where "DEFAULT_KEEPALIVE_IDLE = 15 * 60"

record pool_settings =
  ps_uri :: string
  ps_keepalives_idle :: nat
  ps_max_size :: u32
  ps_min_idle :: "u32 option"
  ps_max_lifetime_secs :: "nat option"
  ps_idle_timeout_secs :: "nat option"
  ps_connection_timeout_millis :: nat

section \<open>Values\<close>

datatype pg_type =
    BOOL | CHAR_TYPE | INT2 | INT4 | INT8 | OID | FLOAT4 | FLOAT8
  | CHAR_ARRAY | VARCHAR | TEXT | NAME | UNKNOWN | JSON | XID | CID | XML
  | BYTEA | UUID | TIMESTAMP | TIMESTAMPTZ | DATE | TIME | INET | BIT | VARBIT
  | OtherType string

text \<open>
  The Rust types a value is read as, and what reading one gives. A float is its bit pattern; a
  value that is printed is read as its text, and a bit vector as its bytes. A time stamp is read as a
  number, the argument of \<open>from_timestamp_opt\<close>.
\<close>

datatype rust_type = RBoolT | RI16 | RI32 | RI64 | RU32 | RF32 | RF64 | RStr | RBytes | RUuid | RDate | RTime | RIpAddr | RBitVec

datatype cbor_item =
    CArray u64
  | CBool bool
  | CI16 int
  | CI32 int
  | CI64 int
  | CU32 u32
  | CF32 u32
  | CF64 u64
  | CStr string
  | CBytes bytes

datatype rust_value =
    VBool bool
  | VI16 int
  | VI32 int
  | VI64 int
  | VU32 u32
  | VF32 u32
  | VF64 u64
  | VText string
  | VBytes bytes

record 'v pg_row =
  row_columns :: "(string \<times> pg_type) list"
  row_values :: "'v list"

record ('s, 'v, 'p) pg_env =
  pe_b64_decode :: "string \<Rightarrow> string + string"
  pe_from_json :: "string \<Rightarrow> string + pg_config"
  pe_parse_uri :: "string \<Rightarrow> string + unit"
  pe_build_pool :: "pool_settings \<Rightarrow> string + 'p"
  pe_get_conn :: "'p \<Rightarrow> 's \<Rightarrow> string + unit"
  pe_execute :: "'p \<Rightarrow> string \<Rightarrow> 's \<Rightarrow> (string + u64) \<times> 's"
  pe_query :: "'p \<Rightarrow> string \<Rightarrow> 's \<Rightarrow> (string + 'v pg_row list) \<times> 's"
  pe_get :: "rust_type \<Rightarrow> pg_type \<Rightarrow> 'v \<Rightarrow> rust_value option"
  pe_timestamp :: "int \<Rightarrow> string option"
  pe_type_name :: "pg_type \<Rightarrow> string"

definition load_config :: "('s, 'v, 'p) pg_env \<Rightarrow> link_definition \<Rightarrow> pg_config rpc_result" where
  "load_config env ld =
     rbind (case hm_get (ld_values ld) ''config_b64'' of
              None \<Rightarrow> Ok default_pg_config
            | Some cj \<Rightarrow>
                rbind (map_err (\<lambda>_. ProviderInit ''invalid config_base64 encoding'') (pe_b64_decode env cj)) (\<lambda>b.
                  map_err (\<lambda>e. ProviderInit (''invalid json config: '' @ e)) (pe_from_json env b))) (\<lambda>config1.
     rbind (case hm_get (ld_values ld) ''config_json'' of
              None \<Rightarrow> Ok config1
            | Some cj \<Rightarrow> map_err (\<lambda>e. ProviderInit (''invalid json config: '' @ e)) (pe_from_json env cj)) (\<lambda>config2.
       let config = (case hm_get (ld_values ld) ''uri'' of Some uri \<Rightarrow> config2\<lparr>pg_uri := uri\<rparr> | None \<Rightarrow> config2)
       in if pg_uri config = [] then Err (ProviderInit (''link params values are missing '' @ quoted ''uri''))
          else Ok config))"

definition create_pool :: "('s, 'v, 'p) pg_env \<Rightarrow> pg_config \<Rightarrow> 'p rpc_result" where
  "create_pool env config =
     rbind (map_err (\<lambda>e. ProviderInit (''Invalid db connect string: '' @ e)) (pe_parse_uri env (pg_uri config))) (\<lambda>_.
       map_err (\<lambda>e. ProviderInit (''initializing db connection pool: '' @ e)) (pe_build_pool env
         \<lparr>ps_uri = pg_uri config, ps_keepalives_idle = DEFAULT_KEEPALIVE_IDLE,
          ps_max_size = unwrap_or (po_max_connections (pg_pool config)) DEFAULT_MAX_CONNECTIONS,
          ps_min_idle = Some (unwrap_or (po_min_idle (pg_pool config)) DEFAULT_MIN_IDLE),
          ps_max_lifetime_secs = Some (unat (unwrap_or (po_max_lifetime_secs (pg_pool config)) DEFAULT_MAX_LIFETIME_SEC)),
          ps_idle_timeout_secs = Some (unat (unwrap_or (po_idle_timeout_secs (pg_pool config)) DEFAULT_IDLE_TIMEOUT_SEC)),
          ps_connection_timeout_millis =
            unat (unwrap_or (po_connection_timeout_millis (pg_pool config)) DEFAULT_CONNECTION_TIMEOUT_MILLIS)\<rparr>))"

section \<open>Encoding\<close>

definition rust_type_of :: "pg_type \<Rightarrow> rust_type" where
  "rust_type_of ty =
     (case ty of
        BOOL \<Rightarrow> RBoolT | CHAR_TYPE \<Rightarrow> RI16 | INT2 \<Rightarrow> RI16 | INT4 \<Rightarrow> RI32 | INT8 \<Rightarrow> RI64 | OID \<Rightarrow> RU32
      | FLOAT4 \<Rightarrow> RF32 | FLOAT8 \<Rightarrow> RF64
      | CHAR_ARRAY \<Rightarrow> RStr | VARCHAR \<Rightarrow> RStr | TEXT \<Rightarrow> RStr | NAME \<Rightarrow> RStr | UNKNOWN \<Rightarrow> RStr | JSON \<Rightarrow> RStr
      | XID \<Rightarrow> RStr | CID \<Rightarrow> RStr | XML \<Rightarrow> RStr
      | BYTEA \<Rightarrow> RBytes | UUID \<Rightarrow> RUuid | TIMESTAMP \<Rightarrow> RI64 | TIMESTAMPTZ \<Rightarrow> RI64
      | DATE \<Rightarrow> RDate | TIME \<Rightarrow> RTime | INET \<Rightarrow> RIpAddr | BIT \<Rightarrow> RBitVec | VARBIT \<Rightarrow> RBitVec
      | OtherType _ \<Rightarrow> RBytes)"

definition cbor_of :: "('s, 'v, 'p) pg_env \<Rightarrow> pg_type \<Rightarrow> rust_value \<Rightarrow> cbor_item" where
  "cbor_of env ty v =
     (case v of VBool b \<Rightarrow> CBool b | VI16 i \<Rightarrow> CI16 i | VI32 i \<Rightarrow> CI32 i
      | VI64 i \<Rightarrow> (if ty = TIMESTAMP \<or> ty = TIMESTAMPTZ then CStr (unwrap_or (pe_timestamp env i) []) else CI64 i)
      | VU32 u \<Rightarrow> CU32 u | VF32 f \<Rightarrow> CF32 f | VF64 f \<Rightarrow> CF64 f | VText s \<Rightarrow> CStr s | VBytes b \<Rightarrow> CBytes b)"

text \<open>\<open>row.get\<close> aborts when the value cannot be read as the type that is asked for. The only other error, of
  writing to the buffer, has a text; a buffer in memory has none.\<close>

definition encode_val :: "('s, 'v, 'p) pg_env \<Rightarrow> pg_type \<Rightarrow> 'v \<Rightarrow> (string, cbor_item) rres" where
  "encode_val env ty v = rbind (unwrap (pe_get env (rust_type_of ty) ty v)) (\<lambda>x. Ok (cbor_of env ty x))"

definition encode_row :: "('s, 'v, 'p) pg_env \<Rightarrow> 'v pg_row \<Rightarrow> (string, cbor_item list) rres" where
  "encode_row env row =
     rbind (traverse (\<lambda>(col, v). encode_val env (snd col) v) (zip (row_columns row) (row_values row))) (\<lambda>items.
       Ok (CArray (of_nat (length (row_columns row))) # items))"

definition encode_rows :: "('s, 'v, 'p) pg_env \<Rightarrow> 'v pg_row list \<Rightarrow> (string, cbor_item list) rres" where
  "encode_rows env rows =
     rbind (traverse (encode_row env) rows) (\<lambda>rs. Ok (CArray (of_nat (length rows)) # concat rs))"

definition encode_result_set :: "('s, 'v, 'p) pg_env \<Rightarrow> 'v pg_row list \<Rightarrow> (db_error, cbor_item list) rres" where
  "encode_result_set env rows =
     (case encode_rows env rows of Ok buf \<Rightarrow> Ok buf | Err e \<Rightarrow> Err (EncodingErr e) | Panic \<Rightarrow> Panic)"

section \<open>The provider\<close>

type_synonym 'p pg_provider = "string \<rightharpoonup> 'p"

definition put_link_postgres ::
  "('s, 'v, 'p) pg_env \<Rightarrow> link_definition \<Rightarrow> 'p pg_provider \<Rightarrow> bool rpc_result \<times> 'p pg_provider" where
  "put_link_postgres env ld p =
     early (load_config env ld) p (\<lambda>config.
     early (create_pool env config) p (\<lambda>pool. (Ok True, p(ld_actor_id ld \<mapsto> pool))))"

definition delete_link_postgres :: "string \<Rightarrow> 'p pg_provider \<Rightarrow> 'p pg_provider" where
  "delete_link_postgres actor p = p(actor := None)"

definition shutdown_postgres :: "'p pg_provider \<Rightarrow> 'p pg_provider" where
  "shutdown_postgres p = Map.empty"

definition actor_id :: "ctx \<Rightarrow> string rpc_result" where
  "actor_id ctx = ok_or (InvalidParameter ''no actor in request'') (ctx_actor ctx)"

definition pool_for :: "'p pg_provider \<Rightarrow> ctx \<Rightarrow> 'p rpc_result" where
  "pool_for p ctx = rbind (actor_id ctx) (\<lambda>a. ok_or (InvalidParameter (''actor not linked:'' @ a)) (p a))"

definition execute_postgres ::
  "('s, 'v, 'p) pg_env \<Rightarrow> 'p pg_provider \<Rightarrow> ctx \<Rightarrow> statement \<Rightarrow> 's \<Rightarrow> execute_result rpc_result \<times> 's" where
  "execute_postgres env p ctx stmt s =
     early (pool_for p ctx) s (\<lambda>pool.
     early (map_err (\<lambda>_. Other ''failed to get connection from pool'') (pe_get_conn env pool s)) s (\<lambda>_.
       case pe_execute env pool (st_sql stmt) s of
         (Inr res, s') \<Rightarrow> (Ok \<lparr>er_rows_affected = res, er_error = None\<rparr>, s')
       | (Inl db_err, s') \<Rightarrow> (Ok \<lparr>er_rows_affected = 0, er_error = Some (to_sql_db_error (DbErr db_err))\<rparr>, s')))"

definition columns_of :: "('s, 'v, 'p) pg_env \<Rightarrow> 'v pg_row \<Rightarrow> column list" where
  "columns_of env row = map (\<lambda>(i, name, ty). \<lparr>col_ordinal = of_nat i, col_name = name, col_db_type = pe_type_name env ty\<rparr>)
     (enumerate 0 (row_columns row))"

definition default_query_result :: "cbor_item list query_result" where
  "default_query_result = \<lparr>qr_num_rows = 0, qr_error = None, qr_columns = [], qr_rows = []\<rparr>"

definition query_postgres ::
  "('s, 'v, 'p) pg_env \<Rightarrow> 'p pg_provider \<Rightarrow> ctx \<Rightarrow> statement \<Rightarrow> 's \<Rightarrow> cbor_item list query_result rpc_result \<times> 's" where
  "query_postgres env p ctx stmt s =
     early (pool_for p ctx) s (\<lambda>pool.
     early (map_err (\<lambda>_. Other ''failed to get connection from pool'') (pe_get_conn env pool s)) s (\<lambda>_.
       case pe_query env pool (st_sql stmt) s of
         (Inr [], s') \<Rightarrow> (Ok default_query_result, s')
       | (Inr (row # rows), s') \<Rightarrow>
           (case encode_result_set env (row # rows) of
              Ok buf \<Rightarrow> (Ok \<lparr>qr_num_rows = of_nat (length (row # rows)), qr_error = None,
                            qr_columns = columns_of env row, qr_rows = buf\<rparr>, s')
            | Err e \<Rightarrow> (Ok (default_query_result\<lparr>qr_error := Some (to_sql_db_error e)\<rparr>), s')
            | Panic \<Rightarrow> (Panic, s'))
       | (Inl db_err, s') \<Rightarrow>
           (Ok (default_query_result\<lparr>qr_error := Some (to_sql_db_error (DbErr db_err))\<rparr>), s')))"

section \<open>Links\<close>

definition pg_accept :: "('s, 'v, 'p) pg_env \<Rightarrow> link_definition \<Rightarrow> 'p option" where
  "pg_accept env ld = (case rbind (load_config env ld) (create_pool env) of Ok pool \<Rightarrow> Some pool | _ \<Rightarrow> None)"

interpretation pg: link_service "\<lambda>p. p" "\<lambda>ld p. snd (put_link_postgres env ld p)" "pg_accept env"
  delete_link_postgres shutdown_postgres pool_for not_linked for env
proof unfold_locales
  fix ld :: link_definition and p :: "'a pg_provider" and a
  show "snd (put_link_postgres env ld p) a = (if a = ld_actor_id ld then or_else (pg_accept env ld) (p a) else p a)"
  proof (cases "load_config env ld")
    case (Ok config)
    then show ?thesis
      by (cases "create_pool env config") (auto simp: put_link_postgres_def pg_accept_def)
  qed (auto simp: put_link_postgres_def pg_accept_def)
qed (auto simp: delete_link_postgres_def shutdown_postgres_def pool_for_def actor_id_def no_actor_def not_linked_def)

section \<open>Decoding\<close>

text \<open>The reader an actor needs: an array of arrays of single items.\<close>

fun decode_items :: "nat \<Rightarrow> cbor_item list \<Rightarrow> (cbor_item list \<times> cbor_item list) option" where
  "decode_items 0 cs = Some ([], cs)"
| "decode_items (Suc n) [] = None"
| "decode_items (Suc n) (CArray k # cs) = None"
| "decode_items (Suc n) (c # cs) = map_option (\<lambda>(xs, r). (c # xs, r)) (decode_items n cs)"

fun decode_arrays :: "nat \<Rightarrow> cbor_item list \<Rightarrow> (cbor_item list list \<times> cbor_item list) option" where
  "decode_arrays 0 cs = Some ([], cs)"
| "decode_arrays (Suc n) (CArray k # cs) =
     (case decode_items (unat k) cs of
        None \<Rightarrow> None
      | Some (xs, r) \<Rightarrow> map_option (\<lambda>(xss, r'). (xs # xss, r')) (decode_arrays n r))"
| "decode_arrays (Suc n) cs = None"

fun decode_rows :: "cbor_item list \<Rightarrow> cbor_item list list option" where
  "decode_rows (CArray n # cs) =
     (case decode_arrays (unat n) cs of Some (xss, []) \<Rightarrow> Some xss | _ \<Rightarrow> None)"
| "decode_rows cs = None"

definition scalar :: "cbor_item \<Rightarrow> bool" where
  "scalar c \<longleftrightarrow> (\<forall>n. c \<noteq> CArray n)"

lemma scalar_cbor_of [simp]: "scalar (cbor_of env ty v)"
  by (cases v) (simp_all add: scalar_def cbor_of_def)

lemma decode_items_append:
  "list_all scalar xs \<Longrightarrow> decode_items (length xs) (xs @ r) = Some (xs, r)"
proof (induction xs)
  case (Cons x xs)
  then show ?case by (cases x) (simp_all add: scalar_def)
qed simp

lemma decode_arrays_append:
  assumes "\<forall>xs\<in>set xss. list_all scalar xs \<and> length xs < 2 ^ 64"
  shows "decode_arrays (length xss) (concat (map (\<lambda>xs. CArray (of_nat (length xs)) # xs) xss) @ r) = Some (xss, r)"
  using assms by (induction xss) (auto simp: unat_of_nat_u64 decode_items_append)

definition row_ok :: "'v pg_row \<Rightarrow> bool" where
  "row_ok row \<longleftrightarrow> length (row_columns row) = length (row_values row) \<and> length (row_columns row) < 2 ^ 64"

lemma traverse_scalar:
  assumes "traverse (\<lambda>(col, v). encode_val env (snd col) v) zs = Ok items"
  shows "list_all scalar items" "length items = length zs"
  using assms
  by (induction zs arbitrary: items) (auto simp: rbind_Ok_iff encode_val_def)

lemma encode_row_Ok:
  assumes "encode_row env row = Ok items" "row_ok row"
  obtains xs where "items = CArray (of_nat (length xs)) # xs" "list_all scalar xs" "length xs = length (row_values row)"
    "length xs < 2 ^ 64"
    "traverse (\<lambda>(col, v). encode_val env (snd col) v) (zip (row_columns row) (row_values row)) = Ok xs"
  using assms traverse_scalar [of env "zip (row_columns row) (row_values row)"]
  by (auto simp: encode_row_def rbind_Ok_iff row_ok_def)

text \<open>The cells of a row as the items they are encoded to.\<close>

definition row_items :: "('s, 'v, 'p) pg_env \<Rightarrow> 'v pg_row \<Rightarrow> cbor_item list" where
  "row_items env row = map (\<lambda>(col, v). cbor_of env (snd col) (the (pe_get env (rust_type_of (snd col)) (snd col) v)))
     (zip (row_columns row) (row_values row))"

lemma traverse_row_items:
  "traverse (\<lambda>(col, v). encode_val env (snd col) v) zs = Ok xs \<Longrightarrow>
     xs = map (\<lambda>(col, v). cbor_of env (snd col) (the (pe_get env (rust_type_of (snd col)) (snd col) v))) zs"
proof (induction zs arbitrary: xs)
  case (Cons z zs)
  then show ?case
    by (cases z; cases "pe_get env (rust_type_of (snd (fst z))) (snd (fst z)) (snd z)")
      (auto simp: rbind_Ok_iff encode_val_def)
qed simp

lemma encode_rows_shape:
  assumes "traverse (encode_row env) rows = Ok rs" "list_all row_ok rows"
  shows "concat rs = concat (map (\<lambda>xs. CArray (of_nat (length xs)) # xs) (map (row_items env) rows))"
    and "\<forall>xs\<in>set (map (row_items env) rows). list_all scalar xs \<and> length xs < 2 ^ 64"
proof -
  have "concat rs = concat (map (\<lambda>xs. CArray (of_nat (length xs)) # xs) (map (row_items env) rows)) \<and>
    (\<forall>xs\<in>set (map (row_items env) rows). list_all scalar xs \<and> length xs < 2 ^ 64)"
    using assms
  proof (induction rows arbitrary: rs)
    case (Cons row rows)
    then obtain items rs' where i: "encode_row env row = Ok items" "traverse (encode_row env) rows = Ok rs'" "rs = items # rs'"
      by (auto simp: rbind_Ok_iff)
    have "row_ok row" using Cons.prems by simp
    then obtain xs where xs: "items = CArray (of_nat (length xs)) # xs" "list_all scalar xs" "length xs < 2 ^ 64"
        "traverse (\<lambda>(col, v). encode_val env (snd col) v) (zip (row_columns row) (row_values row)) = Ok xs"
      using i(1) by (elim encode_row_Ok)
    have "xs = row_items env row" unfolding row_items_def by (rule traverse_row_items [OF xs(4)])
    with xs i Cons.IH [OF i(2)] Cons.prems show ?case by simp
  qed simp
  then show "concat rs = concat (map (\<lambda>xs. CArray (of_nat (length xs)) # xs) (map (row_items env) rows))"
    "\<forall>xs\<in>set (map (row_items env) rows). list_all scalar xs \<and> length xs < 2 ^ 64" by blast+
qed

lemma traverse_Panic:
  "x \<in> set xs \<Longrightarrow> f x = Panic \<Longrightarrow> (\<And>y. y \<in> set xs \<Longrightarrow> \<nexists>e. f y = Err e) \<Longrightarrow> traverse f xs = Panic"
proof (induction xs)
  case (Cons y ys)
  show ?case
  proof (cases "f y")
    case (Ok z)
    then have "x \<in> set ys" using Cons.prems by auto
    with Cons Ok show ?thesis by simp
  qed (use Cons.prems in auto)
qed simp

lemma postgres_decoded:
  assumes "encode_rows env rows = Ok items" and "list_all row_ok rows" and "length rows < 2 ^ 64"
  shows "decode_rows items = Some (map (row_items env) rows)"
proof -
  obtain rs where rs: "traverse (encode_row env) rows = Ok rs" "items = CArray (of_nat (length rows)) # concat rs"
    using assms(1) by (auto simp: encode_rows_def rbind_Ok_iff)
  note shape = encode_rows_shape [OF rs(1) assms(2)]
  have "decode_arrays (length (map (row_items env) rows)) (concat rs @ []) = Some (map (row_items env) rows, [])"
    unfolding shape(1) by (rule decode_arrays_append [OF shape(2)])
  then show ?thesis using rs(2) unat_of_nat_u64 [OF assms(3)] by simp
qed

section \<open>Types\<close>

text \<open>
  What the database crate documents of reading: which columns can be read as which Rust type (the
  table of its \<open>FromSql\<close> trait), that a read gives a value of that type, and that it fails for every
  other column.
\<close>

definition accepts :: "rust_type \<Rightarrow> pg_type \<Rightarrow> bool" where
  "accepts rt ty =
     (case rt of
        RBoolT \<Rightarrow> ty = BOOL | RI16 \<Rightarrow> ty = INT2 | RI32 \<Rightarrow> ty = INT4 | RI64 \<Rightarrow> ty = INT8 | RU32 \<Rightarrow> ty = OID
      | RF32 \<Rightarrow> ty = FLOAT4 | RF64 \<Rightarrow> ty = FLOAT8
      | RStr \<Rightarrow> ty \<in> {VARCHAR, TEXT, NAME, UNKNOWN} \<union> OtherType ` {''bpchar'', ''citext'', ''ltree'', ''lquery'', ''ltxtquery''}
      | RBytes \<Rightarrow> ty = BYTEA | RUuid \<Rightarrow> ty = UUID | RDate \<Rightarrow> ty = DATE | RTime \<Rightarrow> ty = TIME | RIpAddr \<Rightarrow> ty = INET
      | RBitVec \<Rightarrow> ty = BIT \<or> ty = VARBIT)"

fun has_rust_type :: "rust_value \<Rightarrow> rust_type \<Rightarrow> bool" where
  "has_rust_type (VBool b) rt = (rt = RBoolT)"
| "has_rust_type (VI16 i) rt = (rt = RI16)"
| "has_rust_type (VI32 i) rt = (rt = RI32)"
| "has_rust_type (VI64 i) rt = (rt = RI64)"
| "has_rust_type (VU32 u) rt = (rt = RU32)"
| "has_rust_type (VF32 f) rt = (rt = RF32)"
| "has_rust_type (VF64 f) rt = (rt = RF64)"
| "has_rust_type (VText s) rt = (rt \<in> {RStr, RUuid, RDate, RTime, RIpAddr})"
| "has_rust_type (VBytes b) rt = (rt \<in> {RBytes, RBitVec})"

text \<open>\<open>value_of ty v\<close> says that \<open>v\<close> is a value of a column of that type, so not NULL.\<close>

definition documented_reads :: "('s, 'v, 'p) pg_env \<Rightarrow> (pg_type \<Rightarrow> 'v \<Rightarrow> bool) \<Rightarrow> bool" where
  "documented_reads env value_of \<longleftrightarrow>
     (\<forall>rt ty v. if accepts rt ty
        then value_of ty v \<longrightarrow> (\<exists>x. pe_get env rt ty v = Some x \<and> has_rust_type x rt)
        else pe_get env rt ty v = None)"

definition encodable_types :: "pg_type set" where
  "encodable_types = {BOOL, INT2, INT4, INT8, OID, FLOAT4, FLOAT8, VARCHAR, TEXT, NAME, UNKNOWN, BYTEA, UUID, DATE, TIME, INET, BIT, VARBIT}"

lemma accepts_rust_type_of: "accepts (rust_type_of ty) ty \<longleftrightarrow> ty \<in> encodable_types"
  by (cases ty) (simp_all add: accepts_def rust_type_of_def encodable_types_def)

definition item_of_type :: "pg_type \<Rightarrow> cbor_item \<Rightarrow> bool" where
  "item_of_type ty c =
     (case c of
        CArray _ \<Rightarrow> False | CBool _ \<Rightarrow> ty = BOOL | CI16 _ \<Rightarrow> ty = INT2 | CI32 _ \<Rightarrow> ty = INT4 | CI64 _ \<Rightarrow> ty = INT8
      | CU32 _ \<Rightarrow> ty = OID | CF32 _ \<Rightarrow> ty = FLOAT4 | CF64 _ \<Rightarrow> ty = FLOAT8
      | CStr _ \<Rightarrow> ty \<in> {VARCHAR, TEXT, NAME, UNKNOWN, UUID, DATE, TIME, INET}
      | CBytes _ \<Rightarrow> ty \<in> {BYTEA, BIT, VARBIT})"

lemma cbor_of_typed:
  "has_rust_type x (rust_type_of ty) \<Longrightarrow> ty \<in> encodable_types \<Longrightarrow> item_of_type ty (cbor_of env ty x)"
  by (cases x; cases ty) (simp_all add: rust_type_of_def encodable_types_def cbor_of_def item_of_type_def)

text \<open>Progress and preservation for one value, and the failure of the other types.\<close>

lemma encode_val_typed:
  assumes "documented_reads env value_of" "value_of ty v" "ty \<in> encodable_types"
  obtains x where "pe_get env (rust_type_of ty) ty v = Some x" "encode_val env ty v = Ok (cbor_of env ty x)"
    "item_of_type ty (cbor_of env ty x)"
proof -
  have "accepts (rust_type_of ty) ty" using assms(3) by (simp add: accepts_rust_type_of)
  then obtain x where "pe_get env (rust_type_of ty) ty v = Some x" "has_rust_type x (rust_type_of ty)"
    using assms(1,2) unfolding documented_reads_def by meson
  with that [of x] cbor_of_typed [OF this(2) assms(3), of env] show ?thesis by (simp add: encode_val_def unwrap_def)
qed

lemma encode_val_unsupported:
  assumes "documented_reads env value_of" "ty \<notin> encodable_types"
  shows "pe_get env (rust_type_of ty) ty v = None" "encode_val env ty v = Panic"
proof -
  have "\<not> accepts (rust_type_of ty) ty" using assms(2) by (simp add: accepts_rust_type_of)
  with assms(1) show "pe_get env (rust_type_of ty) ty v = None" unfolding documented_reads_def by meson
  then show "encode_val env ty v = Panic" by (simp add: encode_val_def unwrap_def)
qed

definition row_typed :: "(pg_type \<Rightarrow> 'v \<Rightarrow> bool) \<Rightarrow> 'v pg_row \<Rightarrow> bool" where
  "row_typed value_of row \<longleftrightarrow> row_ok row \<and> list_all2 (\<lambda>col v. value_of (snd col) v) (row_columns row) (row_values row)"

lemma encode_row_typed:
  assumes "documented_reads env value_of" "row_typed value_of row" "snd ` set (row_columns row) \<subseteq> encodable_types"
  shows "encode_row env row = Ok (CArray (of_nat (length (row_columns row))) # row_items env row)"
    and "list_all2 (\<lambda>col. item_of_type (snd col)) (row_columns row) (row_items env row)"
proof -
  let ?enc = "\<lambda>(col, v). encode_val env (snd col) v"
  let ?item = "\<lambda>(col, v). cbor_of env (snd col) (the (pe_get env (rust_type_of (snd col)) (snd col) v))"
  have "traverse ?enc (zip cols vs) = Ok (map ?item (zip cols vs)) \<and>
      list_all2 (\<lambda>col. item_of_type (snd col)) cols (map ?item (zip cols vs))"
    if "list_all2 (\<lambda>col v. value_of (snd col) v) cols vs" "snd ` set cols \<subseteq> encodable_types" for cols vs
    using that
  proof (induction rule: list_all2_induct)
    case (Cons col cols v vs)
    then have "value_of (snd col) v" "snd col \<in> encodable_types" by simp_all
    from encode_val_typed [OF assms(1) this]
    obtain x where "pe_get env (rust_type_of (snd col)) (snd col) v = Some x" "encode_val env (snd col) v = Ok (cbor_of env (snd col) x)"
      "item_of_type (snd col) (cbor_of env (snd col) x)" .
    with Cons show ?case by simp
  qed simp
  from this [of "row_columns row" "row_values row"] assms(2,3)
  show "encode_row env row = Ok (CArray (of_nat (length (row_columns row))) # row_items env row)"
    "list_all2 (\<lambda>col. item_of_type (snd col)) (row_columns row) (row_items env row)"
    by (simp_all add: row_typed_def encode_row_def row_items_def)
qed

lemma encode_val_no_Err [simp]: "encode_val env ty v \<noteq> Err e"
  by (auto simp: encode_val_def rbind_Err_iff unwrap_def split: option.splits)

lemma encode_cells_no_Err [simp]: "traverse (\<lambda>(col, v). encode_val env (snd col) v) zs \<noteq> Err e"
  by (induction zs) (auto simp: rbind_Err_iff)

lemma encode_row_no_Err [simp]: "encode_row env row \<noteq> Err e"
  by (auto simp: encode_row_def rbind_Err_iff)

lemma encode_rows_unreadable:
  assumes "row \<in> set rows" "(col, v) \<in> set (zip (row_columns row) (row_values row))"
    and "pe_get env (rust_type_of (snd col)) (snd col) v = None"
  shows "encode_rows env rows = Panic"
proof -
  have "traverse (\<lambda>(col, v). encode_val env (snd col) v) (zip (row_columns row) (row_values row)) = Panic"
    by (rule traverse_Panic [OF assms(2)]) (auto simp: assms(3) encode_val_def [of env "snd col" v])
  then have "encode_row env row = Panic" by (simp add: encode_row_def)
  then have "traverse (encode_row env) rows = Panic"
    by (rule traverse_Panic [OF assms(1)]) simp_all
  then show ?thesis by (simp add: encode_rows_def)
qed

section \<open>Sample data\<close>

text \<open>A database that answers every query with one row, whose raw values are the values to be read or NULL.\<close>

definition sample_row :: "rust_value option list \<Rightarrow> rust_value option pg_row" where
  "sample_row vs = \<lparr>row_columns = [(''id'', INT4), (''name'', TEXT)], row_values = vs\<rparr>"

definition sample_pg_env :: "rust_value option list \<Rightarrow> (unit, rust_value option, string) pg_env" where
  "sample_pg_env vs =
     \<lparr>pe_b64_decode = (\<lambda>_. Inl []), pe_from_json = (\<lambda>_. Inl []), pe_parse_uri = (\<lambda>_. Inr ()),
      pe_build_pool = (\<lambda>ps. Inr (ps_uri ps)), pe_get_conn = (\<lambda>_ _. Inr ()),
      pe_execute = (\<lambda>_ _ s. (Inr 1, s)), pe_query = (\<lambda>_ _ s. (Inr [sample_row vs], s)),
      pe_get = (\<lambda>_ _ v. v), pe_timestamp = (\<lambda>_. None), pe_type_name = (\<lambda>_. ''sample'')\<rparr>"

text \<open>Raw values that are what reading them gives.\<close>

definition typed_pg_env :: "(unit, rust_value, string) pg_env" where
  "typed_pg_env =
     \<lparr>pe_b64_decode = (\<lambda>_. Inl []), pe_from_json = (\<lambda>_. Inl []), pe_parse_uri = (\<lambda>_. Inr ()),
      pe_build_pool = (\<lambda>ps. Inr (ps_uri ps)), pe_get_conn = (\<lambda>_ _. Inr ()),
      pe_execute = (\<lambda>_ _ s. (Inr 1, s)), pe_query = (\<lambda>_ _ s. (Inr [], s)),
      pe_get = (\<lambda>rt ty v. if accepts rt ty \<and> has_rust_type v rt then Some v else None),
      pe_timestamp = (\<lambda>_. None), pe_type_name = (\<lambda>_. ''sample'')\<rparr>"

definition typed_value_of :: "pg_type \<Rightarrow> rust_value \<Rightarrow> bool" where
  "typed_value_of ty v \<longleftrightarrow> (\<forall>rt. accepts rt ty \<longrightarrow> has_rust_type v rt)"

lemma typed_pg_env_documented: "documented_reads typed_pg_env typed_value_of"
  by (simp add: documented_reads_def typed_pg_env_def typed_value_of_def)

definition typed_row :: "rust_value pg_row" where
  "typed_row = \<lparr>row_columns = [(''id'', INT4), (''name'', TEXT)], row_values = [VI32 7, VText ''x'']\<rparr>"

definition stamped_row :: "rust_value pg_row" where
  "stamped_row = \<lparr>row_columns = [(''id'', INT4), (''at'', TIMESTAMP)], row_values = [VI32 7, VI64 0]\<rparr>"

lemma sample_rows_typed: "row_typed typed_value_of typed_row" "row_typed typed_value_of stamped_row"
proof -
  have "typed_value_of INT4 (VI32 7)" "typed_value_of TEXT (VText ''x'')" "typed_value_of TIMESTAMP (VI64 0)"
    by (auto simp: typed_value_of_def accepts_def split: rust_type.splits)
  then show "row_typed typed_value_of typed_row" "row_typed typed_value_of stamped_row"
    by (simp_all add: row_typed_def row_ok_def typed_row_def stamped_row_def)
qed

section \<open>Properties\<close>

text \<open>C36: the result set an actor receives is decodable: reading the encoded items back as an array of
  arrays gives, for every row in order and every column in order, the item of that value, and nothing
  is left over.\<close>
theorem postgres_rows_roundtrip:
  assumes "encode_rows env rows = Ok items" and "list_all row_ok rows" and "length rows < 2 ^ 64"
  shows "decode_rows items = Some (map (row_items env) rows)"
  using assms by (rule postgres_decoded)

theorem postgres_rows_roundtrip_witness:
  "decode_rows [CArray 1, CArray 2, CI32 7, CStr ''x''] = Some [[CI32 7, CStr ''x'']]"
proof -
  let ?row = "sample_row [Some (VI32 7), Some (VText ''x'')]"
  have "encode_rows (sample_pg_env []) [?row] = Ok [CArray 1, CArray 2, CI32 7, CStr ''x'']"
    by (simp add: encode_rows_def encode_row_def encode_val_def sample_pg_env_def sample_row_def rust_type_of_def
        cbor_of_def unwrap_def)
  then have "decode_rows [CArray 1, CArray 2, CI32 7, CStr ''x''] = Some (map (row_items (sample_pg_env [])) [?row])"
    by (rule postgres_rows_roundtrip) (simp_all add: row_ok_def sample_row_def)
  then show ?thesis
    by (simp add: row_items_def sample_row_def sample_pg_env_def cbor_of_def)
qed

text \<open>A query whose result has a value that cannot be read as the fixed type chosen for its column, in
  particular any NULL, aborts the provider's task: the actor gets neither rows nor an error.\<close>

theorem postgres_unreadable_value_panics:
  assumes "pool_for p ctx = Ok pool" and "pe_get_conn env pool s = Inr ()"
    and "pe_query env pool (st_sql stmt) s = (Inr rows, s')"
    and "row \<in> set rows" and "(col, v) \<in> set (zip (row_columns row) (row_values row))"
    and "pe_get env (rust_type_of (snd col)) (snd col) v = None"
  shows "query_postgres env p ctx stmt s = (Panic, s')"
proof -
  from encode_rows_unreadable [OF assms(4-6)] have "encode_rows env rows = Panic" .
  with assms(1-4) show ?thesis
    by (cases rows) (auto simp: query_postgres_def encode_result_set_def)
qed

theorem postgres_unreadable_value_panics_witness:
  "query_postgres (sample_pg_env [Some (VI32 7), None]) [''a'' \<mapsto> ''db''] \<lparr>ctx_actor = Some ''a''\<rparr>
     \<lparr>st_database = None, st_parameters = None, st_sql = ''select id, name from t''\<rparr> () = (Panic, ())"
  by (rule postgres_unreadable_value_panics [where pool = "''db''" and rows = "[sample_row [Some (VI32 7), None]]"
        and row = "sample_row [Some (VI32 7), None]" and col = "(''name'', TEXT)" and v = None])
    (simp_all add: pool_for_def actor_id_def sample_pg_env_def sample_row_def ok_or_def)

text \<open>C40: type soundness of result sets. When every value of a result is a value of its column's type and the
  database crate reads as documented, then the provider encodes the result exactly if each column has
  one of the encodable types, and each item then has the CBOR type of its column; a result with a
  column of any other type (time stamps, JSON, XML, "char", XID, CID and every type not listed, arrays
  included) aborts the task, whatever its values.\<close>
theorem postgres_result_types:
  assumes "documented_reads env value_of" and "list_all (row_typed value_of) rows" and "length rows < 2 ^ 64"
  shows "if \<forall>row \<in> set rows. snd ` set (row_columns row) \<subseteq> encodable_types
     then \<exists>items cells. encode_rows env rows = Ok items \<and> decode_rows items = Some cells \<and>
        list_all2 (\<lambda>row. list_all2 (\<lambda>col. item_of_type (snd col)) (row_columns row)) rows cells
     else encode_rows env rows = Panic"
proof (cases "\<forall>row \<in> set rows. snd ` set (row_columns row) \<subseteq> encodable_types")
  case True
  have "traverse (encode_row env) rows = Ok (map (\<lambda>row. CArray (of_nat (length (row_columns row))) # row_items env row) rows) \<and>
      list_all2 (\<lambda>row. list_all2 (\<lambda>col. item_of_type (snd col)) (row_columns row)) rows (map (row_items env) rows)"
    using True assms(2)
  proof (induction rows)
    case (Cons row rows)
    then show ?case using encode_row_typed [OF assms(1), of row] by simp
  qed simp
  moreover from this obtain items where "encode_rows env rows = Ok items" by (auto simp: encode_rows_def)
  moreover have "list_all row_ok rows" using assms(2) by (simp add: list_all_iff row_typed_def)
  ultimately show ?thesis
    using True postgres_decoded [OF _ _ assms(3), of env items] by auto
next
  case False
  then obtain row col where "row \<in> set rows" "col \<in> set (row_columns row)" "snd col \<notin> encodable_types" by auto
  moreover have "length (row_columns row) = length (row_values row)"
    using assms(2) \<open>row \<in> set rows\<close> by (auto simp: list_all_iff row_typed_def row_ok_def)
  then obtain v where "(col, v) \<in> set (zip (row_columns row) (row_values row))"
    using \<open>col \<in> set (row_columns row)\<close> by (metis in_set_impl_in_set_zip1)
  ultimately have "encode_rows env rows = Panic"
    using encode_rows_unreadable encode_val_unsupported(1) [OF assms(1)] by metis
  with False show ?thesis by simp
qed

theorem postgres_result_types_witness:
  "(\<exists>items cells. encode_rows typed_pg_env [typed_row] = Ok items \<and> decode_rows items = Some [cells] \<and>
      list_all2 item_of_type [INT4, TEXT] cells) \<and>
   encode_rows typed_pg_env [typed_row, stamped_row] = Panic"
  using postgres_result_types [OF typed_pg_env_documented, of "[typed_row]"]
    postgres_result_types [OF typed_pg_env_documented, of "[typed_row, stamped_row]"] sample_rows_typed
  by (auto simp: typed_row_def stamped_row_def encodable_types_def list_all2_Cons1)

text \<open>The parameters of a statement are never used: statements that differ only in their
  parameters have the same effect and the same result.\<close>

theorem postgres_ignores_parameters:
  "execute_postgres env p ctx (stmt\<lparr>st_parameters := ps\<rparr>) s = execute_postgres env p ctx stmt s \<and>
   query_postgres env p ctx (stmt\<lparr>st_parameters := ps\<rparr>) s = query_postgres env p ctx stmt s"
  by (simp add: execute_postgres_def query_postgres_def)

end
