(* ===== verification/Keyvalue_Interface.thy ===== *)
theory Keyvalue_Interface
  imports Prelude
begin

text \<open>The requests and replies of the key-value interface, shared by the Redis and the Vault provider.\<close>

record get_response =
  gr_value :: string
  gr_exists :: bool

record increment_request =
  ir_key :: string
  ir_value :: int

record set_request =
  sr_key :: string
  sr_value :: string
  sr_expires :: u32

record list_range_request =
  lr_list_name :: string
  lr_start :: "32 word"
  lr_stop :: "32 word"

text \<open>A request that names a list or a set and one item of it.\<close>

record item_request =
  it_name :: string
  it_value :: string

end
