(* ===== verification/Kv_Redis.thy ===== *)
theory Kv_Redis
  imports Keyvalue_Interface Link_Registry
begin

text \<open>
  \<open>kvredis/src/main.rs\<close>: the key-value provider over Redis. Every operation is one command on the
  connection of the calling actor.

  The Redis client is a parameter: \<open>'n\<close> is the type of connections, \<open>'r\<close> that of raw replies, \<open>'s\<close>
  the state of the server; a reply is read as the type the operation asks for.
\<close>

section \<open>Data\<close>

definition REDIS_URL_KEY :: string where "REDIS_URL_KEY = ''URL''"
definition DEFAULT_CONNECT_URL :: string where "DEFAULT_CONNECT_URL = ''redis://127.0.0.1:6379/''"

datatype redis_cmd =
    INCR string int
  | EXISTS string
  | DEL string
  | GET string
  | RPUSH string string
  | LREM string int string
  | LRANGE string int int
  | SET string string
  | SETEX string string u64
  | SADD string string
  | SREM string string
  | SINTER "string list"
  | SMEMBERS string
  | SUNION "string list"

record ('n, 'r, 's) redis_env =
  re_open :: "string \<Rightarrow> string + unit"
  re_connect :: "string \<Rightarrow> string + 'n"
  re_query :: "'n \<Rightarrow> redis_cmd \<Rightarrow> 's \<Rightarrow> (string + 'r) \<times> 's"
  re_as_i32 :: "'r \<Rightarrow> string + int"
  re_as_u32 :: "'r \<Rightarrow> string + u32"
  re_as_bool :: "'r \<Rightarrow> string + bool"
  re_as_text :: "'r \<Rightarrow> string + string option"
  re_as_list :: "'r \<Rightarrow> string + string list"

type_synonym 'n redis_provider = "string \<rightharpoonup> 'n"

section \<open>Links\<close>

text \<open>The default address: that of the host's configuration document, if it can be read.\<close>

definition default_connect_url :: "(string \<Rightarrow> string + string) \<Rightarrow> string option \<Rightarrow> string" where
  "default_connect_url parse config_json =
     (case config_json of
        Some raw \<Rightarrow> (case parse raw of Inr url \<Rightarrow> url | Inl _ \<Rightarrow> DEFAULT_CONNECT_URL)
      | None \<Rightarrow> DEFAULT_CONNECT_URL)"

definition get_redis_url :: "link_values \<Rightarrow> string \<Rightarrow> string" where
  "get_redis_url values default_url =
     unwrap_or (map_option snd (List.find (\<lambda>(key, _). eq_ignore_ascii_case key REDIS_URL_KEY) values)) default_url"

definition put_link_redis ::
  "('n, 'r, 's) redis_env \<Rightarrow> string \<Rightarrow> link_definition \<Rightarrow> 'n redis_provider \<Rightarrow> bool rpc_result \<times> 'n redis_provider" where
  "put_link_redis env default_url ld p =
     (let redis_url = get_redis_url (ld_values ld) default_url in
      case re_open env redis_url of
        Inr _ \<Rightarrow> (case re_connect env redis_url of
            Inr conn \<Rightarrow> (Ok True, p(ld_actor_id ld \<mapsto> conn))
          | Inl _ \<Rightarrow> (Ok True, p))
      | Inl _ \<Rightarrow> (Ok True, p))"

definition delete_link_redis :: "string \<Rightarrow> 'n redis_provider \<Rightarrow> 'n redis_provider" where
  "delete_link_redis actor p = p(actor := None)"

definition shutdown_redis :: "'n redis_provider \<Rightarrow> 'n redis_provider" where
  "shutdown_redis p = Map.empty"

definition redis_unlinked :: "string \<Rightarrow> rpc_error" where
  "redis_unlinked actor = InvalidParameter (''No Redis connection found for '' @ actor @
     ''. Please ensure the URL supplied in the link definition is a valid Redis URL'')"

definition redis_connection :: "'n redis_provider \<Rightarrow> ctx \<Rightarrow> 'n rpc_result" where
  "redis_connection p ctx =
     rbind (ok_or (InvalidParameter ''no actor in request'') (ctx_actor ctx)) (\<lambda>a. ok_or (redis_unlinked a) (p a))"

definition redis_rpc_err :: "string \<Rightarrow> rpc_error" where
  "redis_rpc_err e = Other (''redis error: '' @ e)"

definition exec_redis ::
  "('n, 'r, 's) redis_env \<Rightarrow> ('r \<Rightarrow> string + 'a) \<Rightarrow> 'n redis_provider \<Rightarrow> ctx \<Rightarrow> redis_cmd \<Rightarrow> 's \<Rightarrow> 'a rpc_result \<times> 's" where
  "exec_redis env conv p ctx cmd s =
     early (redis_connection p ctx) s (\<lambda>con.
       case re_query env con cmd s of
         (Inl e, s') \<Rightarrow> (Err (redis_rpc_err e), s')
       | (Inr r, s') \<Rightarrow> (map_err redis_rpc_err (conv r), s'))"

section \<open>Key-value operations\<close>

definition then_ok :: "'a rpc_result \<times> 's \<Rightarrow> ('a \<Rightarrow> 'b) \<Rightarrow> 'b rpc_result \<times> 's" where
  "then_ok m f = early (fst m) (snd m) (\<lambda>x. (Ok (f x), snd m))"

definition increment_redis where
  "increment_redis env p ctx arg = exec_redis env (re_as_i32 env) p ctx (INCR (ir_key arg) (ir_value arg))"

definition contains_redis where
  "contains_redis env p ctx key = exec_redis env (re_as_bool env) p ctx (EXISTS key)"

definition del_redis ::
  "('n, 'r, 's) redis_env \<Rightarrow> 'n redis_provider \<Rightarrow> ctx \<Rightarrow> string \<Rightarrow> 's \<Rightarrow> bool rpc_result \<times> 's" where
  "del_redis env p ctx key s = then_ok (exec_redis env (re_as_i32 env) p ctx (DEL key) s) (\<lambda>val. val > 0)"

definition get_redis ::
  "('n, 'r, 's) redis_env \<Rightarrow> 'n redis_provider \<Rightarrow> ctx \<Rightarrow> string \<Rightarrow> 's \<Rightarrow> get_response rpc_result \<times> 's" where
  "get_redis env p ctx key s =
     then_ok (exec_redis env (re_as_text env) p ctx (GET key) s)
       (\<lambda>val. case val of Some t \<Rightarrow> \<lparr>gr_value = t, gr_exists = True\<rparr> | None \<Rightarrow> \<lparr>gr_value = [], gr_exists = False\<rparr>)"

definition list_add_redis where
  "list_add_redis env p ctx arg = exec_redis env (re_as_u32 env) p ctx (RPUSH (it_name arg) (it_value arg))"

definition list_clear_redis where
  "list_clear_redis env p ctx key s = del_redis env p ctx key s"

definition list_del_redis ::
  "('n, 'r, 's) redis_env \<Rightarrow> 'n redis_provider \<Rightarrow> ctx \<Rightarrow> item_request \<Rightarrow> 's \<Rightarrow> bool rpc_result \<times> 's" where
  "list_del_redis env p ctx arg s =
     then_ok (exec_redis env (re_as_u32 env) p ctx (LREM (it_name arg) 1 (it_value arg)) s) (\<lambda>val. val > 0)"

definition list_range_redis where
  "list_range_redis env p ctx arg =
     exec_redis env (re_as_list env) p ctx (LRANGE (lr_list_name arg) (sint (lr_start arg)) (sint (lr_stop arg)))"

definition set_redis ::
  "('n, 'r, 's) redis_env \<Rightarrow> 'n redis_provider \<Rightarrow> ctx \<Rightarrow> set_request \<Rightarrow> 's \<Rightarrow> unit rpc_result \<times> 's" where
  "set_redis env p ctx arg s =
     then_ok (exec_redis env (re_as_text env) p ctx
       (if sr_expires arg = 0 then SET (sr_key arg) (sr_value arg)
        else SETEX (sr_key arg) (sr_value arg) (ucast (sr_expires arg))) s) (\<lambda>_. ())"

definition set_add_redis where
  "set_add_redis env p ctx arg = exec_redis env (re_as_u32 env) p ctx (SADD (it_name arg) (it_value arg))"

definition set_del_redis where
  "set_del_redis env p ctx arg = exec_redis env (re_as_u32 env) p ctx (SREM (it_name arg) (it_value arg))"

definition set_clear_redis where
  "set_clear_redis env p ctx key s = del_redis env p ctx key s"

definition set_intersection_redis where
  "set_intersection_redis env p ctx keys = exec_redis env (re_as_list env) p ctx (SINTER keys)"

definition set_query_redis where
  "set_query_redis env p ctx key = exec_redis env (re_as_list env) p ctx (SMEMBERS key)"

definition set_union_redis where
  "set_union_redis env p ctx keys = exec_redis env (re_as_list env) p ctx (SUNION keys)"

section \<open>Links in force\<close>

definition rd_accept :: "('n, 'r, 's) redis_env \<Rightarrow> string \<Rightarrow> link_definition \<Rightarrow> 'n option" where
  "rd_accept env default_url ld =
     (case (re_open env (get_redis_url (ld_values ld) default_url), re_connect env (get_redis_url (ld_values ld) default_url)) of
        (Inr _, Inr conn) \<Rightarrow> Some conn
      | _ \<Rightarrow> None)"

interpretation rd: link_service "\<lambda>p. p" "\<lambda>ld p. snd (put_link_redis env default_url ld p)" "rd_accept env default_url"
  delete_link_redis shutdown_redis redis_connection redis_unlinked for env default_url
  by unfold_locales
    (auto simp: put_link_redis_def rd_accept_def Let_def delete_link_redis_def shutdown_redis_def
      redis_connection_def no_actor_def split: sum.splits)

lemma exec_redis_linked:
  "redis_connection p ctx = Ok con \<Longrightarrow> re_query env con cmd s = (Inr r, s') \<Longrightarrow> conv r = Inr x \<Longrightarrow>
     exec_redis env conv p ctx cmd s = (Ok x, s')"
  by (simp add: exec_redis_def)

lemma then_ok_Ok [simp]: "then_ok (Ok x, s) f = (Ok (f x), s)"
  by (simp add: then_ok_def)

text \<open>
  What Redis documents of its string commands: \<open>keys\<close> is the content of the server as the connection
  \<open>con\<close> sees it.
\<close>

definition redis_strings :: "('n, 'r, 's) redis_env \<Rightarrow> 'n \<Rightarrow> ('s \<Rightarrow> string \<rightharpoonup> string) \<Rightarrow> bool" where
  "redis_strings env con keys \<longleftrightarrow>
     (\<forall>s k v. \<exists>r s'. re_query env con (SET k v) s = (Inr r, s') \<and> re_as_text env r = Inr (Some ''OK'') \<and>
        keys s' = (keys s)(k \<mapsto> v)) \<and>
     (\<forall>s k v n. \<exists>r s'. re_query env con (SETEX k v n) s = (Inr r, s') \<and> re_as_text env r = Inr (Some ''OK'') \<and>
        keys s' = (keys s)(k \<mapsto> v)) \<and>
     (\<forall>s k. \<exists>r. re_query env con (GET k) s = (Inr r, s) \<and> re_as_text env r = Inr (keys s k)) \<and>
     (\<forall>s k. \<exists>r. re_query env con (EXISTS k) s = (Inr r, s) \<and> re_as_bool env r = Inr (keys s k \<noteq> None)) \<and>
     (\<forall>s k. \<exists>r s'. re_query env con (DEL k) s = (Inr r, s') \<and>
        re_as_i32 env r = Inr (if keys s k = None then 0 else 1) \<and> keys s' = (keys s)(k := None))"

lemma redis_string_ops:
  assumes con: "redis_connection p ctx = Ok con" and srv: "redis_strings env con keys"
  shows "\<exists>s'. set_redis env p ctx \<lparr>sr_key = k, sr_value = v, sr_expires = x\<rparr> s = (Ok (), s') \<and> keys s' = (keys s)(k \<mapsto> v)"
    and "get_redis env p ctx k s = (Ok (case keys s k of Some t \<Rightarrow> \<lparr>gr_value = t, gr_exists = True\<rparr>
       | None \<Rightarrow> \<lparr>gr_value = [], gr_exists = False\<rparr>), s)"
    and "contains_redis env p ctx k s = (Ok (keys s k \<noteq> None), s)"
    and "\<exists>s'. del_redis env p ctx k s = (Ok (keys s k \<noteq> None), s') \<and> keys s' = (keys s)(k := None)"
proof -
  let ?cmd = "if x = 0 then SET k v else SETEX k v (ucast x)"
  obtain r s' where "re_query env con ?cmd s = (Inr r, s')" "re_as_text env r = Inr (Some ''OK'')" "keys s' = (keys s)(k \<mapsto> v)"
    using srv unfolding redis_strings_def by (cases "x = 0") (auto, metis, metis)
  with exec_redis_linked [OF con, of env ?cmd s r s' "re_as_text env"] show
    "\<exists>s'. set_redis env p ctx \<lparr>sr_key = k, sr_value = v, sr_expires = x\<rparr> s = (Ok (), s') \<and> keys s' = (keys s)(k \<mapsto> v)"
    by (auto simp: set_redis_def)
next
  obtain r where "re_query env con (GET k) s = (Inr r, s)" "re_as_text env r = Inr (keys s k)"
    using srv unfolding redis_strings_def by blast
  with exec_redis_linked [OF con, of env "GET k" s r s "re_as_text env"] show
    "get_redis env p ctx k s = (Ok (case keys s k of Some t \<Rightarrow> \<lparr>gr_value = t, gr_exists = True\<rparr>
       | None \<Rightarrow> \<lparr>gr_value = [], gr_exists = False\<rparr>), s)"
    by (simp add: get_redis_def)
next
  obtain r where "re_query env con (EXISTS k) s = (Inr r, s)" "re_as_bool env r = Inr (keys s k \<noteq> None)"
    using srv unfolding redis_strings_def by blast
  with exec_redis_linked [OF con, of env "EXISTS k" s r s "re_as_bool env"] show "contains_redis env p ctx k s = (Ok (keys s k \<noteq> None), s)"
    by (simp add: contains_redis_def)
next
  obtain r s' where "re_query env con (DEL k) s = (Inr r, s')" "re_as_i32 env r = Inr (if keys s k = None then 0 else 1)"
      "keys s' = (keys s)(k := None)"
    using srv unfolding redis_strings_def by blast
  with exec_redis_linked [OF con, of env "DEL k" s r s' "re_as_i32 env"] show
    "\<exists>s'. del_redis env p ctx k s = (Ok (keys s k \<noteq> None), s') \<and> keys s' = (keys s)(k := None)"
    by (auto simp: del_redis_def)
qed

section \<open>Sample data\<close>

text \<open>A server of string keys; a reply is a number or a text.\<close>

fun sample_query :: "unit \<Rightarrow> redis_cmd \<Rightarrow> (string \<rightharpoonup> string) \<Rightarrow> (string + (int + string option)) \<times> (string \<rightharpoonup> string)" where
  "sample_query _ (SET k v) s = (Inr (Inr (Some ''OK'')), s(k \<mapsto> v))"
| "sample_query _ (SETEX k v n) s = (Inr (Inr (Some ''OK'')), s(k \<mapsto> v))"
| "sample_query _ (GET k) s = (Inr (Inr (s k)), s)"
| "sample_query _ (EXISTS k) s = (Inr (Inl (if s k = None then 0 else 1)), s)"
| "sample_query _ (DEL k) s = (Inr (Inl (if s k = None then 0 else 1)), s(k := None))"
| "sample_query _ cmd s = (Inl ''unsupported'', s)"

definition sample_redis_env :: "(unit, int + string option, string \<rightharpoonup> string) redis_env" where
  "sample_redis_env =
     \<lparr>re_open = (\<lambda>_. Inr ()), re_connect = (\<lambda>_. Inr ()), re_query = sample_query,
      re_as_i32 = (\<lambda>r. case r of Inl i \<Rightarrow> Inr i | Inr _ \<Rightarrow> Inl ''type''), re_as_u32 = (\<lambda>_. Inl ''type''),
      re_as_bool = (\<lambda>r. case r of Inl i \<Rightarrow> Inr (i \<noteq> 0) | Inr _ \<Rightarrow> Inl ''type''),
      re_as_text = (\<lambda>r. case r of Inr t \<Rightarrow> Inr t | Inl _ \<Rightarrow> Inl ''type''), re_as_list = (\<lambda>_. Inl ''type'')\<rparr>"

section \<open>Properties\<close>

text \<open>Putting a link always reports success, but only after control messages that leave a link whose
  server could be reached is a command run, on the connection of that link; every other call is
  refused without reaching a server.\<close>

theorem redis_calls_served:
  "(\<forall>ld p. fst (put_link_redis env default_url ld p) = Ok True) \<and>
   (let p = run_links (\<lambda>ld p. snd (put_link_redis env default_url ld p)) delete_link_redis shutdown_redis evs Map.empty in
    if \<exists>con. in_force (rd_accept env default_url) a evs con
    then \<exists>con. in_force (rd_accept env default_url) a evs con \<and>
       exec_redis env conv p \<lparr>ctx_actor = Some a\<rparr> cmd s =
         (case re_query env con cmd s of
            (Inl e, s') \<Rightarrow> (Err (redis_rpc_err e), s') | (Inr r, s') \<Rightarrow> (map_err redis_rpc_err (conv r), s'))
    else exec_redis env conv p \<lparr>ctx_actor = Some a\<rparr> cmd s = (Err (redis_unlinked a), s))"
proof -
  let ?p = "run_links (\<lambda>ld p. snd (put_link_redis env default_url ld p)) delete_link_redis shutdown_redis evs Map.empty"
  have link: "?p a = Some con \<longleftrightarrow> in_force (rd_accept env default_url) a evs con" for con
    by (rule rd.run_in_force) simp
  have "fst (put_link_redis env default_url ld p) = Ok True" for ld p
    by (auto simp: put_link_redis_def Let_def split: sum.splits)
  then show ?thesis
    by (cases "?p a") (auto simp: exec_redis_def redis_connection_def Let_def simp flip: link)
qed

text \<open>Against a server with the documented string commands, a value that was set is returned by get
  and reported by contains, with or without an expiry; after del it is gone; del reports whether
  there was a value; other keys keep their values.\<close>

theorem redis_set_get_del:
  assumes "redis_connection p ctx = Ok con" and "redis_strings env con keys"
  shows "\<exists>s1. set_redis env p ctx \<lparr>sr_key = k, sr_value = v, sr_expires = x\<rparr> s = (Ok (), s1) \<and>
     get_redis env p ctx k s1 = (Ok \<lparr>gr_value = v, gr_exists = True\<rparr>, s1) \<and>
     contains_redis env p ctx k s1 = (Ok True, s1) \<and>
     (k' \<noteq> k \<longrightarrow> fst (get_redis env p ctx k' s1) = fst (get_redis env p ctx k' s)) \<and>
     (\<exists>s2. del_redis env p ctx k s1 = (Ok True, s2) \<and>
        get_redis env p ctx k s2 = (Ok \<lparr>gr_value = [], gr_exists = False\<rparr>, s2) \<and>
        fst (del_redis env p ctx k s2) = Ok False)"
proof -
  note ops = redis_string_ops [OF assms]
  obtain s1 where s1: "set_redis env p ctx \<lparr>sr_key = k, sr_value = v, sr_expires = x\<rparr> s = (Ok (), s1)" "keys s1 = (keys s)(k \<mapsto> v)"
    using ops(1) by blast
  obtain s2 where s2: "del_redis env p ctx k s1 = (Ok (keys s1 k \<noteq> None), s2)" "keys s2 = (keys s1)(k := None)"
    using ops(4) by blast
  have "fst (del_redis env p ctx k s2) = Ok False" using ops(4) [of k s2] s2(2) by auto
  with s1 s2 show ?thesis by (simp add: ops(2,3))
qed

theorem redis_set_get_del_witness:
  "\<exists>s1. set_redis sample_redis_env [''a'' \<mapsto> ()] \<lparr>ctx_actor = Some ''a''\<rparr> \<lparr>sr_key = ''k'', sr_value = ''v'', sr_expires = 5\<rparr>
     Map.empty = (Ok (), s1) \<and>
     get_redis sample_redis_env [''a'' \<mapsto> ()] \<lparr>ctx_actor = Some ''a''\<rparr> ''k'' s1 = (Ok \<lparr>gr_value = ''v'', gr_exists = True\<rparr>, s1)"
proof -
  have con: "redis_connection [''a'' \<mapsto> ()] \<lparr>ctx_actor = Some ''a''\<rparr> = Ok ()" by (simp add: redis_connection_def)
  have srv: "redis_strings sample_redis_env () (\<lambda>s. s)"
    by (simp add: redis_strings_def sample_redis_env_def)
  obtain s1 where "set_redis sample_redis_env [''a'' \<mapsto> ()] \<lparr>ctx_actor = Some ''a''\<rparr>
      \<lparr>sr_key = ''k'', sr_value = ''v'', sr_expires = 5\<rparr> Map.empty = (Ok (), s1)"
    "get_redis sample_redis_env [''a'' \<mapsto> ()] \<lparr>ctx_actor = Some ''a''\<rparr> ''k'' s1 = (Ok \<lparr>gr_value = ''v'', gr_exists = True\<rparr>, s1)"
    using redis_set_get_del [OF con srv] by metis
  then show ?thesis by blast
qed

end
