(* ===== verification/Kv_Vault.thy ===== *)
theory Kv_Vault
  imports Keyvalue_Interface Task_Table Json
begin

text \<open>
  \<open>kv-vault/src\<close>: the key-value provider over Hashicorp Vault. Values are stored as JSON documents;
  a value that is not JSON is wrapped in an object under a marker key. Every client has a
  background task that renews its token; it is aborted when the client is dropped, which is when
  its entry leaves the table of links (calls are taken as atomic, so no call holds on to a client).

  The Vault server, the JSON crate, the URL parser and the env file reader are the fields of
  \<open>vault_env\<close>: \<open>'u\<close> is the type of URLs, \<open>'c\<close> that of connections, \<open>'s\<close> the state of the server.
\<close>

section \<open>Configuration\<close>

definition STRING_VALUE_MARKER :: string where "STRING_VALUE_MARKER = ''string_data___''"
definition API_VERSION :: nat where "API_VERSION = 1"
definition TOKEN_INCREMENT_TTL :: string where "TOKEN_INCREMENT_TTL = ''72h''"
definition TOKEN_REFRESH_INTERVAL :: u64 where "TOKEN_REFRESH_INTERVAL = 60 * 60 * 12"
definition DEFAULT_VAULT_ADDR :: string where "DEFAULT_VAULT_ADDR = ''http://127.0.0.1:8200''"

record 'u vault_config =
  vc_token :: string
  vc_addr :: 'u
  vc_mount :: string
  vc_certs :: "string list"
  vc_token_increment_ttl :: "string option"
  vc_token_refresh_interval :: "u64 option"

record 'u client_settings =
  vs_token :: string
  vs_address :: 'u
  vs_ca_certs :: "string list"
  vs_verify :: bool
  vs_version :: nat
  vs_wrapping :: bool
  vs_timeout :: "u64 option"

datatype client_error = APIError nat "string list" | OtherClientError string

datatype vault_error = VaultNotFound string string | VaultClient client_error

definition show_vault_error :: "vault_error \<Rightarrow> string" where
  "show_vault_error e =
     (case e of
        VaultNotFound ns path \<Rightarrow> ''Key not found: namespace/key '' @ ns @ ''/'' @ path
      | VaultClient _ \<Rightarrow> ''An error occurred with the request'')"

record ('u, 'c, 's) vault_env =
  ve_read_to_string :: "string \<Rightarrow> string + string"
  ve_parse_env :: "string \<Rightarrow> (string \<times> string) list"
  ve_parse_url :: "string \<Rightarrow> 'u option"
  ve_new :: "'u client_settings \<Rightarrow> client_error + 'c"
  ve_from_str :: "string \<Rightarrow> string + json"
  ve_to_string :: "json \<Rightarrow> string + string"
  ve_read :: "'c \<Rightarrow> string \<Rightarrow> string \<Rightarrow> 's \<Rightarrow> client_error + json"
  ve_set :: "'c \<Rightarrow> string \<Rightarrow> string \<Rightarrow> json \<Rightarrow> 's \<Rightarrow> (client_error + unit) \<times> 's"
  ve_delete_latest :: "'c \<Rightarrow> string \<Rightarrow> string \<Rightarrow> 's \<Rightarrow> (client_error + unit) \<times> 's"
  ve_list :: "'c \<Rightarrow> string \<Rightarrow> string \<Rightarrow> 's \<Rightarrow> client_error + string list"
  ve_renew :: "'c \<Rightarrow> string \<Rightarrow> 's \<Rightarrow> (client_error + unit) \<times> 's"
  ve_lookup :: "'c \<Rightarrow> 's \<Rightarrow> client_error + unit"

definition load_vault_env_file ::
  "('u, 'c, 's) vault_env \<Rightarrow> link_values \<Rightarrow> (string \<rightharpoonup> string) \<Rightarrow> (string \<rightharpoonup> string) rpc_result" where
  "load_vault_env_file env values vars =
     (case or_else (hm_get values ''env'') (hm_get values ''ENV'') of
        None \<Rightarrow> Ok vars
      | Some f \<Rightarrow> rbind (map_err (\<lambda>e. ProviderInit (''reading env file '' @ quoted f @ '': '' @ e)) (ve_read_to_string env f))
                    (\<lambda>data. Ok (fold (\<lambda>(k, v) m. m(k \<mapsto> v)) (ve_parse_env env data) vars)))"

text \<open>A setting: the environment variable, then the link value in lower case, then in upper case.\<close>

definition vault_setting :: "(string \<rightharpoonup> string) \<Rightarrow> link_values \<Rightarrow> string \<Rightarrow> string \<Rightarrow> string \<Rightarrow> string option" where
  "vault_setting vars values var low up = or_else (vars var) (or_else (hm_get values low) (hm_get values up))"

definition vault_config_of ::
  "('u, 'c, 's) vault_env \<Rightarrow> link_values \<Rightarrow> (string \<rightharpoonup> string) \<Rightarrow> 'u vault_config rpc_result" where
  "vault_config_of env values vars =
     rbind (case ve_parse_url env (unwrap_or (vault_setting vars values ''VAULT_ADDR'' ''addr'' ''ADDR'') DEFAULT_VAULT_ADDR) of
              Some u \<Rightarrow> Ok u
            | None \<Rightarrow> unwrap (ve_parse_url env DEFAULT_VAULT_ADDR)) (\<lambda>addr.
     rbind (ok_or (ProviderInit (''missing setting for '' @ quoted ''token'' @ '' or VAULT_TOKEN''))
              (vault_setting vars values ''VAULT_TOKEN'' ''token'' ''TOKEN'')) (\<lambda>token.
       Ok \<lparr>vc_token = token, vc_addr = addr,
           vc_mount = unwrap_or (vault_setting vars values ''VAULT_MOUNT'' ''mount'' ''MOUNT'') ''secret'',
           vc_certs = (case vault_setting vars values ''VAULT_CERTS'' ''certs'' ''CERTS'' of
                         Some certs \<Rightarrow> map trim (split_on (CHR '','') certs) | None \<Rightarrow> []),
           vc_token_increment_ttl = vault_setting vars values ''VAULT_TOKEN_INCREMENT_TTL'' ''token_increment_ttl'' ''TOKEN_INCREMENT_TTL'',
           vc_token_refresh_interval =
             map_option (\<lambda>val. unwrap_or (parse_u64 val) TOKEN_REFRESH_INTERVAL)
               (vault_setting vars values ''VAULT_TOKEN_REFRESH_INTERVAL'' ''token_refresh_interval'' ''TOKEN_REFRESH_INTERVAL'')\<rparr>))"

definition vault_from_values ::
  "('u, 'c, 's) vault_env \<Rightarrow> link_values \<Rightarrow> (string \<rightharpoonup> string) \<Rightarrow> 'u vault_config rpc_result \<times> (string \<rightharpoonup> string)" where
  "vault_from_values env values vars =
     early (load_vault_env_file env values vars) vars (\<lambda>vars'. (vault_config_of env values vars', vars'))"

section \<open>Clients\<close>

record 'c vault_client =
  cl_inner :: 'c
  cl_namespace :: string
  cl_token_increment_ttl :: string
  cl_token_refresh_interval :: u64
  cl_renew_task :: "nat option"

record 'c renew_task =
  rt_client :: 'c
  rt_interval :: u64
  rt_ttl :: string

record 'c vault_provider =
  vp_actors :: "string \<rightharpoonup> 'c vault_client"
  vp_tasks :: "nat \<rightharpoonup> 'c renew_task"
  vp_next :: nat
  vp_vars :: "string \<rightharpoonup> string"

definition init_vault :: "(string \<rightharpoonup> string) \<Rightarrow> 'c vault_provider" where
  "init_vault vars = \<lparr>vp_actors = Map.empty, vp_tasks = Map.empty, vp_next = 0, vp_vars = vars\<rparr>"

definition new_vault_client :: "('u, 'c, 's) vault_env \<Rightarrow> 'u vault_config \<Rightarrow> (vault_error, 'c vault_client) rres" where
  "new_vault_client env config =
     rbind (map_err VaultClient (ve_new env
       \<lparr>vs_token = vc_token config, vs_address = vc_addr config, vs_ca_certs = vc_certs config, vs_verify = False,
        vs_version = API_VERSION, vs_wrapping = False, vs_timeout = None\<rparr>)) (\<lambda>inner.
     Ok \<lparr>cl_inner = inner, cl_namespace = vc_mount config,
         cl_token_increment_ttl = unwrap_or (vc_token_increment_ttl config) TOKEN_INCREMENT_TTL,
         cl_token_refresh_interval = unwrap_or (vc_token_refresh_interval config) TOKEN_REFRESH_INTERVAL,
         cl_renew_task = None\<rparr>)"

definition not_found_or :: "string \<Rightarrow> string \<Rightarrow> client_error \<Rightarrow> vault_error" where
  "not_found_or ns path e = (case e of APIError code errors \<Rightarrow> if code = 404 then VaultNotFound ns path else VaultClient e
                             | _ \<Rightarrow> VaultClient e)"

definition read_secret :: "('u, 'c, 's) vault_env \<Rightarrow> 'c vault_client \<Rightarrow> string \<Rightarrow> 's \<Rightarrow> (vault_error, json) rres" where
  "read_secret env cl path s =
     map_err (not_found_or (cl_namespace cl) path) (ve_read env (cl_inner cl) (cl_namespace cl) path s)"

definition write_secret ::
  "('u, 'c, 's) vault_env \<Rightarrow> 'c vault_client \<Rightarrow> string \<Rightarrow> json \<Rightarrow> 's \<Rightarrow> (vault_error, unit) rres \<times> 's" where
  "write_secret env cl path data s =
     (case ve_set env (cl_inner cl) (cl_namespace cl) path data s of (r, s') \<Rightarrow> (map_err VaultClient r, s'))"

definition delete_latest ::
  "('u, 'c, 's) vault_env \<Rightarrow> 'c vault_client \<Rightarrow> string \<Rightarrow> 's \<Rightarrow> (vault_error, unit) rres \<times> 's" where
  "delete_latest env cl path s =
     (case ve_delete_latest env (cl_inner cl) (cl_namespace cl) path s of (r, s') \<Rightarrow> (map_err VaultClient r, s'))"

definition list_secrets :: "('u, 'c, 's) vault_env \<Rightarrow> 'c vault_client \<Rightarrow> string \<Rightarrow> 's \<Rightarrow> (vault_error, string list) rres" where
  "list_secrets env cl path s =
     map_err (not_found_or (cl_namespace cl) path) (ve_list env (cl_inner cl) (cl_namespace cl) path s)"

definition abort_renewal :: "nat option \<Rightarrow> 'c vault_provider \<Rightarrow> 'c vault_provider" where
  "abort_renewal h p = (case h of None \<Rightarrow> p | Some i \<Rightarrow> p\<lparr>vp_tasks := (vp_tasks p)(i := None)\<rparr>)"

definition set_renewal :: "'c vault_client \<Rightarrow> 'c vault_provider \<Rightarrow> 'c vault_client \<times> 'c vault_provider" where
  "set_renewal cl p =
     (let p' = abort_renewal (cl_renew_task cl) p; i = vp_next p' in
      (cl\<lparr>cl_renew_task := Some i\<rparr>,
       p'\<lparr>vp_tasks := (vp_tasks p')(i \<mapsto> \<lparr>rt_client = cl_inner cl, rt_interval = cl_token_refresh_interval cl,
                                        rt_ttl = cl_token_increment_ttl cl\<rparr>),
          vp_next := i + 1\<rparr>))"

definition drop_client :: "'c vault_client option \<Rightarrow> 'c vault_provider \<Rightarrow> 'c vault_provider" where
  "drop_client cl p = (case cl of None \<Rightarrow> p | Some c \<Rightarrow> abort_renewal (cl_renew_task c) p)"

definition renew_self :: "('u, 'c, 's) vault_env \<Rightarrow> 'c \<Rightarrow> string \<Rightarrow> 's \<Rightarrow> (vault_error, unit) rres \<times> 's" where
  "renew_self env client increment s =
     (case ve_renew env client increment s of (r, s') \<Rightarrow>
        early (map_err VaultClient r) s' (\<lambda>_.
        early (map_err VaultClient (ve_lookup env client s')) s' (\<lambda>_. (Ok (), s'))))"

text \<open>One tick of a renewal task; the outcome is ignored and the loop goes on.\<close>

definition renew_tick :: "('u, 'c, 's) vault_env \<Rightarrow> 'c vault_provider \<Rightarrow> nat \<Rightarrow> 's \<Rightarrow> 's" where
  "renew_tick env p i s =
     (case vp_tasks p i of None \<Rightarrow> s | Some t \<Rightarrow> snd (renew_self env (rt_client t) (rt_ttl t) s))"

section \<open>Links\<close>

definition vault_rpc_err :: "vault_error \<Rightarrow> rpc_error" where
  "vault_rpc_err e = Other (''vault error: '' @ show_vault_error e)"

definition to_rpc_result :: "(vault_error, 'a) rres \<Rightarrow> 'a rpc_result" where
  "to_rpc_result r = (case r of Ok x \<Rightarrow> Ok x | Err e \<Rightarrow> Err (vault_rpc_err e) | Panic \<Rightarrow> Panic)"

definition put_link_vault ::
  "('u, 'c, 's) vault_env \<Rightarrow> link_definition \<Rightarrow> 'c vault_provider \<Rightarrow> bool rpc_result \<times> 'c vault_provider" where
  "put_link_vault env ld p =
     (case vault_from_values env (ld_values ld) (vp_vars p) of (r, vars) \<Rightarrow>
      let p1 = p\<lparr>vp_vars := vars\<rparr> in
      early r p1 (\<lambda>config.
      early (to_rpc_result (new_vault_client env config)) p1 (\<lambda>client.
        case set_renewal client p1 of (client', p2) \<Rightarrow>
          (Ok True, drop_client (vp_actors p2 (ld_actor_id ld))
             (p2\<lparr>vp_actors := (vp_actors p2)(ld_actor_id ld \<mapsto> client')\<rparr>)))))"

definition delete_link_vault :: "string \<Rightarrow> 'c vault_provider \<Rightarrow> 'c vault_provider" where
  "delete_link_vault actor p = drop_client (vp_actors p actor) (p\<lparr>vp_actors := (vp_actors p)(actor := None)\<rparr>)"

definition shutdown_vault :: "'c vault_provider \<Rightarrow> 'c vault_provider" where
  "shutdown_vault p = p\<lparr>vp_actors := Map.empty,
     vp_tasks := (\<lambda>i. if \<exists>c\<in>ran (vp_actors p). cl_renew_task c = Some i then None else vp_tasks p i)\<rparr>"

definition get_client_vault :: "'c vault_provider \<Rightarrow> ctx \<Rightarrow> 'c vault_client rpc_result" where
  "get_client_vault p ctx =
     rbind (ok_or (InvalidParameter ''no actor in request'') (ctx_actor ctx)) (\<lambda>actor_id.
       ok_or (InvalidParameter (''actor not linked:'' @ actor_id)) (vp_actors p actor_id))"

section \<open>Key-value operations\<close>

definition get_vault ::
  "('u, 'c, 's) vault_env \<Rightarrow> 'c vault_provider \<Rightarrow> ctx \<Rightarrow> string \<Rightarrow> 's \<Rightarrow> get_response rpc_result" where
  "get_vault env p ctx key s =
     rbind (get_client_vault p ctx) (\<lambda>client.
       case read_secret env client key s of
         Ok (JObject kvs) \<Rightarrow>
           (case hm_get kvs STRING_VALUE_MARKER of
              Some (JString value) \<Rightarrow> Ok \<lparr>gr_value = value, gr_exists = True\<rparr>
            | _ \<Rightarrow> rbind (unwrap_res (ve_to_string env (JObject (filter (\<lambda>kv. fst kv \<noteq> STRING_VALUE_MARKER) kvs))))
                     (\<lambda>value. Ok \<lparr>gr_value = value, gr_exists = True\<rparr>))
       | Ok (JString value) \<Rightarrow> Ok \<lparr>gr_value = value, gr_exists = True\<rparr>
       | Ok v \<Rightarrow> rbind (unwrap_res (ve_to_string env v)) (\<lambda>value. Ok \<lparr>gr_value = value, gr_exists = True\<rparr>)
       | Err (VaultNotFound ns path) \<Rightarrow> Ok \<lparr>gr_value = [], gr_exists = False\<rparr>
       | Err e \<Rightarrow> Err (vault_rpc_err e)
       | Panic \<Rightarrow> Panic)"

definition contains_vault ::
  "('u, 'c, 's) vault_env \<Rightarrow> 'c vault_provider \<Rightarrow> ctx \<Rightarrow> string \<Rightarrow> 's \<Rightarrow> bool rpc_result" where
  "contains_vault env p ctx key s =
     (case get_vault env p ctx key s of Ok r \<Rightarrow> Ok (gr_exists r) | Err _ \<Rightarrow> Ok False | Panic \<Rightarrow> Panic)"

definition del_vault ::
  "('u, 'c, 's) vault_env \<Rightarrow> 'c vault_provider \<Rightarrow> ctx \<Rightarrow> string \<Rightarrow> 's \<Rightarrow> bool rpc_result \<times> 's" where
  "del_vault env p ctx key s =
     early (get_client_vault p ctx) s (\<lambda>client.
       case delete_latest env client key s of
         (Ok _, s') \<Rightarrow> (Ok True, s')
       | (Err (VaultNotFound ns path), s') \<Rightarrow> (Ok False, s')
       | (Err e, s') \<Rightarrow> (Err (vault_rpc_err e), s')
       | (Panic, s') \<Rightarrow> (Panic, s'))"

definition value_to_store :: "('u, 'c, 's) vault_env \<Rightarrow> string \<Rightarrow> json" where
  "value_to_store env value =
     (case ve_from_str env value of Inr j \<Rightarrow> j | Inl _ \<Rightarrow> JObject [(STRING_VALUE_MARKER, JString value)])"

definition set_vault ::
  "('u, 'c, 's) vault_env \<Rightarrow> 'c vault_provider \<Rightarrow> ctx \<Rightarrow> set_request \<Rightarrow> 's \<Rightarrow> unit rpc_result \<times> 's" where
  "set_vault env p ctx arg s =
     early (get_client_vault p ctx) s (\<lambda>client.
       case write_secret env client (sr_key arg) (value_to_store env (sr_value arg)) s of
         (Ok _, s') \<Rightarrow> (Ok (), s')
       | (Err (VaultNotFound ns path), s') \<Rightarrow> (Ok (), s')
       | (Err e, s') \<Rightarrow> (Err (vault_rpc_err e), s')
       | (Panic, s') \<Rightarrow> (Panic, s'))"

definition set_query_vault ::
  "('u, 'c, 's) vault_env \<Rightarrow> 'c vault_provider \<Rightarrow> ctx \<Rightarrow> string \<Rightarrow> 's \<Rightarrow> string list rpc_result" where
  "set_query_vault env p ctx path s =
     rbind (get_client_vault p ctx) (\<lambda>client.
       case list_secrets env client path s of
         Ok l \<Rightarrow> Ok l
       | Err (VaultNotFound ns path) \<Rightarrow> Ok []
       | Err e \<Rightarrow> Err (vault_rpc_err e)
       | Panic \<Rightarrow> Panic)"

text \<open>\<open>increment\<close> and all operations on lists and sets other than \<open>set_query\<close> are refused, whoever calls them.\<close>

definition increment_vault :: "ctx \<Rightarrow> increment_request \<Rightarrow> int rpc_result" where
  "increment_vault ctx arg = Err NotImplemented"

definition list_add_vault :: "ctx \<Rightarrow> item_request \<Rightarrow> u32 rpc_result" where
  "list_add_vault ctx arg = Err NotImplemented"

definition list_clear_vault :: "ctx \<Rightarrow> string \<Rightarrow> bool rpc_result" where
  "list_clear_vault ctx arg = Err NotImplemented"

definition list_del_vault :: "ctx \<Rightarrow> item_request \<Rightarrow> bool rpc_result" where
  "list_del_vault ctx arg = Err NotImplemented"

definition list_range_vault :: "ctx \<Rightarrow> list_range_request \<Rightarrow> string list rpc_result" where
  "list_range_vault ctx arg = Err NotImplemented"

definition set_add_vault :: "ctx \<Rightarrow> item_request \<Rightarrow> u32 rpc_result" where
  "set_add_vault ctx arg = Err NotImplemented"

definition set_del_vault :: "ctx \<Rightarrow> item_request \<Rightarrow> u32 rpc_result" where
  "set_del_vault ctx arg = Err NotImplemented"

definition set_intersection_vault :: "ctx \<Rightarrow> string list \<Rightarrow> string list rpc_result" where
  "set_intersection_vault ctx arg = Err NotImplemented"

definition set_union_vault :: "ctx \<Rightarrow> string list \<Rightarrow> string list rpc_result" where
  "set_union_vault ctx arg = Err NotImplemented"

definition set_clear_vault :: "ctx \<Rightarrow> string \<Rightarrow> bool rpc_result" where
  "set_clear_vault ctx arg = Err NotImplemented"

section \<open>Links and renewals\<close>

definition task_of :: "'c vault_client \<Rightarrow> 'c renew_task" where
  "task_of c = \<lparr>rt_client = cl_inner c, rt_interval = cl_token_refresh_interval c, rt_ttl = cl_token_increment_ttl c\<rparr>"

lemma abort_renewal_sel [simp]:
  "vp_actors (abort_renewal h p) = vp_actors p"
  "vp_next (abort_renewal h p) = vp_next p"
  "vp_vars (abort_renewal h p) = vp_vars p"
  "vp_tasks (abort_renewal h p) i = (if h = Some i then None else vp_tasks p i)"
  by (auto simp: abort_renewal_def split: option.splits)

lemma drop_client_sel [simp]:
  "vp_actors (drop_client c p) = vp_actors p"
  "vp_next (drop_client c p) = vp_next p"
  "vp_vars (drop_client c p) = vp_vars p"
  "vp_tasks (drop_client c p) i = (if \<exists>d. c = Some d \<and> cl_renew_task d = Some i then None else vp_tasks p i)"
  by (auto simp: drop_client_def split: option.splits)

lemma to_rpc_result_Ok_iff [simp]: "to_rpc_result r = Ok x \<longleftrightarrow> r = Ok x"
  by (cases r) (simp_all add: to_rpc_result_def)

lemma put_link_vault_cases:
  obtains (linked) c where "cl_renew_task c = Some (vp_next p)"
    "fst (put_link_vault env ld p) = Ok True"
    "vp_actors (snd (put_link_vault env ld p)) = (vp_actors p)(ld_actor_id ld \<mapsto> c)"
    "vp_next (snd (put_link_vault env ld p)) = vp_next p + 1"
    "\<And>i. vp_tasks (snd (put_link_vault env ld p)) i =
       (if \<exists>d. vp_actors p (ld_actor_id ld) = Some d \<and> cl_renew_task d = Some i then None
        else if i = vp_next p then Some (task_of c) else vp_tasks p i)"
  | (failed) "vp_actors (snd (put_link_vault env ld p)) = vp_actors p"
    "vp_tasks (snd (put_link_vault env ld p)) = vp_tasks p" "vp_next (snd (put_link_vault env ld p)) = vp_next p"
proof (cases "vault_from_values env (ld_values ld) (vp_vars p)")
  case (Pair r vars)
  show thesis
  proof (cases "rbind r (\<lambda>config. to_rpc_result (new_vault_client env config))")
    case (Ok client)
    then obtain config where r: "r = Ok config" and new: "new_vault_client env config = Ok client"
      by (auto simp: rbind_Ok_iff)
    then have "cl_renew_task client = None"
      by (auto simp: new_vault_client_def rbind_Ok_iff)
    with Pair r new show thesis
      by (intro linked [of "client\<lparr>cl_renew_task := Some (vp_next p)\<rparr>"])
        (auto simp: put_link_vault_def to_rpc_result_def set_renewal_def Let_def abort_renewal_def task_of_def)
  qed (use Pair in \<open>auto intro!: failed simp: put_link_vault_def Let_def rbind_Err_iff rbind_Panic_iff\<close>)
qed

interpretation vt: link_slots vp_actors "\<lambda>ld p. snd (put_link_vault env ld p)" delete_link_vault shutdown_vault for env
proof unfold_locales
  fix a and ld :: link_definition and p :: "'a vault_provider"
  assume "a \<noteq> ld_actor_id ld"
  then show "vp_actors (snd (put_link_vault env ld p)) a = vp_actors p a"
    by (cases rule: put_link_vault_cases [where env = env and ld = ld and p = p]) simp_all
qed (simp_all add: delete_link_vault_def shutdown_vault_def)

text \<open>The renewals by the contract of \<open>Task_Table\<close>.\<close>

definition vault_handles :: "'c vault_provider \<Rightarrow> string \<Rightarrow> nat set" where
  "vault_handles p a = {i. \<exists>c. vp_actors p a = Some c \<and> cl_renew_task c = Some i}"

interpretation vtt: task_table vault_handles vp_tasks vp_next "\<lambda>ld p. snd (put_link_vault env ld p)"
  delete_link_vault shutdown_vault for env
proof unfold_locales
  fix p :: "'a vault_provider" and ld
  assume wf: "wf_tasks vault_handles vp_tasks vp_next p"
  show "changes vault_handles vp_tasks vp_next (ld_actor_id ld) p (snd (put_link_vault env ld p))"
  proof (cases rule: put_link_vault_cases [where env = env and ld = ld and p = p])
    case (linked c)
    then show ?thesis
      using wf_tasksD(2) [OF wf] by (auto simp: changes_def vault_handles_def less_SucI split: if_splits)
  next
    case failed
    with changes_refl [OF wf] show ?thesis by (simp add: changes_def vault_handles_def)
  qed
qed (auto simp: vault_handles_def delete_link_vault_def shutdown_vault_def ran_def)

inductive vault_reachable :: "('u, 'c, 's) vault_env \<Rightarrow> 'c vault_provider \<Rightarrow> bool" for env where
  start: "vault_reachable env (init_vault vars)"
| put: "vault_reachable env p \<Longrightarrow> vault_reachable env (snd (put_link_vault env ld p))"
| del: "vault_reachable env p \<Longrightarrow> vault_reachable env (delete_link_vault a p)"
| shut: "vault_reachable env p \<Longrightarrow> vault_reachable env (shutdown_vault p)"

definition vault_inv :: "'c vault_provider \<Rightarrow> bool" where
  "vault_inv p \<longleftrightarrow>
     (\<forall>i t. vp_tasks p i = Some t \<longleftrightarrow> (\<exists>a c. vp_actors p a = Some c \<and> cl_renew_task c = Some i \<and> t = task_of c)) \<and>
     (\<forall>a c. vp_actors p a = Some c \<longrightarrow> (\<exists>i. cl_renew_task c = Some i \<and> i < vp_next p)) \<and>
     (\<forall>a b c d. vp_actors p a = Some c \<longrightarrow> vp_actors p b = Some d \<longrightarrow> cl_renew_task c = cl_renew_task d \<longrightarrow> a = b)"

lemma vault_invD:
  "vault_inv p \<Longrightarrow> vp_actors p a = Some c \<Longrightarrow> \<exists>i. cl_renew_task c = Some i \<and> i < vp_next p"
  "vault_inv p \<Longrightarrow> vp_actors p a = Some c \<Longrightarrow> vp_actors p b = Some d \<Longrightarrow> cl_renew_task c = cl_renew_task d \<Longrightarrow> a = b"
  "vault_inv p \<Longrightarrow> vp_tasks p i = Some t \<longleftrightarrow> (\<exists>a c. vp_actors p a = Some c \<and> cl_renew_task c = Some i \<and> t = task_of c)"
  unfolding vault_inv_def by blast+

lemma vault_inv_wf: "vault_inv p \<Longrightarrow> wf_tasks vault_handles vp_tasks vp_next p"
  unfolding wf_tasks_def vault_handles_def by (fastforce dest: vault_invD(1,2) simp: vault_invD(3))

lemma vault_inv_put:
  assumes inv: "vault_inv p"
  shows "vault_inv (snd (put_link_vault env ld p))"
proof (cases rule: put_link_vault_cases [where env = env and ld = ld and p = p])
  case (linked c)
  note D = vault_invD [OF inv]
  have fresh: "cl_renew_task d \<noteq> Some (vp_next p)" if "vp_actors p a = Some d" for a d
    using D(1) [OF that] by auto
  have "vp_tasks (snd (put_link_vault env ld p)) i = Some t \<longleftrightarrow>
      (\<exists>a d. vp_actors (snd (put_link_vault env ld p)) a = Some d \<and> cl_renew_task d = Some i \<and> t = task_of d)" for i t
  proof (cases "i = vp_next p")
    case True
    with fresh linked show ?thesis by (auto split: if_splits)
  next
    case False
    show ?thesis
    proof (cases "\<exists>d. vp_actors p (ld_actor_id ld) = Some d \<and> cl_renew_task d = Some i")
      case True
      then have "\<not> (\<exists>a d. a \<noteq> ld_actor_id ld \<and> vp_actors p a = Some d \<and> cl_renew_task d = Some i)"
        using D(2) by metis
      with True False linked show ?thesis by (auto split: if_splits)
    next
      case none: False
      then have "vp_tasks (snd (put_link_vault env ld p)) i = vp_tasks p i"
        using \<open>i \<noteq> vp_next p\<close> linked(5) by auto
      moreover have "(((vp_actors p)(ld_actor_id ld \<mapsto> c)) a = Some d \<and> cl_renew_task d = Some i \<and> t = task_of d) =
          (vp_actors p a = Some d \<and> cl_renew_task d = Some i \<and> t = task_of d)" for a d
        using none \<open>i \<noteq> vp_next p\<close> linked(1) by auto
      ultimately show ?thesis by (simp add: D(3) linked(3) del: fun_upd_apply)
    qed
  qed
  moreover have "\<exists>i. cl_renew_task d = Some i \<and> i < vp_next (snd (put_link_vault env ld p))"
    if "vp_actors (snd (put_link_vault env ld p)) a = Some d" for a d
    using that linked(1,3,4) D(1) by (fastforce split: if_splits)
  moreover have "a = b" if "vp_actors (snd (put_link_vault env ld p)) a = Some d"
      "vp_actors (snd (put_link_vault env ld p)) b = Some e" "cl_renew_task d = cl_renew_task e" for a b d e
    using that linked(1,3) fresh D(2) by (auto split: if_splits)
  ultimately show ?thesis unfolding vault_inv_def by blast
qed (use inv in \<open>simp add: vault_inv_def\<close>)

lemma vault_inv_del:
  assumes inv: "vault_inv p"
  shows "vault_inv (delete_link_vault a p)"
proof -
  note D = vault_invD [OF inv]
  have "vp_tasks (delete_link_vault a p) i = Some t \<longleftrightarrow>
      (\<exists>b d. vp_actors (delete_link_vault a p) b = Some d \<and> cl_renew_task d = Some i \<and> t = task_of d)" for i t
  proof (cases "\<exists>d. vp_actors p a = Some d \<and> cl_renew_task d = Some i")
    case True
    then have "\<not> (\<exists>b d. b \<noteq> a \<and> vp_actors p b = Some d \<and> cl_renew_task d = Some i)"
      using D(2) by metis
    with True show ?thesis by (auto simp: delete_link_vault_def)
  next
    case False
    with D(3) [of i t] show ?thesis by (auto simp: delete_link_vault_def split: if_splits)
  qed
  then show ?thesis using D(1,2) unfolding vault_inv_def by (auto simp: delete_link_vault_def)
qed

lemma vault_inv_shut:
  assumes "vault_inv p"
  shows "vault_inv (shutdown_vault p)"
proof -
  have "vp_tasks (shutdown_vault p) i = None" for i
    using vault_invD(3) [OF assms, of i] by (cases "vp_tasks p i") (auto simp: shutdown_vault_def ran_def, blast)
  moreover have "vp_actors (shutdown_vault p) = Map.empty" by (simp add: shutdown_vault_def)
  ultimately show ?thesis by (simp add: vault_inv_def)
qed

lemma vault_reachable_inv: "vault_reachable env p \<Longrightarrow> vault_inv p"
proof (induction rule: vault_reachable.induct)
  case (start vars)
  then show ?case by (simp add: vault_inv_def init_vault_def)
qed (simp_all add: vault_inv_put vault_inv_del vault_inv_shut)


section \<open>Sample data\<close>

text \<open>A server that keeps the last document of each path, and a parser that knows one JSON text.\<close>

definition sample_doc :: json where
  "sample_doc = JObject [(STRING_VALUE_MARKER, JBool True), (''k'', JNull)]"

definition sample_vault_env :: "(string, string, string \<rightharpoonup> json) vault_env" where
  "sample_vault_env =
     \<lparr>ve_read_to_string = (\<lambda>_. Inl ''none''), ve_parse_env = (\<lambda>_. []), ve_parse_url = Some, ve_new = (\<lambda>cs. Inr (vs_token cs)),
      ve_from_str = (\<lambda>t. if t = ''doc'' then Inr sample_doc else Inl ''bad''),
      ve_to_string = (\<lambda>j. Inr (if j = sample_doc then ''doc'' else ''other'')),
      ve_read = (\<lambda>c ns path s. case s path of None \<Rightarrow> Inl (APIError 404 []) | Some j \<Rightarrow> Inr j),
      ve_set = (\<lambda>c ns path j s. (Inr (), s(path \<mapsto> j))),
      ve_delete_latest = (\<lambda>c ns path s. (Inr (), s(path := None))),
      ve_list = (\<lambda>c ns path s. Inr []), ve_renew = (\<lambda>c inc s. (Inr (), s)), ve_lookup = (\<lambda>c s. Inr ())\<rparr>"

definition sample_vault_link :: link_definition where
  "sample_vault_link = \<lparr>ld_actor_id = ''a'', ld_provider_id = ''p'', ld_link_name = ''default'',
     ld_contract_id = ''wasmcloud:keyvalue'', ld_values = [(''token'', ''t'')]\<rparr>"

definition sample_vault :: "string vault_provider" where
  "sample_vault = snd (put_link_vault sample_vault_env sample_vault_link (init_vault Map.empty))"

lemma sample_vault_client:
  "get_client_vault sample_vault \<lparr>ctx_actor = Some ''a''\<rparr> =
     Ok \<lparr>cl_inner = ''t'', cl_namespace = ''secret'', cl_token_increment_ttl = ''72h'',
         cl_token_refresh_interval = TOKEN_REFRESH_INTERVAL, cl_renew_task = Some 0\<rparr>"
  by (simp add: get_client_vault_def sample_vault_def put_link_vault_def vault_from_values_def load_vault_env_file_def
      sample_vault_link_def init_vault_def hm_get_def vault_config_of_def vault_setting_def sample_vault_env_def
      new_vault_client_def to_rpc_result_def set_renewal_def Let_def abort_renewal_def TOKEN_INCREMENT_TTL_def ok_or_def
      DEFAULT_VAULT_ADDR_def)

section \<open>Properties\<close>

text \<open>C39: what a get returns after a set, when the server returns the document it stored: a value that is
  not JSON comes back as it was; a JSON string comes back without its quotes; a JSON object comes
  back as the text of the object, except that its entry under the marker key is lost, or, if it is a
  string, is all that comes back; any other JSON value comes back as its text.\<close>
theorem vault_set_get:
  assumes "get_client_vault p ctx = Ok cl"
    and stored: "ve_set env (cl_inner cl) (cl_namespace cl) key (value_to_store env v) s = (Inr (), s')"
    and read: "ve_read env (cl_inner cl) (cl_namespace cl) key s' = Inr (value_to_store env v)"
    and printed: "\<forall>j. ve_to_string env j = Inr (render j)"
  shows "set_vault env p ctx \<lparr>sr_key = key, sr_value = v, sr_expires = x\<rparr> s = (Ok (), s') \<and>
     get_vault env p ctx key s' = Ok \<lparr>gr_value = (case ve_from_str env v of
         Inl _ \<Rightarrow> v
       | Inr (JString t) \<Rightarrow> t
       | Inr (JObject kvs) \<Rightarrow>
           (case map_of kvs STRING_VALUE_MARKER of
              Some (JString t) \<Rightarrow> t
            | None \<Rightarrow> render (JObject kvs)
            | _ \<Rightarrow> render (JObject (filter (\<lambda>kv. fst kv \<noteq> STRING_VALUE_MARKER) kvs)))
       | Inr j \<Rightarrow> render j), gr_exists = True\<rparr>"
proof -
  have "filter (\<lambda>kv. fst kv \<noteq> k) kvs = kvs" if "map_of kvs k = None" for k and kvs :: "(string \<times> json) list"
    using that by (auto simp: filter_id_conv map_of_eq_None_iff image_iff)
  with assms show ?thesis
    by (auto simp: set_vault_def write_secret_def get_vault_def read_secret_def value_to_store_def hm_get_def
        split: sum.splits json.splits option.splits)
qed

theorem vault_set_get_witness:
  "gr_value (case get_vault sample_vault_env sample_vault \<lparr>ctx_actor = Some ''a''\<rparr> ''k''
      [''k'' \<mapsto> value_to_store sample_vault_env ''plain''] of Ok r \<Rightarrow> r) = ''plain'' \<and>
   gr_value (case get_vault sample_vault_env sample_vault \<lparr>ctx_actor = Some ''a''\<rparr> ''k''
      [''k'' \<mapsto> value_to_store sample_vault_env ''doc''] of Ok r \<Rightarrow> r) = ''other''"
proof -
  let ?ctx = "\<lparr>ctx_actor = Some ''a''\<rparr>"
  have "get_vault sample_vault_env sample_vault ?ctx ''k'' [''k'' \<mapsto> value_to_store sample_vault_env ''plain''] =
      Ok \<lparr>gr_value = ''plain'', gr_exists = True\<rparr>"
    using vault_set_get [OF sample_vault_client, where key = "''k''" and v = "''plain''"
        and s = "Map.empty" and s' = "[''k'' \<mapsto> value_to_store sample_vault_env ''plain'']" and x = "0"
        and render = "\<lambda>j. if j = sample_doc then ''doc'' else ''other''" and env = "sample_vault_env"]
    by (simp add: sample_vault_env_def)
  moreover have "get_vault sample_vault_env sample_vault ?ctx ''k'' [''k'' \<mapsto> value_to_store sample_vault_env ''doc''] =
      Ok \<lparr>gr_value = ''other'', gr_exists = True\<rparr>"
    using vault_set_get [OF sample_vault_client, where key = "''k''" and v = "''doc''"
        and s = "Map.empty" and s' = "[''k'' \<mapsto> value_to_store sample_vault_env ''doc'']" and x = "0"
        and render = "\<lambda>j. if j = sample_doc then ''doc'' else ''other''" and env = "sample_vault_env"]
    by (simp add: sample_vault_env_def sample_doc_def STRING_VALUE_MARKER_def)
  ultimately show ?thesis by simp
qed



text \<open>C0: how errors surface: deleting never reports that a key was missing, because only reading and
  listing turn the server's 404 into not-found; and \<open>contains\<close> answers no to every failure, a
  missing link included.\<close>
theorem vault_errors:
  "fst (del_vault env p ctx key s) \<noteq> Ok False \<and>
   (ve_delete_latest env (cl_inner cl) (cl_namespace cl) key s = (Inl (APIError 404 errs), s') \<longrightarrow>
      get_client_vault p ctx = Ok cl \<longrightarrow>
      del_vault env p ctx key s = (Err (Other ''vault error: An error occurred with the request''), s')) \<and>
   (\<forall>e. contains_vault env p ctx key s \<noteq> Err e) \<and>
   (get_vault env p ctx key s = Err e \<longrightarrow> contains_vault env p ctx key s = Ok False)"
proof -
  have "fst (del_vault env p ctx key s) \<noteq> Ok False"
    by (cases "get_client_vault p ctx"; cases "ve_delete_latest env (cl_inner (case get_client_vault p ctx of Ok c \<Rightarrow> c))
        (cl_namespace (case get_client_vault p ctx of Ok c \<Rightarrow> c)) key s"; cases "fst (ve_delete_latest env (cl_inner (case get_client_vault p ctx of Ok c \<Rightarrow> c))
        (cl_namespace (case get_client_vault p ctx of Ok c \<Rightarrow> c)) key s)")
      (auto simp: del_vault_def delete_latest_def)
  then show ?thesis
    by (auto simp: del_vault_def delete_latest_def contains_vault_def vault_rpc_err_def show_vault_error_def split: rres.splits)
qed

theorem vault_errors_witness:
  "contains_vault sample_vault_env sample_vault \<lparr>ctx_actor = Some ''b''\<rparr> ''k'' Map.empty = Ok False"
proof -
  have "vp_actors sample_vault ''b'' = None"
    by (cases rule: put_link_vault_cases [where env = sample_vault_env and ld = sample_vault_link and p = "init_vault Map.empty"])
      (simp_all add: sample_vault_def init_vault_def sample_vault_link_def)
  then have "get_vault sample_vault_env sample_vault \<lparr>ctx_actor = Some ''b''\<rparr> ''k'' Map.empty =
      Err (InvalidParameter ''actor not linked:b'')"
    by (simp add: get_vault_def get_client_vault_def)
  then show ?thesis
    using vault_errors [of sample_vault_env sample_vault "\<lparr>ctx_actor = Some ''b''\<rparr>" "''k''" "Map.empty"] by blast
qed

end
