(* ===== verification/Kv_Store.thy ===== *)
theory Kv_Store
  imports Kv_Redis Kv_Vault Refinement
begin

text \<open>
  What the two key-value providers promise an actor in common: a map from keys to strings. Redis keeps
  strings; Vault keeps JSON documents, so it stores a value as a document and turns the document into a
  string again. Both are interpreted as refinements of the map.
\<close>

section \<open>The contract\<close>

datatype kv_op =
    KvSet string string
  | KvGet string
  | KvHas string
  | KvDel string

datatype kv_reply = KvStored | KvValue string | KvMissing | KvPresent bool | KvDeleted | KvFailed

primrec kv_spec :: "kv_op \<Rightarrow> (string \<rightharpoonup> string) \<Rightarrow> kv_reply \<times> (string \<rightharpoonup> string)" where
  "kv_spec (KvSet k v) m = (KvStored, m(k \<mapsto> v))"
| "kv_spec (KvGet k) m = ((case m k of Some v \<Rightarrow> KvValue v | None \<Rightarrow> KvMissing), m)"
| "kv_spec (KvHas k) m = (KvPresent (m k \<noteq> None), m)"
| "kv_spec (KvDel k) m = (KvDeleted, m(k := None))"

text \<open>
  The replies as the contract sees them. What \<open>del\<close> reports is not part of it: Redis reports whether there was a
  value, Vault always that there was one.
\<close>

definition kv_reply_of :: "('a \<Rightarrow> kv_reply) \<Rightarrow> 'a rpc_result \<Rightarrow> kv_reply" where
  "kv_reply_of f r = (case r of Ok x \<Rightarrow> f x | _ \<Rightarrow> KvFailed)"

definition got_reply :: "get_response \<Rightarrow> kv_reply" where
  "got_reply r = (if gr_exists r then KvValue (gr_value r) else KvMissing)"

lemma kv_reply_of_Ok [simp]: "kv_reply_of f (Ok x) = f x"
  by (simp add: kv_reply_of_def)

definition plain_set :: "string \<Rightarrow> string \<Rightarrow> set_request" where
  "plain_set k v = \<lparr>sr_key = k, sr_value = v, sr_expires = 0\<rparr>"

section \<open>Redis\<close>

primrec redis_kv :: "('n, 'r, 's) redis_env \<Rightarrow> 'n redis_provider \<Rightarrow> ctx \<Rightarrow> kv_op \<Rightarrow> 's \<Rightarrow> kv_reply \<times> 's" where
  "redis_kv env p ctx (KvSet k v) s = apfst (kv_reply_of (\<lambda>_. KvStored)) (set_redis env p ctx (plain_set k v) s)"
| "redis_kv env p ctx (KvGet k) s = apfst (kv_reply_of got_reply) (get_redis env p ctx k s)"
| "redis_kv env p ctx (KvHas k) s = apfst (kv_reply_of KvPresent) (contains_redis env p ctx k s)"
| "redis_kv env p ctx (KvDel k) s = apfst (kv_reply_of (\<lambda>_. KvDeleted)) (del_redis env p ctx k s)"

definition redis_ready :: "('n, 'r, 's) redis_env \<Rightarrow> 'n redis_provider \<Rightarrow> ctx \<Rightarrow> ('s \<Rightarrow> string \<rightharpoonup> string) \<Rightarrow> 's \<Rightarrow> bool" where
  "redis_ready env p ctx keys s \<longleftrightarrow> (\<exists>con. redis_connection p ctx = Ok con \<and> redis_strings env con keys)"

interpretation rkv: store_refinement "redis_kv env p ctx" kv_spec keys "redis_ready env p ctx keys" ok
  for env p ctx keys ok
proof unfold_locales
  fix s x
  assume ready: "redis_ready env p ctx keys s"
  then obtain con where con: "redis_connection p ctx = Ok con" "redis_strings env con keys"
    by (auto simp: redis_ready_def)
  note ops = redis_string_ops [OF con]
  have "kv_spec x (keys s) = (fst (redis_kv env p ctx x s), keys (snd (redis_kv env p ctx x s)))"
  proof (cases x)
    case (KvSet k v)
    then show ?thesis using ops(1) [of k v 0 s] by (auto simp: plain_set_def)
  next
    case (KvGet k)
    then show ?thesis by (simp add: ops(2) got_reply_def split: option.splits)
  next
    case (KvHas k)
    then show ?thesis by (simp add: ops(3))
  next
    case (KvDel k)
    then show ?thesis using ops(4) [of k s] by auto
  qed
  with ready show "redis_ready env p ctx keys (snd (redis_kv env p ctx x s)) \<and>
      kv_spec x (keys s) = (fst (redis_kv env p ctx x s), keys (snd (redis_kv env p ctx x s)))"
    by (simp add: redis_ready_def)
qed

section \<open>Vault\<close>

primrec vault_kv :: "('u, 'c, 's) vault_env \<Rightarrow> 'c vault_provider \<Rightarrow> ctx \<Rightarrow> kv_op \<Rightarrow> 's \<Rightarrow> kv_reply \<times> 's" where
  "vault_kv env p ctx (KvSet k v) s = apfst (kv_reply_of (\<lambda>_. KvStored)) (set_vault env p ctx (plain_set k v) s)"
| "vault_kv env p ctx (KvGet k) s = (kv_reply_of got_reply (get_vault env p ctx k s), s)"
| "vault_kv env p ctx (KvHas k) s = (kv_reply_of KvPresent (contains_vault env p ctx k s), s)"
| "vault_kv env p ctx (KvDel k) s = apfst (kv_reply_of (\<lambda>_. KvDeleted)) (del_vault env p ctx k s)"

text \<open>
  What Vault documents of the versioned key-value engine: \<open>docs\<close> are the documents of the namespace of a client as
  the server has them. A path whose latest version is deleted, or that never was written, answers 404.
\<close>

definition vault_docs :: "('u, 'c, 's) vault_env \<Rightarrow> 'c vault_client \<Rightarrow> ('s \<Rightarrow> string \<rightharpoonup> json) \<Rightarrow> bool" where
  "vault_docs env cl docs \<longleftrightarrow>
     (\<forall>s k j. \<exists>s'. ve_set env (cl_inner cl) (cl_namespace cl) k j s = (Inr (), s') \<and> docs s' = (docs s)(k \<mapsto> j)) \<and>
     (\<forall>s k. case docs s k of
        Some j \<Rightarrow> ve_read env (cl_inner cl) (cl_namespace cl) k s = Inr j
      | None \<Rightarrow> \<exists>errors. ve_read env (cl_inner cl) (cl_namespace cl) k s = Inl (APIError 404 errors)) \<and>
     (\<forall>s k. \<exists>s'. ve_delete_latest env (cl_inner cl) (cl_namespace cl) k s = (Inr (), s') \<and> docs s' = (docs s)(k := None))"

text \<open>The string that a document is read as.\<close>

definition doc_text :: "(json \<Rightarrow> string) \<Rightarrow> json \<Rightarrow> string" where
  "doc_text render j =
     (case j of
        JObject kvs \<Rightarrow>
          (case hm_get kvs STRING_VALUE_MARKER of
             Some (JString t) \<Rightarrow> t
           | _ \<Rightarrow> render (JObject (filter (\<lambda>kv. fst kv \<noteq> STRING_VALUE_MARKER) kvs)))
      | JString t \<Rightarrow> t
      | _ \<Rightarrow> render j)"

text \<open>The values that Vault returns as they were set.\<close>

definition faithful :: "('u, 'c, 's) vault_env \<Rightarrow> (json \<Rightarrow> string) \<Rightarrow> string \<Rightarrow> bool" where
  "faithful env render v \<longleftrightarrow> doc_text render (value_to_store env v) = v"

lemma faithful_plain: "ve_from_str env v = Inl e \<Longrightarrow> faithful env render v"
  by (simp add: faithful_def value_to_store_def doc_text_def hm_get_def)

primrec kv_faithful :: "(string \<Rightarrow> bool) \<Rightarrow> kv_op \<Rightarrow> bool" where
  "kv_faithful P (KvSet k v) = P v"
| "kv_faithful P (KvGet k) = True"
| "kv_faithful P (KvHas k) = True"
| "kv_faithful P (KvDel k) = True"

definition vault_ready ::
  "('u, 'c, 's) vault_env \<Rightarrow> 'c vault_provider \<Rightarrow> ctx \<Rightarrow> (json \<Rightarrow> string) \<Rightarrow> ('s \<Rightarrow> string \<rightharpoonup> json) \<Rightarrow> 's \<Rightarrow> bool" where
  "vault_ready env p ctx render docs s \<longleftrightarrow>
     (\<exists>cl. get_client_vault p ctx = Ok cl \<and> vault_docs env cl docs) \<and> (\<forall>j. ve_to_string env j = Inr (render j))"

definition vault_map :: "(json \<Rightarrow> string) \<Rightarrow> ('s \<Rightarrow> string \<rightharpoonup> json) \<Rightarrow> 's \<Rightarrow> string \<rightharpoonup> string" where
  "vault_map render docs s = (\<lambda>k. map_option (doc_text render) (docs s k))"

lemma vault_string_ops:
  assumes cl: "get_client_vault p ctx = Ok cl" and srv: "vault_docs env cl docs" and printed: "\<forall>j. ve_to_string env j = Inr (render j)"
  shows "\<exists>s'. set_vault env p ctx (plain_set k v) s = (Ok (), s') \<and> docs s' = (docs s)(k \<mapsto> value_to_store env v)"
    and "get_vault env p ctx k s = Ok (case docs s k of Some j \<Rightarrow> \<lparr>gr_value = doc_text render j, gr_exists = True\<rparr>
       | None \<Rightarrow> \<lparr>gr_value = [], gr_exists = False\<rparr>)"
    and "contains_vault env p ctx k s = Ok (docs s k \<noteq> None)"
    and "\<exists>s'. del_vault env p ctx k s = (Ok True, s') \<and> docs s' = (docs s)(k := None)"
proof -
  obtain s' where "ve_set env (cl_inner cl) (cl_namespace cl) k (value_to_store env v) s = (Inr (), s')"
      "docs s' = (docs s)(k \<mapsto> value_to_store env v)"
    using srv unfolding vault_docs_def by blast
  with cl show "\<exists>s'. set_vault env p ctx (plain_set k v) s = (Ok (), s') \<and> docs s' = (docs s)(k \<mapsto> value_to_store env v)"
    by (simp add: set_vault_def write_secret_def plain_set_def)
  show get: "get_vault env p ctx k s = Ok (case docs s k of Some j \<Rightarrow> \<lparr>gr_value = doc_text render j, gr_exists = True\<rparr>
       | None \<Rightarrow> \<lparr>gr_value = [], gr_exists = False\<rparr>)"
  proof -
    have reads: "case docs s k of
        Some j \<Rightarrow> ve_read env (cl_inner cl) (cl_namespace cl) k s = Inr j
      | None \<Rightarrow> \<exists>errors. ve_read env (cl_inner cl) (cl_namespace cl) k s = Inl (APIError 404 errors)"
      using srv unfolding vault_docs_def by blast
    show ?thesis
    proof (cases "docs s k")
      case None
      with reads obtain errors where "ve_read env (cl_inner cl) (cl_namespace cl) k s = Inl (APIError 404 errors)"
        by auto
      with None cl show ?thesis by (simp add: get_vault_def read_secret_def not_found_or_def)
    next
      case (Some j)
      then have "ve_read env (cl_inner cl) (cl_namespace cl) k s = Inr j"
        using reads by simp
      then have "read_secret env cl k s = Ok j" by (simp add: read_secret_def)
      then have get: "get_vault env p ctx k s = Ok \<lparr>gr_value = doc_text render j, gr_exists = True\<rparr>"
      proof (cases j)
        case (JObject kvs)
        have print: "ve_to_string env (JObject (filter (\<lambda>kv. fst kv \<noteq> STRING_VALUE_MARKER) kvs)) =
            Inr (render (JObject (filter (\<lambda>kv. fst kv \<noteq> STRING_VALUE_MARKER) kvs)))"
          using printed by blast
        show ?thesis
        proof (cases "hm_get kvs STRING_VALUE_MARKER")
          case None
          with \<open>read_secret env cl k s = Ok j\<close> JObject cl(1) print show ?thesis by (simp add: get_vault_def doc_text_def)
        next
          case marker: (Some m)
          with \<open>read_secret env cl k s = Ok j\<close> JObject cl(1) print show ?thesis
            by (cases m) (simp_all add: get_vault_def doc_text_def)
        qed
      qed (use cl(1) printed in \<open>simp_all add: get_vault_def doc_text_def\<close>)
      with Some show ?thesis by simp
    qed
  qed
  show "contains_vault env p ctx k s = Ok (docs s k \<noteq> None)"
    by (cases "docs s k") (simp_all add: contains_vault_def get)
  obtain s' where "ve_delete_latest env (cl_inner cl) (cl_namespace cl) k s = (Inr (), s')" "docs s' = (docs s)(k := None)"
    using srv unfolding vault_docs_def by blast
  with cl show "\<exists>s'. del_vault env p ctx k s = (Ok True, s') \<and> docs s' = (docs s)(k := None)"
    by (simp add: del_vault_def delete_latest_def)
qed

interpretation vkv: store_refinement "vault_kv env p ctx" kv_spec "vault_map render docs" "vault_ready env p ctx render docs"
    "kv_faithful (faithful env render)"
  for env p ctx render docs
proof unfold_locales
  fix s x
  assume ready: "vault_ready env p ctx render docs s" and sup: "kv_faithful (faithful env render) x"
  then obtain cl where cl: "get_client_vault p ctx = Ok cl" "vault_docs env cl docs" "\<forall>j. ve_to_string env j = Inr (render j)"
    by (auto simp: vault_ready_def)
  note ops = vault_string_ops [OF cl]
  have "kv_spec x (vault_map render docs s) = (fst (vault_kv env p ctx x s), vault_map render docs (snd (vault_kv env p ctx x s)))"
  proof (cases x)
    case (KvSet k v)
    then show ?thesis using ops(1) [of k v s] sup by (auto simp: vault_map_def faithful_def fun_eq_iff)
  next
    case (KvGet k)
    then show ?thesis by (simp add: ops(2) got_reply_def vault_map_def split: option.splits)
  next
    case (KvHas k)
    then show ?thesis by (simp add: ops(3) vault_map_def)
  next
    case (KvDel k)
    then show ?thesis using ops(4) [of k s] by (auto simp: vault_map_def fun_eq_iff)
  qed
  with ready show "vault_ready env p ctx render docs (snd (vault_kv env p ctx x s)) \<and>
      kv_spec x (vault_map render docs s) = (fst (vault_kv env p ctx x s), vault_map render docs (snd (vault_kv env p ctx x s)))"
    by (simp add: vault_ready_def)
qed

interpretation kvs: two_refinements "redis_kv renv rp rctx" kv_spec keys "redis_ready renv rp rctx keys" "kv_faithful (faithful env render)"
    "vault_kv env p ctx" "vault_map render docs" "vault_ready env p ctx render docs"
  for renv rp rctx keys env p ctx render docs
  by (rule two_refinements.intro [OF rkv.store_refinement_axioms vkv.store_refinement_axioms])

section \<open>Sample data\<close>

definition sample_kv_ops :: "kv_op list" where
  "sample_kv_ops = [KvHas ''k'', KvSet ''k'' ''plain'', KvGet ''k'', KvSet ''l'' ''x'', KvDel ''k'', KvGet ''k'', KvGet ''l'']"

definition sample_render :: "json \<Rightarrow> string" where
  "sample_render j = (if j = sample_doc then ''doc'' else ''other'')"

lemma sample_redis_ready: "redis_ready sample_redis_env [''a'' \<mapsto> ()] \<lparr>ctx_actor = Some ''a''\<rparr> (\<lambda>s. s) Map.empty"
  by (simp add: redis_ready_def redis_connection_def redis_strings_def sample_redis_env_def)

lemma sample_vault_ready: "vault_ready sample_vault_env sample_vault \<lparr>ctx_actor = Some ''a''\<rparr> sample_render (\<lambda>s. s) Map.empty"
  unfolding vault_ready_def sample_vault_client
  by (simp add: vault_docs_def sample_vault_env_def sample_render_def split: option.split)

lemma sample_kv_faithful: "list_all (kv_faithful (faithful sample_vault_env sample_render)) sample_kv_ops"
proof -
  have "faithful sample_vault_env sample_render ''plain''" "faithful sample_vault_env sample_render ''x''"
    by (rule faithful_plain, simp add: sample_vault_env_def)+
  then show ?thesis by (simp add: sample_kv_ops_def)
qed

section \<open>Properties\<close>



end
