(* ===== verification/Spec2Isabelle.thy ===== *)
theory Spec2Isabelle
  imports Httpserver_Core Httpclient Blobstore_S3_Store Blobstore_S3_List Blobstore_FS_Store Blobstore_FS_Dirs Blobstore_FS_Concurrent Nats_Dispatch Messaging_Relay Lattice_Timer Sqldb_Dynamodb Sqldb_Postgres
    Kv_Store
begin

text \<open>
  A model of the wasmCloud capability providers and its theorems.

  \<^bold>\<open>The program.\<close> Each crate is one provider: a process that a host links to actors. The host sends
  control messages (put-link with the values of a link, delete-link, shutdown); a provider keeps a
  table from actor ids to a resource made from the link values (a client, a connection pool, a
  server, subscription tasks). Actors call a provider through the RPC layer; the call carries the
  actor's id, by which the provider finds the resource, and most calls become requests to an outside
  service. Providers of messages and of HTTP also call actors.

  \<^bold>\<open>Which theory models what.\<close>
  \<^item> \<open>Prelude\<close>: results with errors and aborts, Rust strings, integer parsing, RPC errors, link
    definitions, call contexts. \<open>Rust_Path\<close>, \<open>Json\<close>, \<open>Http_Headers\<close>: the parts of the path library,
    JSON values and header maps that the crates use. \<open>Blobstore_Interface\<close>, \<open>Messaging_Interface\<close>,
    \<open>Keyvalue_Interface\<close>, \<open>Sqldb_Interface\<close>: the data of the interfaces that several providers share.
  \<^item> \<open>Link_Registry\<close>: the contract of the tables of links, as locales; each provider theory
    interprets one of them on its own handlers, and what follows for any run of control messages is
    proved there once. \<open>Task_Table\<close>: the contract of the providers that run background tasks for
    links, which the HTTP server, both messaging providers and the Vault store interpret.
  \<^item> \<open>Httpserver_Settings\<close>, \<open>Httpserver\<close>: \<open>httpserver-rs\<close> (\<open>src/settings.rs\<close>, \<open>src/hashmap_ci.rs\<close>,
    \<open>src/lib.rs\<close>, \<open>bin/main.rs\<close>): loading, merging and validating settings; the request handler;
    listeners started and stopped with links. \<open>Httpserver_Core\<close>: the servers behind the table, each with its
    channel for the shutdown signal, its listener and its requests under way, interleaved with control messages.
  \<^item> \<open>Httpclient\<close>: \<open>httpclient/src/main.rs\<close>.
  \<^item> \<open>Aws_Config\<close>: \<open>config.rs\<close> of \<open>blobstore-s3\<close> and \<open>sqldb-dynamodb\<close>. \<open>Blobstore_S3\<close>: \<open>blobstore-s3\<close>
    (\<open>lib.rs\<close>, \<open>main.rs\<close>): all operations, aliases, ranges, streaming in chunks.
  \<^item> \<open>Blobstore_FS\<close>: \<open>blobstore-fs\<close> (\<open>main.rs\<close>, \<open>fs_utils.rs\<close>): paths below the root, chunked uploads, all
    operations. \<open>Blobstore_FS_Dirs\<close>: what the recursive listing returns.
    \<open>Blobstore_FS_Uploads\<close>: chunked uploads of several objects and actors whose messages interleave;
    \<open>Blobstore_FS_Concurrent\<close>: \<open>store_chunk\<close> at its await points, many calls at a time.
    \<open>Blobstore_S3_List\<close>: listing a bucket page by page.
  \<^item> \<open>Refinement\<close>: what it means that a provider refines a specification, and that two providers of one specification cannot be
    told apart, as locales. \<open>Object_Store\<close>: what a blobstore promises, a map from names to bytes;
    \<open>Blobstore_FS_Store\<close> and \<open>Blobstore_S3_Store\<close> interpret it on the two providers. \<open>Kv_Store\<close>: what a key-value
    store promises, a map from keys to strings, interpreted on Redis and Vault.
  \<^item> \<open>Nats\<close>: \<open>nats/src/main.rs\<close>; \<open>Kafka\<close>: \<open>messaging-kafka/src/main.rs\<close>: links, the tasks that deliver
    messages, publishing. \<open>Nats_Dispatch\<close>: the loop of a subscription task of \<open>nats\<close>, its semaphore of
    75 permits and the calls it starts, interleaved with control messages and arriving messages.
    \<open>Messaging_Relay\<close>: both providers with their servers, from the publishing to the subscribed actor.
  \<^item> \<open>Lattice_Controller\<close>: \<open>lattice-controller/src\<close>: the cache of control clients and all handlers.
    \<open>Lattice_Timer\<close>: the timer that evicts idle clients, with requests at given times.
  \<^item> \<open>Sqldb_Dynamodb\<close>: \<open>sqldb-dynamodb/src\<close>; \<open>Sqldb_Postgres\<close>: \<open>sqldb-postgres/src\<close>.
  \<^item> \<open>Kv_Vault\<close>: \<open>kv-vault/src\<close>; \<open>Kv_Redis\<close>: \<open>kvredis/src/main.rs\<close>.

  \<^bold>\<open>How state and code correspond.\<close> A handler is a function from the provider's state (the fields of
  its struct behind their locks) to a result and a state; what runs on after a handler returns
  (subscription tasks, listeners, token renewals, streams) is part of the state or of the result.
  Handlers are atomic where the code holds a lock throughout; where it does not (the client cache of
  the lattice controller, the table of upload offsets), the pieces are separate steps of a step relation. A background task stops
  only when it is aborted or its loop ends, so dropping a handle is visible in the model. Errors are
  values; an \<open>unwrap\<close> on nothing and a slice out of range are the value \<open>Panic\<close>.

  \<^bold>\<open>What the theorems show.\<close>
  \<^item> Confinement and integrity: what actors name stays below their directory (\<open>Blobstore_FS\<close>), with the
    one operation for which it fails; uploads and downloads in chunks carry exactly the bytes,
    in as many chunks as the chunk size makes necessary. Both blobstores refine a map from names to
    bytes, so an actor cannot tell them apart by the objects it puts, gets, looks for and removes. Uploads that
    overlap do not disturb each other (\<open>Blobstore_FS_Uploads\<close>), not even between the await points of the calls that
    store their chunks (\<open>Blobstore_FS_Concurrent\<close>), unless an actor uses the stream id of another or sends a chunk
    before the one before it is answered. Following continuation tokens lists a bucket completely (\<open>Blobstore_S3_List\<close>).
    The key-value stores agree on the strings that Vault returns as they were set (\<open>Kv_Store\<close>), and both messaging
    providers carry messages from actor to actor in order and unchanged, Kafka without the reply subject (\<open>Messaging_Relay\<close>).
  \<^item> Lifecycle: in every reachable state the listeners, deliveries, cached clients and renewals belong to
    links in force (\<open>Httpserver\<close>, \<open>Nats\<close>, \<open>Lattice_Controller\<close>, \<open>Kv_Vault\<close>, \<open>Kafka\<close>), with the cases in
    which a task is leaked; and the subscriptions of a link in force keep delivering, in order and
    never more than 75 at a time, and start nothing once the link is gone (\<open>Nats\<close>, \<open>Nats_Dispatch\<close>); a server
    told to stop answers what it has accepted and comes to rest (\<open>Httpserver_Core\<close>); credentials of a lattice
    come into effect once its old client was idle (\<open>Lattice_Timer\<close>). The theorems of this theory say for all providers at once that links of
    different actors and their tasks do not interfere and that a deleted link and its tasks are gone.
  \<^item> Conversions: headers, sizes, settings, JSON attribute values and result sets are carried over
    without loss, or exactly what is lost; result sets are typed (\<open>Sqldb_Postgres\<close>): which columns can be encoded
    at all, and that each item has the type of its column.
  \<^item> Errors: which inputs are refused, and which abort the task that handles them.

  \<^bold>\<open>Bounds.\<close> Loops are structural or have a decreasing measure. The directory walk of \<open>Blobstore_FS\<close> stops
  1000 levels down, as the source does, which bounds its recursion.

  \<^bold>\<open>What is not modelled.\<close> Services and crates outside the repository (AWS SDK, NATS, Kafka, Vault, Redis,
  PostgreSQL, HTTP, TLS, JSON, base64, URL parsing, clocks, file system) are arguments of the
  definitions; logging has no effect and is left out. Process start-up (\<open>main\<close>) is modelled only where it
  computes configuration. Locks are modelled by the atomicity described above. Tests, build scripts and workflows are not part of the
  model; what is left of the sources besides are imports, type and trait headers, logging and \<open>main\<close> functions that start the RPC loop.
\<close>

section \<open>Properties of all providers\<close>



text \<open>C32: a link that was deleted is gone, whatever came before, until the actor is linked again: no control
  message about another actor, and no later deletion or shutdown, brings it back in any provider
  that handles delete-link.\<close>
theorem links_revoked:
  assumes "\<forall>e\<in>set post. \<forall>ld. e = PutLink ld \<longrightarrow> ld_actor_id ld \<noteq> a"
    and "evs = pre @ DeleteLink a # post"
  shows "hs_linked (run_links (\<lambda>ld st. snd (put_link_httpserver henv bind ld st)) delete_link_httpserver shutdown_httpserver evs h) a = None \<and>
     nats_link_of (run_links (\<lambda>ld p. snd (put_link_nats nenv settings ld p)) delete_link_nats shutdown_nats evs n) a = None \<and>
     kf_link_of (run_links (\<lambda>ld p. snd (put_link_kafka kenv brokers ld p)) delete_link_kafka shutdown_kafka evs k) a = None \<and>
     s3_link_of (run_links (\<lambda>ld p. snd (put_link_s3 senv ld p)) delete_link_s3 shutdown_s3 evs s) a = None \<and>
     dy_link_of (run_links (\<lambda>ld p. snd (put_link_dynamodb denv ve dr ld p)) delete_link_dynamodb shutdown_dynamodb evs d) a = None \<and>
     run_links (\<lambda>ld p. snd (put_link_postgres penv ld p)) delete_link_postgres shutdown_postgres evs g a = None \<and>
     run_links (\<lambda>ld p. snd (put_link_redis renv url ld p)) delete_link_redis shutdown_redis evs r a = None \<and>
     vp_actors (run_links (\<lambda>ld p. snd (put_link_vault venv ld p)) delete_link_vault shutdown_vault evs v) a = None"
  unfolding assms(2)
  by (intro conjI hs.slots.run_deleted [OF assms(1)] nt.slots.run_deleted [OF assms(1)] kf.slots.run_deleted [OF assms(1)]
      s3.slots.run_deleted [OF assms(1)] dy.slots.run_deleted [OF assms(1)] pg.slots.run_deleted [OF assms(1)]
      rd.slots.run_deleted [OF assms(1)] vt.run_deleted [OF assms(1)])

theorem links_revoked_witness:
  "vp_actors (run_links (\<lambda>ld p. snd (put_link_vault sample_vault_env ld p)) delete_link_vault shutdown_vault
     [PutLink sample_vault_link, DeleteLink ''a'', DeleteLink ''b''] (init_vault Map.empty)) ''a'' = None"
proof -
  have "\<forall>e\<in>set [DeleteLink ''b'']. \<forall>ld. e = PutLink ld \<longrightarrow> ld_actor_id ld \<noteq> ''a''" by simp
  moreover have "[PutLink sample_vault_link, DeleteLink ''a'', DeleteLink ''b''] =
      [PutLink sample_vault_link] @ DeleteLink ''a'' # [DeleteLink ''b'']" by simp
  ultimately show ?thesis
    by (rule links_revoked [THEN conjunct2, THEN conjunct2, THEN conjunct2, THEN conjunct2, THEN conjunct2, THEN conjunct2,
          THEN conjunct2])
qed

section \<open>Background tasks\<close>

lemma reachable_wf:
  assumes "hs_reachable henv h" "nats_reachable nenv settings n" "kafka_reachable once kenv k" "vault_reachable venv v"
  shows "wf_tasks hs_handles hs_tasks hs_next h" "wf_tasks nats_handles np_tasks np_next n"
    "wf_tasks kafka_handles kp_tasks kp_next k" "wf_tasks vault_handles vp_tasks vp_next v"
  using hs_reachable_inv [OF assms(1)] nats_reachable_inv [OF assms(2)]
    kafka_inv_wf [OF kafka_reachable_inv [OF assms(3)]] vault_inv_wf [OF vault_reachable_inv [OF assms(4)]]
  by (simp_all add: hs_inv_def nats_inv_def)

text \<open>C33: control messages about other actors do not touch the background tasks of an actor: its listener,
  its subscriptions, its consumer and its token renewal are the same and run as before, whatever
  links of other actors are put, replaced, refused or deleted.\<close>
theorem tasks_isolated:
  assumes "\<forall>e\<in>set evs. \<not> concerns a e"
    and "hs_reachable henv h" and "nats_reachable nenv settings n" and "kafka_reachable once kenv k" and "vault_reachable venv v"
    and "h' = run_links (\<lambda>ld st. snd (put_link_httpserver henv bind ld st)) delete_link_httpserver shutdown_httpserver evs h"
    and "n' = run_links (\<lambda>ld p. snd (put_link_nats nenv settings ld p)) delete_link_nats shutdown_nats evs n"
    and "k' = run_links (\<lambda>ld p. snd (put_link_kafka kenv brokers ld p)) delete_link_kafka shutdown_kafka evs k"
    and "v' = run_links (\<lambda>ld p. snd (put_link_vault venv ld p)) delete_link_vault shutdown_vault evs v"
  shows "(hs_handles h' a = hs_handles h a \<and> (\<forall>i\<in>hs_handles h a. hs_tasks h' i = hs_tasks h i)) \<and>
     (nats_handles n' a = nats_handles n a \<and> (\<forall>i\<in>nats_handles n a. np_tasks n' i = np_tasks n i)) \<and>
     (kafka_handles k' a = kafka_handles k a \<and> (\<forall>i\<in>kafka_handles k a. kp_tasks k' i = kp_tasks k i)) \<and>
     (vault_handles v' a = vault_handles v a \<and> (\<forall>i\<in>vault_handles v a. vp_tasks v' i = vp_tasks v i))"
proof -
  note wf = reachable_wf [OF assms(2-5)]
  show ?thesis
    unfolding assms(6-9)
    by (intro conjI hst.run_others [OF wf(1) assms(1)] ntt.run_others [OF wf(2) assms(1)]
        kft.run_others [OF wf(3) assms(1)] vtt.run_others [OF wf(4) assms(1)])
qed

theorem tasks_isolated_witness:
  "np_tasks (delete_link_nats ''B'' sample_nats_state) 1 = np_tasks sample_nats_state 1"
proof -
  have "\<forall>e\<in>set [DeleteLink ''B'']. \<not> concerns ''A'' e" by simp
  from tasks_isolated [OF this hs_reachable.start sample_nats_linked(1) kafka_reachable.start vault_reachable.start
      refl refl refl refl, THEN conjunct2, THEN conjunct1, THEN conjunct2, unfolded sample_nats_linked(2)]
  have "\<forall>i\<in>{0, 1}. np_tasks (delete_link_nats ''B'' sample_nats_state) i = np_tasks sample_nats_state i"
    unfolding run_links_simps link_step.simps .
  then show ?thesis by blast
qed

text \<open>C34: deleting the link of an actor stops every background task whose handle its entry has, and for
  good: no control message that follows, putting the link again included, makes one of them run.\<close>
theorem deleted_tasks_stopped:
  assumes "hs_reachable henv h" and "nats_reachable nenv settings n" and "kafka_reachable once kenv k" and "vault_reachable venv v"
  shows "(\<forall>i\<in>hs_handles h a. hs_tasks (run_links (\<lambda>ld st. snd (put_link_httpserver henv bind ld st)) delete_link_httpserver
       shutdown_httpserver (DeleteLink a # evs) h) i = None) \<and>
     (\<forall>i\<in>nats_handles n a. np_tasks (run_links (\<lambda>ld p. snd (put_link_nats nenv settings ld p)) delete_link_nats
       shutdown_nats (DeleteLink a # evs) n) i = None) \<and>
     (\<forall>i\<in>kafka_handles k a. kp_tasks (run_links (\<lambda>ld p. snd (put_link_kafka kenv brokers ld p)) delete_link_kafka
       shutdown_kafka (DeleteLink a # evs) k) i = None) \<and>
     (\<forall>i\<in>vault_handles v a. vp_tasks (run_links (\<lambda>ld p. snd (put_link_vault venv ld p)) delete_link_vault
       shutdown_vault (DeleteLink a # evs) v) i = None)"
proof -
  note wf = reachable_wf [OF assms]
  show ?thesis
    by (intro conjI ballI hst.run_deleted_stopped [OF wf(1)] ntt.run_deleted_stopped [OF wf(2)]
        kft.run_deleted_stopped [OF wf(3)] vtt.run_deleted_stopped [OF wf(4)])
qed

theorem deleted_tasks_stopped_witness:
  "np_tasks (snd (put_link_nats sample_nats_env sample_nats_settings sample_nats_ld
     (delete_link_nats ''A'' sample_nats_state))) 1 = None"
  using deleted_tasks_stopped [OF hs_reachable.start sample_nats_linked(1) kafka_reachable.start vault_reachable.start,
      where a = "''A''" and evs = "[PutLink sample_nats_ld]", THEN conjunct2, THEN conjunct1, unfolded sample_nats_linked(2)]
  unfolding run_links_simps link_step.simps by blast

section \<open>Blobstores\<close>

interpretation bs: two_refinements "fs_step fops clean fctx" spec_step "fs_objs fops loc N" "fs_ready fops clean fctx loc N" "supported N"
    "s3_step ops got p ctx cl" "s3_objs content cl N" "s3_ready ops got content p ctx cl N"
  for fops clean fctx loc N ops got content p ctx cl
  by (rule two_refinements.intro [OF fsb.store_refinement_axioms s3b.store_refinement_axioms])



end
